(* ===== verification/Prelude.thy ===== *)
theory Prelude
  imports Complex_Main "HOL-Library.Sublist"
begin

text \<open>
  Shared vocabulary of the development. A check of the program returns None when it
  passes and Some error when the code raises; a computation that may raise returns a
  value of a sum type. The Python idioms the components share have one definition each:
  a sequence of guards (\<open>first_error\<close>), a loop over enumerate(...) that may raise
  (\<open>each\<close>), \<open>len(xs) != len(set(xs))\<close> (\<open>unique_by\<close>), a dict comprehension keyed by a
  field (\<open>dict_by\<close>) and a defaultdict grouping (\<open>group_by\<close>).
\<close>

named_theorems check_simps \<open>equations that turn an accepted check into its condition\<close>

section \<open>Guards\<close>

definition require :: "bool \<Rightarrow> 'e \<Rightarrow> 'e option" where
  "require b e = (if b then None else Some e)"

lemma require_None [simp, check_simps]: "require b e = None \<longleftrightarrow> b"
  by (simp add: require_def)

lemma require_Some [simp]: "require b e = Some e' \<longleftrightarrow> \<not> b \<and> e = e'"
  by (auto simp: require_def)

text \<open>A block of statements under an \<open>if\<close> runs only when the condition holds.\<close>

definition when_check :: "bool \<Rightarrow> 'e option \<Rightarrow> 'e option" where
  "when_check b c = (if b then c else None)"

lemma require_True [simp]: "require True e = None"
  by (simp add: require_def)

lemma require_False [simp]: "require False e = Some e"
  by (simp add: require_def)

lemma when_check_Some [simp]: "when_check b c = Some e \<longleftrightarrow> b \<and> c = Some e"
  by (simp add: when_check_def)

lemma when_check_None [simp, check_simps]: "when_check b c = None \<longleftrightarrow> (b \<longrightarrow> c = None)"
  by (simp add: when_check_def)

lemma when_check_True [simp]: "when_check True c = c"
  by (simp add: when_check_def)

lemma when_check_False [simp]: "when_check False c = None"
  by (simp add: when_check_def)

text \<open>Reading an optional key whose absence raises.\<close>

definition with_key :: "'e \<Rightarrow> 'a option \<Rightarrow> ('a \<Rightarrow> 'e option) \<Rightarrow> 'e option" where
  "with_key e v f = (case v of None \<Rightarrow> Some e | Some x \<Rightarrow> f x)"

lemma with_key_simps [simp]: "with_key e None f = Some e" "with_key e (Some x) f = f x"
  by (simp_all add: with_key_def)

lemma with_key_None [simp, check_simps]:
  "with_key e v f = None \<longleftrightarrow> (\<exists>x. v = Some x \<and> f x = None)"
  by (cases v) auto

lemma with_key_cong [cong]: "v = v' \<Longrightarrow> with_key e v f = with_key e v' f"
  by simp

text \<open>A sequence of statements raises the error of the first one that raises.\<close>

fun first_error :: "'e option list \<Rightarrow> 'e option" where
  "first_error [] = None"
| "first_error (c # cs) = (case c of None \<Rightarrow> first_error cs | Some e \<Rightarrow> Some e)"

declare first_error.simps(2) [simp del]

lemma first_error_None_Cons [simp]: "first_error (None # cs) = first_error cs"
  by (simp add: first_error.simps(2))

lemma first_error_Some_Cons [simp]: "first_error (Some e # cs) = Some e"
  by (simp add: first_error.simps(2))

lemma first_error_Cons_None [simp, check_simps]:
  "first_error (c # cs) = None \<longleftrightarrow> c = None \<and> first_error cs = None"
  by (simp add: first_error.simps(2) split: option.splits)

lemma first_error_None_iff: "first_error cs = None \<longleftrightarrow> (\<forall>c \<in> set cs. c = None)"
  by (induction cs) auto

lemma first_error_append: "first_error (cs @ ds) =
    (case first_error cs of None \<Rightarrow> first_error ds | Some e \<Rightarrow> Some e)"
  by (induction cs) (auto simp: first_error.simps(2) split: option.splits)

lemma first_error_SomeD: "first_error cs = Some e \<Longrightarrow> Some e \<in> set cs"
  by (induction cs) (auto simp: first_error.simps(2) split: option.splits)

text \<open>\<open>{code for code, passed in checks if not passed}\<close>\<close>

definition failing :: "('c \<times> bool) list \<Rightarrow> 'c set" where
  "failing checks = set (map fst (filter (\<lambda>(_, passed). \<not> passed) checks))"

lemma failing_Nil [simp]: "failing [] = {}"
  by (simp add: failing_def)

lemma failing_Cons [simp]: "failing ((c, passed) # cs) = (if passed then {} else {c}) \<union> failing cs"
  by (auto simp: failing_def)

section \<open>Loops over enumerate\<close>

fun each_from :: "nat \<Rightarrow> (nat \<Rightarrow> 'a \<Rightarrow> 'e option) \<Rightarrow> 'a list \<Rightarrow> 'e option" where
  "each_from i f [] = None"
| "each_from i f (x # xs) =
     (case f i x of None \<Rightarrow> each_from (Suc i) f xs | Some e \<Rightarrow> Some e)"

abbreviation each :: "(nat \<Rightarrow> 'a \<Rightarrow> 'e option) \<Rightarrow> 'a list \<Rightarrow> 'e option" where
  "each \<equiv> each_from 0"

lemma each_from_None:
  "each_from i f xs = None \<longleftrightarrow> (\<forall>k < length xs. f (i + k) (xs ! k) = None)"
proof (induction xs arbitrary: i)
  case Nil
  show ?case by simp
next
  case (Cons x xs)
  show ?case
    by (auto simp: Cons.IH less_Suc_eq_0_disj nth_Cons' split: option.splits)
qed

lemma each_None: "each f xs = None \<longleftrightarrow> (\<forall>k < length xs. f k (xs ! k) = None)"
  by (simp add: each_from_None)

lemma each_from_None_all [check_simps]:
  "each_from i (\<lambda>_. f) xs = None \<longleftrightarrow> (\<forall>x \<in> set xs. f x = None)"
  by (induction xs arbitrary: i) (auto split: option.splits)

text \<open>A check whose acceptance does not depend on the index accepts pointwise.\<close>

lemma each_accepts:
  "(\<And>i x. x \<in> set xs \<Longrightarrow> f i x = None \<longleftrightarrow> P x) \<Longrightarrow> each_from j f xs = None \<longleftrightarrow> (\<forall>x \<in> set xs. P x)"
  by (simp add: each_from_None all_set_conv_all_nth)

lemma each_require [simp, check_simps]:
  "each_from j (\<lambda>i x. require (P x) (e i x)) xs = None \<longleftrightarrow> (\<forall>x \<in> set xs. P x)"
  by (rule each_accepts) simp

lemma each_from_SomeD:
  "each_from i f xs = Some e \<Longrightarrow> \<exists>k < length xs. f (i + k) (xs ! k) = Some e"
proof (induction xs arbitrary: i)
  case Nil
  then show ?case by simp
next
  case (Cons x xs)
  show ?case
  proof (cases "f i x")
    case None
    with Cons obtain k where "k < length xs" "f (Suc i + k) (xs ! k) = Some e"
      by fastforce
    then show ?thesis by (intro exI [of _ "Suc k"]) simp
  next
    case (Some e')
    with Cons.prems show ?thesis by (intro exI [of _ 0]) simp
  qed
qed

section \<open>Uniqueness\<close>

text \<open>\<open>len(values) == len(set(values))\<close> of the source.\<close>

definition unique_by :: "('a \<Rightarrow> 'k) \<Rightarrow> 'a list \<Rightarrow> bool" where
  "unique_by f xs \<longleftrightarrow> length (map f xs) = card (set (map f xs))"

lemma unique_by_distinct [check_simps]: "unique_by f xs \<longleftrightarrow> distinct (map f xs)"
  unfolding unique_by_def by (metis card_distinct distinct_card)

lemma unique_by_eqD:
  "unique_by f xs \<Longrightarrow> x \<in> set xs \<Longrightarrow> y \<in> set xs \<Longrightarrow> f x = f y \<Longrightarrow> x = y"
  by (auto simp: unique_by_distinct distinct_map dest: inj_onD)

text \<open>
  A loop that keeps a set of the keys it has seen and raises at the first repeated one; items
  without the key are skipped.
\<close>

fun first_repeat :: "nat \<Rightarrow> 'k list \<Rightarrow> ('a \<Rightarrow> 'k option) \<Rightarrow> (nat \<Rightarrow> 'e) \<Rightarrow> 'a list \<Rightarrow> 'e option" where
  "first_repeat i seen key err [] = None"
| "first_repeat i seen key err (x # xs) =
     (case key x of None \<Rightarrow> first_repeat (Suc i) seen key err xs
      | Some k \<Rightarrow> if k \<in> set seen then Some (err i)
                  else first_repeat (Suc i) (k # seen) key err xs)"

definition present_keys :: "('a \<Rightarrow> 'k option) \<Rightarrow> 'a list \<Rightarrow> 'k list" where
  "present_keys key xs = concat (map (\<lambda>x. case key x of None \<Rightarrow> [] | Some k \<Rightarrow> [k]) xs)"

lemma present_keys_simps [simp]:
  "present_keys key [] = []"
  "present_keys key (x # xs) = (case key x of None \<Rightarrow> [] | Some k \<Rightarrow> [k]) @ present_keys key xs"
  by (simp_all add: present_keys_def)

lemma first_repeat_None:
  "first_repeat i seen key err xs = None \<longleftrightarrow>
     distinct (present_keys key xs) \<and> set (present_keys key xs) \<inter> set seen = {}"
  by (induction xs arbitrary: i seen) (auto split: option.splits)

lemma first_repeat_accepts [check_simps]:
  "first_repeat i [] key err xs = None \<longleftrightarrow> distinct (present_keys key xs)"
  by (simp add: first_repeat_None)

lemma present_keys_Some [simp]: "present_keys (\<lambda>x. Some (f x)) xs = map f xs"
  by (induction xs) auto

section \<open>Dictionaries built from lists\<close>

text \<open>\<open>{item[key]: item for item in items}\<close>: a later item replaces an earlier one.\<close>

definition dict_by :: "('a \<Rightarrow> 'k) \<Rightarrow> 'a list \<Rightarrow> 'k \<Rightarrow> 'a option" where
  "dict_by f xs = map_of (rev (map (\<lambda>x. (f x, x)) xs))"

lemma dict_by_SomeD: "dict_by f xs k = Some x \<Longrightarrow> x \<in> set xs \<and> f x = k"
  by (auto simp: dict_by_def dest!: map_of_SomeD)

lemma dict_by_None: "dict_by f xs k = None \<longleftrightarrow> k \<notin> f ` set xs"
proof -
  have "dict_by f xs k = None \<longleftrightarrow> k \<notin> fst ` set (rev (map (\<lambda>x. (f x, x)) xs))"
    unfolding dict_by_def by (rule map_of_eq_None_iff)
  then show ?thesis by (simp add: image_image)
qed

lemma dict_by_unique:
  assumes "unique_by f xs"
  shows "dict_by f xs k = Some x \<longleftrightarrow> x \<in> set xs \<and> f x = k"
proof
  assume "x \<in> set xs \<and> f x = k"
  then obtain y where y: "dict_by f xs k = Some y"
    using dict_by_None [of f xs k] by auto
  from dict_by_SomeD [OF y] \<open>x \<in> set xs \<and> f x = k\<close> have "y = x"
    using unique_by_eqD [OF assms] by metis
  with y show "dict_by f xs k = Some x" by simp
qed (rule dict_by_SomeD)

lemma dict_by_case:
  assumes "unique_by f xs"
  shows "(case dict_by f xs k of None \<Rightarrow> False | Some x \<Rightarrow> P x) \<longleftrightarrow> (\<exists>x \<in> set xs. f x = k \<and> P x)"
proof (cases "dict_by f xs k")
  case None
  then have "k \<notin> f ` set xs" by (rule iffD1 [OF dict_by_None])
  with None show ?thesis by auto
next
  case (Some y)
  then have "\<And>x. x \<in> set xs \<and> f x = k \<longleftrightarrow> x = y"
    using dict_by_unique [OF assms] by (metis option.inject)
  with Some show ?thesis by (simp add: Bex_def flip: conj_assoc)
qed

text \<open>
  A \<open>defaultdict(list)\<close> filled by a loop: the keys in order of first insertion, each with
  its items in order.
\<close>

definition group_by :: "('a \<Rightarrow> 'k) \<Rightarrow> 'a list \<Rightarrow> ('k \<times> 'a list) list" where
  "group_by f xs = map (\<lambda>k. (k, filter (\<lambda>x. f x = k) xs)) (rev (remdups (rev (map f xs))))"

lemma group_by_in: "(k, ys) \<in> set (group_by f xs) \<longleftrightarrow>
    k \<in> f ` set xs \<and> ys = filter (\<lambda>x. f x = k) xs"
  by (auto simp: group_by_def)

lemma group_by_nonempty: "(k, ys) \<in> set (group_by f xs) \<Longrightarrow> ys \<noteq> []"
  by (auto simp: group_by_in filter_empty_conv)

lemma group_by_keys_distinct: "distinct (map fst (group_by f xs))"
  by (simp add: group_by_def o_def)

lemma group_by_keys: "fst ` set (group_by f xs) = f ` set xs"
  by (simp add: group_by_def image_image)

lemma map_of_group_by: "map_of (group_by f xs) k =
    (if k \<in> f ` set xs then Some (filter (\<lambda>x. f x = k) xs) else None)"
proof (cases "k \<in> f ` set xs")
  case True
  then have "(k, filter (\<lambda>x. f x = k) xs) \<in> set (group_by f xs)" by (simp add: group_by_in)
  with group_by_keys_distinct have "map_of (group_by f xs) k = Some (filter (\<lambda>x. f x = k) xs)"
    by (rule map_of_is_SomeI)
  with True show ?thesis by (simp only: if_True)
next
  case False
  then have "map_of (group_by f xs) k = None"
    by (simp only: map_of_eq_None_iff group_by_keys not_False_eq_True)
  with False show ?thesis by (simp only: if_False)
qed

section \<open>Computations that may raise\<close>

fun and_then :: "'e + 'a \<Rightarrow> ('a \<Rightarrow> 'e + 'b) \<Rightarrow> 'e + 'b" where
  "and_then (Inl e) f = Inl e"
| "and_then (Inr x) f = f x"

lemma and_then_weak_cong [cong]: "m = m' \<Longrightarrow> and_then m f = and_then m' f"
  by simp

lemma and_then_Inr [simp, check_simps]:
  "and_then m f = Inr y \<longleftrightarrow> (\<exists>x. m = Inr x \<and> f x = Inr y)"
  by (cases m) auto

lemma and_then_Inl: "and_then m f = Inl e \<longleftrightarrow> m = Inl e \<or> (\<exists>x. m = Inr x \<and> f x = Inl e)"
  by (cases m) auto

text \<open>Statements that only check, followed by a computation.\<close>

definition checked :: "'e option \<Rightarrow> 'e + 'a \<Rightarrow> 'e + 'a" where
  "checked c m = (case c of None \<Rightarrow> m | Some e \<Rightarrow> Inl e)"

lemma checked_None [simp]: "checked None m = m"
  by (simp add: checked_def)

lemma checked_Some [simp]: "checked (Some e) m = Inl e"
  by (simp add: checked_def)

lemma checked_Inr [check_simps]: "checked c m = Inr y \<longleftrightarrow> c = None \<and> m = Inr y"
  by (cases c) auto

fun map_res :: "('a \<Rightarrow> 'e + 'b) \<Rightarrow> 'a list \<Rightarrow> 'e + 'b list" where
  "map_res f [] = Inr []"
| "map_res f (x # xs) = and_then (f x) (\<lambda>y. and_then (map_res f xs) (\<lambda>ys. Inr (y # ys)))"

lemma map_res_Inr: "map_res f xs = Inr ys \<longleftrightarrow> list_all2 (\<lambda>x y. f x = Inr y) xs ys"
  by (induction xs arbitrary: ys) (auto simp: list_all2_Cons1)

lemma map_res_member:
  assumes "map_res f xs = Inr ys" "y \<in> set ys"
  shows "\<exists>x \<in> set xs. f x = Inr y"
  using assms by (induction xs arbitrary: ys) auto

lemma map_res_input:
  "map_res f xs = Inr ys \<Longrightarrow> x \<in> set xs \<Longrightarrow> \<exists>y \<in> set ys. f x = Inr y"
  by (induction xs arbitrary: ys) auto

section \<open>Interfaces\<close>

text \<open>
  Every validator of the program promises the same thing: it accepts exactly the documents
  that satisfy a declarative condition. The clients of a validator rely on this only.
\<close>

locale validator =
  fixes validate :: "'d \<Rightarrow> 'e option"
    and ok :: "'d \<Rightarrow> bool"
  assumes accepts: "validate d = None \<longleftrightarrow> ok d"
begin

lemma accepted_ok: "validate d = None \<Longrightarrow> ok d"
  by (simp add: accepts)

lemma rejects: "\<not> ok d \<longleftrightarrow> (\<exists>e. validate d = Some e)"
  by (metis accepts not_None_eq)

lemma accepts_batch: "first_error (map validate ds) = None \<longleftrightarrow> (\<forall>d \<in> set ds. ok d)"
  by (simp add: first_error_None_iff accepts)

end

end
