(* ===== verification/Status.thy ===== *)
theory Status
  imports Prelude
begin

text \<open>
  Outcome statuses and their severity order (contracts/status.py). The constructors are in
  the order of \<open>OutcomeStatus\<close>, which is the order of \<open>_PRIORITY\<close>.
\<close>

datatype outcome = Passed | Skipped | Cancelled | Incomplete | Failed | Error

fun priority :: "outcome \<Rightarrow> nat" where
  "priority Passed = 0"
| "priority Skipped = 1"
| "priority Cancelled = 2"
| "priority Incomplete = 3"
| "priority Failed = 4"
| "priority Error = 5"

lemma priority_eq [simp]: "priority a = priority b \<longleftrightarrow> a = b"
  by (cases a; cases b) simp_all

instantiation outcome :: linorder
begin

definition less_eq_outcome :: "outcome \<Rightarrow> outcome \<Rightarrow> bool" where
  "less_eq_outcome a b \<longleftrightarrow> priority a \<le> priority b"

definition less_outcome :: "outcome \<Rightarrow> outcome \<Rightarrow> bool" where
  "less_outcome a b \<longleftrightarrow> priority a < priority b"

instance
proof
  fix x y z :: outcome
  show "(x < y) = (x \<le> y \<and> \<not> y \<le> x)"
    by (auto simp: less_eq_outcome_def less_outcome_def)
  show "x \<le> x" by (simp add: less_eq_outcome_def)
  show "x \<le> y \<Longrightarrow> y \<le> z \<Longrightarrow> x \<le> z" by (simp add: less_eq_outcome_def)
  show "x \<le> y \<Longrightarrow> y \<le> x \<Longrightarrow> x = y" by (simp add: less_eq_outcome_def flip: priority_eq)
  show "x \<le> y \<or> y \<le> x" by (auto simp: less_eq_outcome_def)
qed

end

lemmas outcome_order = less_eq_outcome_def less_outcome_def

lemma Passed_le [simp]: "Passed \<le> s"
  by (simp add: less_eq_outcome_def)

lemma le_Error [simp]: "s \<le> Error"
  by (cases s) (simp_all add: less_eq_outcome_def)

lemma le_Passed [simp]: "s \<le> Passed \<longleftrightarrow> s = Passed"
  by (cases s) (simp_all add: less_eq_outcome_def)

text \<open>The string values of the enum.\<close>

fun outcome_value :: "outcome \<Rightarrow> string" where
  "outcome_value Passed = ''passed''"
| "outcome_value Skipped = ''skipped''"
| "outcome_value Cancelled = ''cancelled''"
| "outcome_value Incomplete = ''incomplete''"
| "outcome_value Failed = ''failed''"
| "outcome_value Error = ''error''"

definition outcome_of_string :: "string \<Rightarrow> outcome option" where
  "outcome_of_string s =
     (if s = ''passed'' then Some Passed
      else if s = ''skipped'' then Some Skipped
      else if s = ''cancelled'' then Some Cancelled
      else if s = ''incomplete'' then Some Incomplete
      else if s = ''failed'' then Some Failed
      else if s = ''error'' then Some Error
      else None)"

lemma outcome_of_value [simp]: "outcome_of_string (outcome_value s) = Some s"
  by (cases s) (simp_all add: outcome_of_string_def)

lemma outcome_of_string_Some: "outcome_of_string v = Some s \<longleftrightarrow> v = outcome_value s"
  by (cases s) (auto simp: outcome_of_string_def)

datatype status_error = Status_invalid string | Status_empty

text \<open>The loop of \<open>max(values, key=_PRIORITY.__getitem__)\<close>.\<close>

fun max_status :: "outcome \<Rightarrow> outcome list \<Rightarrow> outcome" where
  "max_status m [] = m"
| "max_status m (s # ss) = max_status (if priority m < priority s then s else m) ss"

definition worst_of :: "outcome list \<Rightarrow> bool \<Rightarrow> status_error + outcome" where
  "worst_of ss collapse_cancelled =
     (case ss of [] \<Rightarrow> Inl Status_empty
      | s # rest \<Rightarrow>
          (let status = max_status s rest in
           if collapse_cancelled \<and> status = Cancelled then Inr Incomplete else Inr status))"

definition parse_status :: "string \<Rightarrow> status_error + outcome" where
  "parse_status v = (case outcome_of_string v of None \<Rightarrow> Inl (Status_invalid v) | Some s \<Rightarrow> Inr s)"

definition worst_status :: "string list \<Rightarrow> bool \<Rightarrow> status_error + string" where
  "worst_status values collapse_cancelled =
     and_then (map_res parse_status values) (\<lambda>ss.
     and_then (worst_of ss collapse_cancelled) (\<lambda>s. Inr (outcome_value s)))"

lemma max_status_Max: "max_status m ss = Max (insert m (set ss))"
proof (induction ss arbitrary: m)
  case Nil
  show ?case by simp
next
  case (Cons s ss)
  have "(if priority m < priority s then s else m) = max m s"
    by (auto simp: max_def outcome_order)
  then show ?case
    by (cases "ss = []") (simp_all add: Cons.IH max.assoc Max_insert)
qed

lemma worst_of_Cons: "worst_of (s # ss) False = Inr (Max (insert s (set ss)))"
  by (simp add: worst_of_def Let_def max_status_Max)

lemma worst_of_Nil [simp]: "worst_of [] b = Inl Status_empty"
  by (simp add: worst_of_def)

text \<open>The interface the callers rely on: the worst status as a maximum of a set.\<close>

definition worst :: "outcome list \<Rightarrow> outcome" where
  "worst ss = (case worst_of ss False of Inr s \<Rightarrow> s | Inl _ \<Rightarrow> Passed)"

lemma worst_Max: "ss \<noteq> [] \<Longrightarrow> worst ss = Max (set ss)"
  by (cases ss) (simp_all add: worst_def worst_of_Cons)

lemma worst_of_worst: "ss \<noteq> [] \<Longrightarrow> worst_of ss False = Inr (worst ss)"
  by (cases ss) (simp_all add: worst_def worst_of_Cons)

lemma worst_of_collapse: "ss \<noteq> [] \<Longrightarrow>
    worst_of ss True = Inr (if worst ss = Cancelled then Incomplete else worst ss)"
  by (cases ss) (simp_all add: worst_def worst_of_def Let_def)

lemma worst_in: "ss \<noteq> [] \<Longrightarrow> worst ss \<in> set ss"
  by (simp add: worst_Max)

lemma worst_ge: "s \<in> set ss \<Longrightarrow> s \<le> worst ss"
  by (cases ss) (auto simp: worst_def worst_of_Cons)

lemma worst_Passed_iff: "ss \<noteq> [] \<Longrightarrow> worst ss = Passed \<longleftrightarrow> set ss = {Passed}"
  by (metis le_Passed worst_ge worst_in empty_iff insert_iff subsetI subset_singletonD set_empty)

end
