(* ===== verification/Json.thy ===== *)
theory Json
  imports Prelude
begin

text \<open>
  JSON trees as the program holds them, RFC 7396 merge patches
  (contracts/_merge_patch.py) and the document operations built on them
  (contracts/document_ops.py). A Python dict is the list of its items in insertion order;
  \<open>wf_json\<close> says that its keys are distinct, as they are in every dict. Numbers keep the
  Python distinction between bool, int and float; a float is the rational it denotes
  (\<open>ensure_finite_numbers\<close> refuses NaN and infinities before these functions run, and
  0.0 and -0.0 compare equal).
\<close>

datatype json =
    JNull
  | JBool bool
  | JInt int
  | JFloat rat
  | JStr string
  | JArr "json list"
  | JObj "(string \<times> json) list"

type_synonym members = "(string \<times> json) list"

lemma size_obj_member [termination_simp]:
  "(k, v) \<in> set ms \<Longrightarrow> size v < Suc (size_list (size_prod (\<lambda>_. 0) size) ms)"
  by (induction ms) auto

section \<open>Dictionaries\<close>

text \<open>\<open>d[key] = value\<close> keeps the position of an existing key, \<open>d.pop(key, None)\<close> removes it.\<close>

fun obj_set :: "string \<Rightarrow> json \<Rightarrow> members \<Rightarrow> members" where
  "obj_set k v [] = [(k, v)]"
| "obj_set k v ((k', w) # ms) = (if k' = k then (k, v) # ms else (k', w) # obj_set k v ms)"

definition obj_pop :: "string \<Rightarrow> members \<Rightarrow> members" where
  "obj_pop k ms = filter (\<lambda>(k', _). k' \<noteq> k) ms"

text \<open>\<open>d.get(key)\<close>, which is None for a missing key.\<close>

definition obj_get :: "members \<Rightarrow> string \<Rightarrow> json" where
  "obj_get ms k = (case map_of ms k of None \<Rightarrow> JNull | Some v \<Rightarrow> v)"

text \<open>\<open>x if isinstance(x, dict) else {}\<close>\<close>

fun dict_or_empty :: "json \<Rightarrow> members" where
  "dict_or_empty (JObj ms) = ms"
| "dict_or_empty _ = []"

lemma map_of_obj_set [simp]: "map_of (obj_set k v ms) = (map_of ms)(k \<mapsto> v)"
  by (induction k v ms rule: obj_set.induct) (auto simp: fun_eq_iff)

lemma keys_obj_set: "fst ` set (obj_set k v ms) = insert k (fst ` set ms)"
  by (induction k v ms rule: obj_set.induct) auto

lemma distinct_obj_set [simp]: "distinct (map fst ms) \<Longrightarrow> distinct (map fst (obj_set k v ms))"
  by (induction k v ms rule: obj_set.induct) (auto simp: keys_obj_set)

lemma obj_set_same: "map_of ms k = Some v \<Longrightarrow> obj_set k v ms = ms"
  by (induction k v ms rule: obj_set.induct) (auto split: if_splits)

lemma map_of_obj_pop [simp]: "map_of (obj_pop k ms) = (map_of ms)(k := None)"
  by (induction ms) (auto simp: obj_pop_def fun_eq_iff)

lemma keys_obj_pop: "fst ` set (obj_pop k ms) = fst ` set ms - {k}"
  by (auto simp: obj_pop_def image_iff)

lemma distinct_obj_pop [simp]: "distinct (map fst ms) \<Longrightarrow> distinct (map fst (obj_pop k ms))"
  by (induction ms) (auto simp: obj_pop_def)

lemma obj_pop_absent: "map_of ms k = None \<Longrightarrow> obj_pop k ms = ms"
  by (induction ms) (auto simp: obj_pop_def split: if_splits)

lemma set_obj_set: "x \<in> set (obj_set k v ms) \<Longrightarrow> x = (k, v) \<or> x \<in> set ms"
  by (induction k v ms rule: obj_set.induct) (auto split: if_splits)

lemma set_obj_pop: "x \<in> set (obj_pop k ms) \<Longrightarrow> x \<in> set ms"
  by (auto simp: obj_pop_def)

section \<open>Well-formed trees and equality\<close>

fun wf_json :: "json \<Rightarrow> bool" where
  "wf_json (JArr xs) = list_all wf_json xs"
| "wf_json (JObj ms) = (distinct (map fst ms) \<and> list_all (\<lambda>(k, v). wf_json v) ms)"
| "wf_json _ = True"

lemma wf_json_Obj: "wf_json (JObj ms) \<longleftrightarrow>
    distinct (map fst ms) \<and> (\<forall>k v. (k, v) \<in> set ms \<longrightarrow> wf_json v)"
  by (auto simp: list_all_iff)

fun json_equal :: "json \<Rightarrow> json \<Rightarrow> bool" where
  "json_equal JNull r = (r = JNull)"
| "json_equal (JBool a) r = (r = JBool a)"
| "json_equal (JInt a) r = (r = JInt a)"
| "json_equal (JFloat a) r = (r = JFloat a)"
| "json_equal (JStr a) r = (r = JStr a)"
| "json_equal (JArr xs) r =
     (case r of JArr ys \<Rightarrow> length xs = length ys \<and> list_all2 json_equal xs ys | _ \<Rightarrow> False)"
| "json_equal (JObj ms) r =
     (case r of JObj ns \<Rightarrow>
          fst ` set ms = fst ` set ns \<and>
          list_all (\<lambda>(k, v). case map_of ns k of None \<Rightarrow> False | Some w \<Rightarrow> json_equal v w) ms
      | _ \<Rightarrow> False)"

text \<open>Two objects are equal when their maps agree up to \<open>json_equal\<close>.\<close>

definition member_equal :: "json option \<Rightarrow> json option \<Rightarrow> bool" where
  "member_equal a b = rel_option json_equal a b"

lemma json_equal_Obj:
  assumes "distinct (map fst ms)"
  shows "json_equal (JObj ms) (JObj ns) \<longleftrightarrow> (\<forall>k. member_equal (map_of ms k) (map_of ns k))"
    (is "?L \<longleftrightarrow> ?R")
proof
  assume L: ?L
  show ?R
  proof
    fix k
    show "member_equal (map_of ms k) (map_of ns k)"
    proof (cases "map_of ms k")
      case None
      moreover have "fst ` set ms = fst ` set ns" using L by simp
      ultimately have "map_of ns k = None"
        by (metis map_of_eq_None_iff)
      with None show ?thesis by (simp add: member_equal_def)
    next
      case (Some v)
      then have "(k, v) \<in> set ms" by (rule map_of_SomeD)
      with L show ?thesis
        using Some by (auto simp: list_all_iff member_equal_def split: option.splits)
    qed
  qed
next
  assume R: ?R
  have "fst ` set ms = fst ` set ns"
  proof -
    have "k \<in> fst ` set ms \<longleftrightarrow> k \<in> fst ` set ns" for k
      using R [rule_format, of k] map_of_eq_None_iff [of ms k] map_of_eq_None_iff [of ns k]
      by (auto simp: member_equal_def option.rel_sel Option.is_none_def)
    then show ?thesis by blast
  qed
  moreover have "list_all (\<lambda>(k, v). case map_of ns k of None \<Rightarrow> False | Some w \<Rightarrow> json_equal v w) ms"
  proof (unfold list_all_iff, safe)
    fix k v
    assume "(k, v) \<in> set ms"
    with assms have "map_of ms k = Some v" by simp
    with R [rule_format, of k] show "case map_of ns k of None \<Rightarrow> False | Some w \<Rightarrow> json_equal v w"
      by (auto simp: member_equal_def option_rel_Some1)
  qed
  ultimately show ?L by simp
qed

lemma json_equal_refl: "wf_json v \<Longrightarrow> json_equal v v"
proof (induction v)
  case (JObj ms)
  have "member_equal (map_of ms k) (map_of ms k)" for k
  proof (cases "map_of ms k")
    case None
    then show ?thesis by (simp add: member_equal_def)
  next
    case (Some v)
    then have "(k, v) \<in> set ms" by (rule map_of_SomeD)
    with JObj.prems have "wf_json v" by (auto simp: list_all_iff)
    with JObj.IH [of "(k, v)" v] \<open>(k, v) \<in> set ms\<close> have "json_equal v v" by simp
    with Some show ?thesis by (simp add: member_equal_def)
  qed
  with JObj.prems show ?case
    by (simp del: json_equal.simps add: json_equal_Obj)
next
  case (JArr xs)
  then show ?case by (auto simp: list_all2_conv_all_nth list_all_length)
qed simp_all

text \<open>
  Python's \<open>==\<close> on parsed JSON, which identifies True, 1 and 1.0.
\<close>

fun json_number :: "json \<Rightarrow> rat option" where
  "json_number (JBool b) = Some (if b then 1 else 0)"
| "json_number (JInt i) = Some (of_int i)"
| "json_number (JFloat r) = Some r"
| "json_number _ = None"

fun py_eq :: "json \<Rightarrow> json \<Rightarrow> bool" where
  "py_eq JNull r = (r = JNull)"
| "py_eq (JBool a) r = (json_number r = Some (if a then 1 else 0))"
| "py_eq (JInt a) r = (json_number r = Some (of_int a))"
| "py_eq (JFloat a) r = (json_number r = Some a)"
| "py_eq (JStr a) r = (r = JStr a)"
| "py_eq (JArr xs) r =
     (case r of JArr ys \<Rightarrow> length xs = length ys \<and> list_all2 py_eq xs ys | _ \<Rightarrow> False)"
| "py_eq (JObj ms) r =
     (case r of JObj ns \<Rightarrow>
          fst ` set ms = fst ` set ns \<and>
          list_all (\<lambda>(k, v). case map_of ns k of None \<Rightarrow> False | Some w \<Rightarrow> py_eq v w) ms
      | _ \<Rightarrow> False)"

section \<open>Merge patches\<close>

fun merge_patch :: "json \<Rightarrow> json \<Rightarrow> json"
and merge_members :: "members \<Rightarrow> members \<Rightarrow> members" where
  "merge_patch target (JObj ps) = JObj (merge_members (dict_or_empty target) ps)"
| "merge_patch target patch = patch"
| "merge_members result [] = result"
| "merge_members result ((key, value) # ps) =
     (if value = JNull then merge_members (obj_pop key result) ps
      else merge_members (obj_set key (merge_patch (obj_get result key) value) result) ps)"

text \<open>Every call of the diff is on a smaller part of the target.\<close>

abbreviation members_size :: "members \<Rightarrow> nat" where
  "members_size \<equiv> size_list (size_prod (\<lambda>_. 0) size)"

function (sequential) create_patch :: "members \<Rightarrow> members \<Rightarrow> members"
and create_members :: "members \<Rightarrow> members \<Rightarrow> members \<Rightarrow> members"
and create_value :: "json \<Rightarrow> json \<Rightarrow> json" where
  "create_patch source target =
     create_members source
       (map (\<lambda>(k, _). (k, JNull)) (filter (\<lambda>(k, _). k \<notin> fst ` set target) source)) target"
| "create_members source patch [] = patch"
| "create_members source patch ((key, value) # rest) =
     (if key \<in> fst ` set source \<and> json_equal (obj_get source key) value
      then create_members source patch rest
      else create_members source
             (obj_set key (create_value (obj_get source key) value) patch) rest)"
| "create_value previous (JObj ms) = JObj (create_patch (dict_or_empty previous) ms)"
| "create_value previous value = value"
  by pat_completeness auto
termination
  by (relation "measure (case_sum (\<lambda>(s, t). 2 * members_size t + 1)
        (case_sum (\<lambda>(s, p, t). 2 * members_size t) (\<lambda>(w, v). 2 * size v)))") auto


text \<open>The effect of a patch on one member.\<close>

definition patch_member :: "json option \<Rightarrow> json option \<Rightarrow> json option" where
  "patch_member old change =
     (case change of None \<Rightarrow> old
      | Some v \<Rightarrow> if v = JNull then None
                 else Some (merge_patch (case old of None \<Rightarrow> JNull | Some w \<Rightarrow> w) v))"

lemma merge_members_lookup:
  "distinct (map fst ps) \<Longrightarrow>
   map_of (merge_members ms ps) k = patch_member (map_of ms k) (map_of ps k)"
proof (induction ps arbitrary: ms)
  case Nil
  then show ?case by (simp add: patch_member_def)
next
  case (Cons p ps)
  obtain key v where p: "p = (key, v)" by (cases p)
  from Cons.prems have "map_of ps key = None"
    by (simp add: p map_of_eq_None_iff)
  moreover have "map_of (merge_members r ps) k = patch_member (map_of r k) (map_of ps k)" for r
    using Cons by simp
  ultimately show ?case
    by (cases "k = key"; cases "v = JNull")
      (simp_all add: p patch_member_def obj_get_def fun_upd_other split: option.split)
qed

lemma distinct_merge_members:
  "distinct (map fst ms) \<Longrightarrow> distinct (map fst (merge_members ms ps))"
  by (induction ps arbitrary: ms) (auto)

text \<open>Well-formed operands give a well-formed result.\<close>

lemma wf_dict_or_empty: "wf_json v \<Longrightarrow> wf_json (JObj (dict_or_empty v))"
  by (cases v) auto

lemma wf_obj_get: "wf_json (JObj ms) \<Longrightarrow> wf_json (obj_get ms k)"
  unfolding obj_get_def wf_json_Obj by (auto split: option.splits dest: map_of_SomeD)

lemma wf_obj_set: "wf_json (JObj ms) \<Longrightarrow> wf_json v \<Longrightarrow> wf_json (JObj (obj_set k v ms))"
  unfolding wf_json_Obj by (auto dest: set_obj_set)

lemma wf_obj_pop: "wf_json (JObj ms) \<Longrightarrow> wf_json (JObj (obj_pop k ms))"
  unfolding wf_json_Obj by (auto dest: set_obj_pop)

lemma wf_merge:
  "wf_json t \<Longrightarrow> wf_json p \<Longrightarrow> wf_json (merge_patch t p)"
  "wf_json (JObj ms) \<Longrightarrow> wf_json (JObj ps) \<Longrightarrow> wf_json (JObj (merge_members ms ps))"
proof (induction t p and ms ps rule: merge_patch_merge_members.induct)
  case (1 target ps)
  then show ?case by (simp del: wf_json.simps(2) add: wf_dict_or_empty)
next
  case (4 result key v ps)
  from "4.prems"(2) have v: "wf_json v" and ps: "wf_json (JObj ps)"
    by auto
  show ?case
    using "4.IH" "4.prems"(1) v ps
    by (simp del: wf_json.simps(2) add: wf_obj_pop wf_obj_set wf_obj_get)
qed simp_all

lemma keys_create_members:
  "fst ` set (create_members s patch t) \<subseteq> fst ` set patch \<union> fst ` set t"
proof (induction t arbitrary: patch)
  case (Cons m t)
  obtain key v where m: "m = (key, v)" by (cases m)
  show ?case
    using Cons.IH [of patch]
      Cons.IH [of "obj_set key (create_value (obj_get s key) v) patch"]
    by (auto simp: m keys_obj_set)
qed simp

lemma distinct_create_members:
  "distinct (map fst patch) \<Longrightarrow> distinct (map fst (create_members s patch t))"
  by (induction t arbitrary: patch) auto

definition created_member :: "members \<Rightarrow> string \<Rightarrow> json \<Rightarrow> json option" where
  "created_member s k v =
     (if k \<in> fst ` set s \<and> json_equal (obj_get s k) v then None
      else Some (create_value (obj_get s k) v))"

lemma create_members_lookup:
  "distinct (map fst t) \<Longrightarrow>
   map_of (create_members s patch t) k =
     (case map_of t k of None \<Rightarrow> map_of patch k
      | Some v \<Rightarrow> (case created_member s k v of None \<Rightarrow> map_of patch k | Some w \<Rightarrow> Some w))"
proof (induction t arbitrary: patch)
  case Nil
  then show ?case by simp
next
  case (Cons m t)
  obtain key v where m: "m = (key, v)" by (cases m)
  from Cons.prems have "map_of t key = None"
    by (simp add: m map_of_eq_None_iff)
  moreover have "map_of (create_members s q t) k =
      (case map_of t k of None \<Rightarrow> map_of q k
       | Some v \<Rightarrow> (case created_member s k v of None \<Rightarrow> map_of q k | Some w \<Rightarrow> Some w))" for q
    using Cons by simp
  ultimately show ?case
    by (cases "k = key") (auto simp: m created_member_def split: option.splits)
qed

lemma removed_members_lookup:
  "map_of (map (\<lambda>(k, _). (k, JNull)) (filter (\<lambda>(k, _). P k) s)) k =
     (if k \<in> fst ` set s \<and> P k then Some JNull else None)"
  by (induction s) auto

lemma distinct_removed_members:
  assumes "distinct (map fst s)"
  shows "distinct (map fst (map (\<lambda>(k, _). (k, JNull)) (filter (\<lambda>(k, _). P k) s)))"
proof -
  have "map fst (map (\<lambda>(k, _). (k, JNull)) (filter (\<lambda>(k, _). P k) s)) = filter P (map fst s)"
    by (induction s) auto
  with assms show ?thesis by (simp del: map_map)
qed

lemma create_patch_lookup:
  assumes "distinct (map fst t)"
  shows "map_of (create_patch s t) k =
     (case map_of t k of None \<Rightarrow> (if k \<in> fst ` set s then Some JNull else None)
      | Some v \<Rightarrow> created_member s k v)"
proof (cases "map_of t k")
  case None
  then have "k \<notin> fst ` set t" by (simp add: map_of_eq_None_iff)
  with None show ?thesis
    using assms by (simp add: create_members_lookup removed_members_lookup)
next
  case (Some v)
  then have "k \<in> fst ` set t" by (force dest: map_of_SomeD)
  with Some show ?thesis
    using assms by (simp add: create_members_lookup removed_members_lookup split: option.split)
qed

lemma distinct_create_patch: "distinct (map fst s) \<Longrightarrow> distinct (map fst (create_patch s t))"
  by (simp add: distinct_create_members distinct_removed_members del: map_map)

declare create_patch.simps [simp del]

section \<open>Round trip of a diff\<close>

text \<open>
  A merge patch can express the change to a target member unless that member, or one inside
  it, is a null that the source does not hold already: null in a patch means removal.
\<close>

fun representable :: "json \<Rightarrow> json \<Rightarrow> bool"
and representable_members :: "members \<Rightarrow> members \<Rightarrow> bool" where
  "representable previous (JObj ms) = representable_members (dict_or_empty previous) ms"
| "representable previous value = (value \<noteq> JNull)"
| "representable_members source [] = True"
| "representable_members source ((key, value) # rest) =
     ((key \<in> fst ` set source \<and> json_equal (obj_get source key) value
       \<or> representable (obj_get source key) value)
      \<and> representable_members source rest)"

lemma representable_members_iff:
  "representable_members s t \<longleftrightarrow>
     (\<forall>k v. (k, v) \<in> set t \<longrightarrow> (k \<in> fst ` set s \<and> json_equal (obj_get s k) v)
                        \<or> representable (obj_get s k) v)"
proof (induction t)
  case (Cons m t)
  obtain k v where m: "m = (k, v)" by (cases m)
  show ?case
    unfolding m representable_members.simps Cons.IH list.set insert_iff prod.inject by blast
qed simp

fun null_free :: "json \<Rightarrow> bool" where
  "null_free JNull = False"
| "null_free (JObj ms) = list_all (\<lambda>(k, v). null_free v) ms"
| "null_free _ = True"

lemma null_free_representable: "null_free v \<Longrightarrow> representable s v"
proof (induction v arbitrary: s)
  case (JObj ms)
  then show ?case
    by (fastforce simp: representable_members_iff list_all_iff)
qed simp_all

text \<open>The central lemma: patching the source gives the target exactly when it can.\<close>

lemma merge_create_value:
  assumes "wf_json v" and "wf_json w"
  shows "(v \<noteq> JNull \<and> json_equal (merge_patch w (create_value w v)) v) \<longleftrightarrow> representable w v"
  using assms
proof (induction v arbitrary: w)
  case (JObj t)
  define s where "s = dict_or_empty w"
  have ws: "wf_json (JObj s)" using JObj.prems(2) unfolding s_def by (rule wf_dict_or_empty)
  have ds: "distinct (map fst s)" and dt: "distinct (map fst t)"
    using ws JObj.prems(1) by simp_all
  define r where "r = merge_members s (create_patch s t)"
  have r: "map_of r k = patch_member (map_of s k) (map_of (create_patch s t) k)" for k
    unfolding r_def by (rule merge_members_lookup [OF distinct_create_patch [OF ds]])
  have dr: "distinct (map fst r)" by (simp add: r_def distinct_merge_members ds)
  have member: "member_equal (map_of r k) (map_of t k) \<longleftrightarrow>
      (case map_of t k of None \<Rightarrow> True
       | Some v \<Rightarrow> (k \<in> fst ` set s \<and> json_equal (obj_get s k) v) \<or> representable (obj_get s k) v)" for k
  proof (cases "map_of t k")
    case None
    then have "map_of (create_patch s t) k = (if map_of s k = None then None else Some JNull)"
      using map_of_eq_None_iff [of s k] by (simp add: create_patch_lookup [OF dt])
    then have "map_of r k = None" by (simp add: r patch_member_def)
    with None show ?thesis by (simp add: member_equal_def)
  next
    case (Some v)
    then have kv: "(k, v) \<in> set t" by (rule map_of_SomeD)
    then have wv: "wf_json v" using JObj.prems(1) by (auto simp: list_all_iff)
    have IH: "(v \<noteq> JNull \<and> json_equal (merge_patch (obj_get s k) (create_value (obj_get s k) v)) v)
        \<longleftrightarrow> representable (obj_get s k) v"
      using JObj.IH [of "(k, v)" v] kv wv wf_obj_get [OF ws] by simp
    have cv: "create_value x v = JNull \<longleftrightarrow> v = JNull" for x by (cases v) auto
    show ?thesis
    proof (cases "k \<in> fst ` set s \<and> json_equal (obj_get s k) v")
      case True
      then obtain u where "map_of s k = Some u"
        using map_of_eq_None_iff [of s k] by auto
      with True show ?thesis
        using Some by (auto simp: r create_patch_lookup [OF dt] patch_member_def
            member_equal_def created_member_def obj_get_def)
    next
      case False
      then have "map_of r k = (if v = JNull then None
          else Some (merge_patch (obj_get s k) (create_value (obj_get s k) v)))"
        using Some by (auto simp: r create_patch_lookup [OF dt] patch_member_def
            created_member_def cv obj_get_def)
      then show ?thesis using Some False IH by (auto simp: member_equal_def)
    qed
  qed
  have "json_equal (JObj r) (JObj t) \<longleftrightarrow> representable_members s t"
    unfolding json_equal_Obj [OF dr] member representable_members_iff
    using dt by (fastforce split: option.splits dest: map_of_SomeD)
  then show ?case by (simp add: r_def s_def del: json_equal.simps)
next
  case (JArr xs)
  then show ?case using json_equal_refl [of "JArr xs"] by simp
qed simp_all


section \<open>Document operations\<close>

datatype 'e doc_error = Diff_unrepresentable | Schema_version_changed | Document_invalid 'e

definition semantic_diff :: "members \<Rightarrow> members \<Rightarrow> 'e doc_error + members" where
  "semantic_diff source target =
     (let patch = create_patch source target in
      if \<not> json_equal (merge_patch (JObj source) (JObj patch)) (JObj target)
      then Inl Diff_unrepresentable else Inr patch)"

text \<open>
  \<open>validate_document\<close> runs the JSON Schema library; it is an argument of the model. An
  object patch always gives an object (the assertion of the source).
\<close>

definition resolve_merge_patches ::
  "(members \<Rightarrow> 'e option) \<Rightarrow> members \<Rightarrow> members list \<Rightarrow> 'e doc_error + members" where
  "resolve_merge_patches validate_document base overlays =
     (let resolved = fold (\<lambda>overlay r. merge_members r overlay) overlays base in
      if \<not> py_eq (obj_get resolved ''schema_version'') (obj_get base ''schema_version'')
      then Inl Schema_version_changed
      else (case validate_document resolved of
              Some e \<Rightarrow> Inl (Document_invalid e)
            | None \<Rightarrow> Inr resolved))"

lemma merge_patch_fold:
  "JObj (fold (\<lambda>overlay r. merge_members r overlay) overlays base) =
     fold (\<lambda>overlay r. merge_patch r (JObj overlay)) overlays (JObj base)"
  by (induction overlays arbitrary: base) simp_all

text \<open>
  A semantic diff succeeds exactly when the target holds no null that the source lacks,
  at any depth of its objects; it never refuses a representable target and never returns a
  patch for an unrepresentable one.
\<close>

theorem semantic_diff_succeeds_iff:
  assumes "wf_json (JObj source)" and "wf_json (JObj target)"
  shows "(\<exists>patch. semantic_diff source target = Inr patch) \<longleftrightarrow>
     representable (JObj source) (JObj target)"
  using merge_create_value [OF assms(2,1)]
  by (auto simp add: semantic_diff_def Let_def simp del: json_equal.simps)

theorem semantic_diff_succeeds_iff_witness:
  "(\<exists>patch. semantic_diff [(''a'', JInt 1)] [(''b'', JObj [])] = Inr patch) \<longleftrightarrow>
     representable (JObj [(''a'', JInt 1)]) (JObj [(''b'', JObj [])])"
  by (rule semantic_diff_succeeds_iff) simp_all

text \<open>
  C18: Applying the patch of a null-free target to the source rebuilds the target, so diffs of
  documents without nulls always round-trip.
\<close>

theorem diff_merge_roundtrip:
  assumes "wf_json (JObj source)" and "wf_json (JObj target)" and "null_free (JObj target)"
  shows "\<exists>patch. semantic_diff source target = Inr patch \<and>
     json_equal (merge_patch (JObj source) (JObj patch)) (JObj target)"
  using merge_create_value [OF assms(2,1)] null_free_representable [OF assms(3), of "JObj source"]
  by (auto simp add: semantic_diff_def Let_def simp del: json_equal.simps)

theorem diff_merge_roundtrip_witness:
  "\<exists>patch. semantic_diff [(''a'', JInt 1), (''c'', JBool True)] [(''a'', JBool True)] = Inr patch \<and>
     json_equal (merge_patch (JObj [(''a'', JInt 1), (''c'', JBool True)]) (JObj patch))
       (JObj [(''a'', JBool True)])"
  by (rule diff_merge_roundtrip) simp_all

end
