(* ===== verification/Timestamps.thy ===== *)
theory Timestamps
  imports Prelude
begin

text \<open>
  Offset-bearing timestamps (contracts/_timestamps.py). The validators compare timestamps
  of schema-valid documents, that is RFC 3339 strings, so the model reads RFC 3339
  date-times the way \<open>datetime.fromisoformat\<close> does: a proleptic Gregorian date of the years
  1 to 9999, a time whose seconds are below 60, a fraction cut to microseconds and a UTC
  offset below 24 hours. The result is the instant in microseconds; \<open>parse_timestamp_ns\<close>
  keeps nanoseconds, refuses a finer fraction and takes capital or small T and Z.
\<close>

section \<open>The calendar\<close>

definition is_leap :: "int \<Rightarrow> bool" where
  "is_leap y \<longleftrightarrow> y mod 4 = 0 \<and> (y mod 100 \<noteq> 0 \<or> y mod 400 = 0)"

definition days_before_year :: "int \<Rightarrow> int" where
  "days_before_year y = (y - 1) * 365 + (y - 1) div 4 - (y - 1) div 100 + (y - 1) div 400"

definition month_lengths :: "int \<Rightarrow> int list" where
  "month_lengths y = [31, if is_leap y then 29 else 28, 31, 30, 31, 30, 31, 31, 30, 31, 30, 31]"

definition days_before_month :: "int \<Rightarrow> nat \<Rightarrow> int" where
  "days_before_month y m = sum_list (take (m - 1) (month_lengths y))"

definition valid_date :: "int \<Rightarrow> nat \<Rightarrow> int \<Rightarrow> bool" where
  "valid_date y m d \<longleftrightarrow>
     1 \<le> y \<and> y \<le> 9999 \<and> 1 \<le> m \<and> m \<le> 12 \<and> 1 \<le> d \<and> d \<le> month_lengths y ! (m - 1)"

definition ordinal :: "int \<Rightarrow> nat \<Rightarrow> int \<Rightarrow> int" where
  "ordinal y m d = days_before_year y + days_before_month y m + d"

lemma div_plus_one:
  assumes "0 < (n::int)"
  shows "(z + 1) div n = z div n + (if (z + 1) mod n = 0 then 1 else 0)"
proof -
  define q r where "q = z div n" and "r = z mod n"
  have z: "z = n * q + r" and r: "0 \<le> r" "r < n"
    using assms by (simp_all add: q_def r_def)
  show ?thesis
  proof (cases "r + 1 = n")
    case True
    with z have "z + 1 = n * (q + 1)" by (simp add: algebra_simps)
    with assms show ?thesis by (simp add: q_def)
  next
    case False
    have zq: "z + 1 = r + 1 + n * q" using z by simp
    have "(z + 1) div n = q" "(z + 1) mod n = r + 1"
      using False r assms unfolding zq by simp_all
    with r show ?thesis by (simp add: q_def)
  qed
qed

lemma leap_balance:
  fixes y :: int
  assumes "A = a + (if p then 1 else 0)" "B = b + (if q then 1 else 0)"
    "C = c + (if r then 1 else 0)" "r \<Longrightarrow> q" "q \<Longrightarrow> p"
  shows "y * 365 + A - B + C - ((y - 1) * 365 + a - b + c) =
    (if p \<and> (\<not> q \<or> r) then 366 else 365)"
  using assms(4,5) unfolding assms(1-3) by (cases p; cases q; cases r) simp_all

lemma days_in_year: "days_before_year (y + 1) - days_before_year y = (if is_leap y then 366 else 365)"
proof -
  have "(100::int) dvd 400" "(4::int) dvd 100" by simp_all
  then have "y mod 400 = 0 \<Longrightarrow> y mod 100 = 0" "y mod 100 = 0 \<Longrightarrow> y mod 4 = 0"
    unfolding mod_eq_0_iff_dvd by (blast intro: dvd_trans)+
  note multiples = this
  have div_step: "y div n = (y - 1) div n + (if y mod n = 0 then 1 else 0)" if "0 < n" for n :: int
    using div_plus_one [OF that, of "y - 1"] by simp
  show ?thesis
    unfolding days_before_year_def is_leap_def add_diff_cancel_right'
    by (rule leap_balance [OF div_step div_step div_step]) (simp_all only: multiples)
qed

lemma month_cases: "1 \<le> m \<Longrightarrow> m \<le> 12 \<Longrightarrow>
    m \<in> {1, 2, 3, 4, 5, 6, 7, 8, 9, 10, 11, 12 :: nat}"
  unfolding insert_iff empty_iff by presburger

lemma days_before_month_step:
  assumes "1 \<le> m" "m \<le> 11"
  shows "days_before_month y (Suc m) = days_before_month y m + month_lengths y ! (m - 1)"
proof -
  have "m \<in> {1, 2, 3, 4, 5, 6, 7, 8, 9, 10, 11}"
    using assms unfolding insert_iff empty_iff by presburger
  then show ?thesis
    by (auto simp: days_before_month_def month_lengths_def numeral_eq_Suc)
qed

lemma year_length: "days_before_month y 12 + 31 = (if is_leap y then 366 else 365)"
  by (simp add: days_before_month_def month_lengths_def numeral_eq_Suc)

lemma month_length_pos: "1 \<le> m \<Longrightarrow> m \<le> 12 \<Longrightarrow> 28 \<le> month_lengths y ! (m - 1)"
  by (drule (1) month_cases) (auto simp: month_lengths_def)

lemma days_before_month_mono:
  assumes "1 \<le> m" "m < m'" "m' \<le> 12"
  shows "days_before_month y m + month_lengths y ! (m - 1) \<le> days_before_month y m'"
  using assms
proof (induction m')
  case 0
  then show ?case by simp
next
  case (Suc k)
  show ?case
  proof (cases "m = k")
    case True
    with Suc show ?thesis by (simp add: days_before_month_step)
  next
    case False
    with Suc have "days_before_month y m + month_lengths y ! (m - 1) \<le> days_before_month y k"
      by simp
    moreover have "days_before_month y (Suc k) \<ge> days_before_month y k"
      using Suc.prems month_length_pos [of k y] by (simp add: days_before_month_step)
    ultimately show ?thesis by simp
  qed
qed

lemma days_before_year_mono: "y + 1 \<le> y' \<Longrightarrow> days_before_year (y + 1) \<le> days_before_year y'"
proof (induction y' rule: int_ge_induct)
  case base
  show ?case by simp
next
  case (step i)
  then show ?case using days_in_year [of i] by (simp split: if_splits)
qed

definition date_less :: "int \<times> nat \<times> int \<Rightarrow> int \<times> nat \<times> int \<Rightarrow> bool" where
  "date_less a b = (case (a, b) of ((y, m, d), (y', m', d')) \<Rightarrow>
     y < y' \<or> y = y' \<and> (m < m' \<or> m = m' \<and> d < d'))"

lemma ordinal_in_year:
  assumes "valid_date y m d"
  shows "days_before_year y < ordinal y m d" "ordinal y m d \<le> days_before_year (y + 1)"
proof -
  have m: "1 \<le> m" "m \<le> 12" and d: "1 \<le> d" "d \<le> month_lengths y ! (m - 1)"
    using assms by (auto simp: valid_date_def)
  have "0 \<le> days_before_month y m"
    using month_cases [OF m] by (auto simp: days_before_month_def month_lengths_def numeral_eq_Suc)
  then show "days_before_year y < ordinal y m d" using d by (simp add: ordinal_def)
  have "days_before_month y m + month_lengths y ! (m - 1) \<le> days_before_month y 12 + 31"
    using days_before_month_mono [of m 12 y] m
    by (cases "m = 12") (auto simp: month_lengths_def)
  then show "ordinal y m d \<le> days_before_year (y + 1)"
    using d days_in_year [of y] year_length [of y] by (simp add: ordinal_def split: if_splits)
qed

lemma ordinal_mono:
  assumes "valid_date y m d" and "valid_date y' m' d'" and "date_less (y, m, d) (y', m', d')"
  shows "ordinal y m d < ordinal y' m' d'"
proof (cases "y = y'")
  case False
  with assms(3) have "y < y'" by (simp add: date_less_def)
  then show ?thesis
    using days_before_year_mono [of y y'] ordinal_in_year(2) [OF assms(1)]
      ordinal_in_year(1) [OF assms(2)] by simp
next
  case True
  show ?thesis
  proof (cases "m = m'")
    case True
    with \<open>y = y'\<close> assms(3) show ?thesis by (simp add: date_less_def ordinal_def)
  next
    case False
    with \<open>y = y'\<close> assms have "m < m'" "1 \<le> m" "m' \<le> 12" "d \<le> month_lengths y ! (m - 1)" "1 \<le> d'"
      by (auto simp: date_less_def valid_date_def)
    then show ?thesis
      using days_before_month_mono [of m m' y] \<open>y = y'\<close> by (simp add: ordinal_def)
  qed
qed

section \<open>Reading a timestamp\<close>

definition digit_value :: "char \<Rightarrow> int option" where
  "digit_value c =
     (let code = (of_char c :: int) in if code \<in> {48..57} then Some (code - 48) else None)"

text \<open>Exactly two digits; four digits are two pairs.\<close>

fun read_two :: "string \<Rightarrow> (int \<times> string) option" where
  "read_two (c # c' # s) =
     (case digit_value c of None \<Rightarrow> None | Some v \<Rightarrow>
      (case digit_value c' of None \<Rightarrow> None | Some w \<Rightarrow> Some (10 * v + w, s)))"
| "read_two _ = None"

definition read_four :: "string \<Rightarrow> (int \<times> string) option" where
  "read_four s =
     (case read_two s of None \<Rightarrow> None | Some (v, s) \<Rightarrow>
      (case read_two s of None \<Rightarrow> None | Some (w, s) \<Rightarrow> Some (100 * v + w, s)))"

text \<open>All the digits at the front.\<close>

fun span_digits :: "string \<Rightarrow> int list \<times> string" where
  "span_digits [] = ([], [])"
| "span_digits (c # s) =
     (case digit_value c of None \<Rightarrow> ([], c # s)
      | Some v \<Rightarrow> (let (vs, r) = span_digits s in (v # vs, r)))"

fun expect :: "char list \<Rightarrow> string \<Rightarrow> string option" where
  "expect cs [] = None"
| "expect cs (c # s) = (if c \<in> set cs then Some s else None)"

text \<open>A fraction read to \<open>k\<close> places.\<close>

definition scale_fraction :: "nat \<Rightarrow> int list \<Rightarrow> int" where
  "scale_fraction k ds = foldl (\<lambda>a d. 10 * a + d) 0 (take k (ds @ [0, 0, 0, 0, 0, 0, 0, 0, 0]))"

definition read_fraction :: "string \<Rightarrow> (int list \<times> string) option" where
  "read_fraction s = (case expect ''.'' s of None \<Rightarrow> Some ([], s)
     | Some r \<Rightarrow> (case span_digits r of ([], _) \<Rightarrow> None | (ds, r') \<Rightarrow> Some (ds, r')))"

text \<open>The offset in minutes, at the end of the string.\<close>

definition read_offset :: "string \<Rightarrow> int option" where
  "read_offset s =
     (case s of [] \<Rightarrow> None
      | c # r \<Rightarrow>
        if c \<in> set ''Zz'' then (if r = [] then Some 0 else None)
        else if c \<in> set ''+-'' then
          (case read_two r of None \<Rightarrow> None | Some (h, r1) \<Rightarrow>
          (case expect '':'' r1 of None \<Rightarrow> None | Some r2 \<Rightarrow>
          (case read_two r2 of None \<Rightarrow> None | Some (m, r3) \<Rightarrow>
          if h < 24 \<and> m < 60 \<and> r3 = []
          then Some ((if c = CHR ''-'' then -1 else 1) * (60 * h + m)) else None)))
        else None)"

record timestamp =
  ts_seconds :: int
  ts_fraction :: "int list"

definition read_timestamp :: "char list \<Rightarrow> string \<Rightarrow> timestamp option" where
  "read_timestamp separators s =
     (case read_four s of None \<Rightarrow> None | Some (y, s) \<Rightarrow>
     (case expect ''-'' s of None \<Rightarrow> None | Some s \<Rightarrow>
     (case read_two s of None \<Rightarrow> None | Some (m, s) \<Rightarrow>
     (case expect ''-'' s of None \<Rightarrow> None | Some s \<Rightarrow>
     (case read_two s of None \<Rightarrow> None | Some (d, s) \<Rightarrow>
     (case expect separators s of None \<Rightarrow> None | Some s \<Rightarrow>
     (case read_two s of None \<Rightarrow> None | Some (hh, s) \<Rightarrow>
     (case expect '':'' s of None \<Rightarrow> None | Some s \<Rightarrow>
     (case read_two s of None \<Rightarrow> None | Some (mm, s) \<Rightarrow>
     (case expect '':'' s of None \<Rightarrow> None | Some s \<Rightarrow>
     (case read_two s of None \<Rightarrow> None | Some (ss, s) \<Rightarrow>
     (case read_fraction s of None \<Rightarrow> None | Some (fr, s) \<Rightarrow>
     (case read_offset s of None \<Rightarrow> None | Some off \<Rightarrow>
     if valid_date y (nat m) d \<and> hh < 24 \<and> mm < 60 \<and> ss < 60
     then Some \<lparr>ts_seconds = ordinal y (nat m) d * 86400
                  + (3600 * hh + 60 * mm + ss) - 60 * off,
                ts_fraction = fr\<rparr>
     else None)))))))))))))"

definition parse_timestamp :: "string \<Rightarrow> int option" where
  "parse_timestamp s =
     map_option (\<lambda>t. ts_seconds t * 1000000 + (scale_fraction 6 (ts_fraction t)))
       (read_timestamp ''Tt '' s)"

text \<open>
  The protobuf reader takes only Z after the adjustments of the source or an offset, and
  refuses more than nine fraction digits; its epoch is 1970-01-01.
\<close>

definition parse_timestamp_ns :: "string \<Rightarrow> int option" where
  "parse_timestamp_ns s =
     Option.bind (read_timestamp ''Tt'' s) (\<lambda>t.
     if length (ts_fraction t) \<le> 9
     then Some ((ts_seconds t - 719163 * 86400) * 1000000000
                + (scale_fraction 9 (ts_fraction t)))
     else None)"


end
