(* ===== verification/Qualification_Policy.thy ===== *)
theory Qualification_Policy
  imports Status
begin

text \<open>
  The canonical qualification predicates of contracts/qualification_policy.py: channel
  violations and their status, the physical clock predicate, and the check that a clock
  relation references evidence retained by the right domains. JSON numbers are exact
  rationals: the code only compares them here, and Python compares int and float exactly.
\<close>

section \<open>Channel violations\<close>

datatype violation_code =
    Ambiguous_message_id
  | Invalid_observation
  | Observation_window_exceeded
  | Insufficient_messages
  | Loss_ratio_exceeded
  | Duplicate_count_exceeded
  | Out_of_order_count_exceeded
  | Message_age_exceeded
  | Clock_skew_exceeded

definition CHANNEL_ERROR_VIOLATIONS :: "violation_code set" where
  "CHANNEL_ERROR_VIOLATIONS =
     {Ambiguous_message_id, Invalid_observation, Observation_window_exceeded}"

definition CHANNEL_INCOMPLETE_VIOLATIONS :: "violation_code set" where
  "CHANNEL_INCOMPLETE_VIOLATIONS = {Insufficient_messages}"

lemmas violation_classes = CHANNEL_ERROR_VIOLATIONS_def CHANNEL_INCOMPLETE_VIOLATIONS_def

definition channel_observation_status :: "violation_code set \<Rightarrow> outcome" where
  "channel_observation_status codes =
     (if codes = {} then Passed
      else if codes \<inter> CHANNEL_ERROR_VIOLATIONS \<noteq> {} then Error
      else if codes \<subseteq> CHANNEL_INCOMPLETE_VIOLATIONS then Incomplete
      else Failed)"

record delivery_policy =
  minimum_source_messages :: int
  max_loss_ratio :: rat
  max_duplicate_count :: int
  max_out_of_order_count :: int
  max_message_age_limit_ms :: rat
  observation_window_sec :: rat

record channel_counters =
  sent_count :: int
  loss_ratio :: rat
  duplicate_count :: int
  out_of_order_count :: int
  max_message_age_ms :: rat
  observation_duration_sec :: rat

definition derive_channel_violations ::
  "delivery_policy \<Rightarrow> channel_counters \<Rightarrow> violation_code list \<Rightarrow> violation_code set" where
  "derive_channel_violations delivery c reported_violation_codes =
     (let checks =
        [(Insufficient_messages, minimum_source_messages delivery \<le> sent_count c),
         (Loss_ratio_exceeded, loss_ratio c \<le> max_loss_ratio delivery),
         (Duplicate_count_exceeded, duplicate_count c \<le> max_duplicate_count delivery),
         (Out_of_order_count_exceeded, out_of_order_count c \<le> max_out_of_order_count delivery),
         (Message_age_exceeded, max_message_age_ms c \<le> max_message_age_limit_ms delivery),
         (Observation_window_exceeded,
            observation_duration_sec c \<le> observation_window_sec delivery)]
      in failing checks \<union> (set reported_violation_codes \<inter> CHANNEL_ERROR_VIOLATIONS))"

definition within_limits :: "delivery_policy \<Rightarrow> channel_counters \<Rightarrow> bool" where
  "within_limits delivery c \<longleftrightarrow>
     minimum_source_messages delivery \<le> sent_count c \<and>
     loss_ratio c \<le> max_loss_ratio delivery \<and>
     duplicate_count c \<le> max_duplicate_count delivery \<and>
     out_of_order_count c \<le> max_out_of_order_count delivery \<and>
     max_message_age_ms c \<le> max_message_age_limit_ms delivery \<and>
     observation_duration_sec c \<le> observation_window_sec delivery"

lemma status_Passed_iff [check_simps]: "channel_observation_status codes = Passed \<longleftrightarrow> codes = {}"
  by (simp add: channel_observation_status_def)

lemma status_Error_iff: "channel_observation_status codes = Error \<longleftrightarrow>
    codes \<inter> CHANNEL_ERROR_VIOLATIONS \<noteq> {}"
  by (auto simp: channel_observation_status_def)

lemma status_mono:
  "A \<subseteq> B \<Longrightarrow> channel_observation_status A \<le> channel_observation_status B"
  by (auto simp: channel_observation_status_def violation_classes less_eq_outcome_def)

lemma derive_empty_iff: "derive_channel_violations d c reported = {} \<longleftrightarrow>
    within_limits d c \<and> set reported \<inter> CHANNEL_ERROR_VIOLATIONS = {}"
  by (auto simp: derive_channel_violations_def within_limits_def Let_def)

lemma derive_error_codes: "derive_channel_violations d c reported \<inter> CHANNEL_ERROR_VIOLATIONS =
    (if observation_duration_sec c \<le> observation_window_sec d then {}
     else {Observation_window_exceeded}) \<union> (set reported \<inter> CHANNEL_ERROR_VIOLATIONS)"
  by (auto simp: derive_channel_violations_def Let_def CHANNEL_ERROR_VIOLATIONS_def)

text \<open>
  The derived status of a channel is passed exactly when every delivery limit holds and no
  error code was reported; it is an error exactly when the window was exceeded or an error
  code was reported; and reporting more codes never improves it.
\<close>

theorem channel_status_correct:
  "(channel_observation_status (derive_channel_violations d c reported) = Passed \<longleftrightarrow>
      within_limits d c \<and> set reported \<inter> CHANNEL_ERROR_VIOLATIONS = {}) \<and>
   (channel_observation_status (derive_channel_violations d c reported) = Error \<longleftrightarrow>
      observation_window_sec d < observation_duration_sec c \<or>
      (\<exists>code \<in> set reported. code \<in> CHANNEL_ERROR_VIOLATIONS)) \<and>
   channel_observation_status (derive_channel_violations d c reported)
     \<le> channel_observation_status (derive_channel_violations d c (reported @ further))"
proof (intro conjI)
  show "channel_observation_status (derive_channel_violations d c reported) = Passed \<longleftrightarrow>
      within_limits d c \<and> set reported \<inter> CHANNEL_ERROR_VIOLATIONS = {}"
    by (simp add: status_Passed_iff derive_empty_iff)
  show "channel_observation_status (derive_channel_violations d c reported) = Error \<longleftrightarrow>
      observation_window_sec d < observation_duration_sec c \<or>
      (\<exists>code \<in> set reported. code \<in> CHANNEL_ERROR_VIOLATIONS)"
    by (auto simp add: status_Error_iff derive_error_codes)
  show "channel_observation_status (derive_channel_violations d c reported)
     \<le> channel_observation_status (derive_channel_violations d c (reported @ further))"
    by (rule status_mono) (auto simp: derive_channel_violations_def Let_def)
qed

section \<open>Physical clocks\<close>

record clock_policy =
  time_authority_min_samples :: int
  max_clock_offset_ms :: rat
  max_clock_drift_ppm :: rat
  max_sample_age_limit_ms :: rat

record clock_observation =
  sample_count :: int
  offset_ms :: rat
  drift_ppm :: rat
  max_sample_age_ms :: rat

definition hardware_clock_within_policy ::
  "clock_policy \<Rightarrow> clock_observation \<Rightarrow> bool \<Rightarrow> bool" where
  "hardware_clock_within_policy p ob monotonic \<longleftrightarrow>
     monotonic
     \<and> time_authority_min_samples p \<le> sample_count ob
     \<and> \<bar>offset_ms ob\<bar> \<le> max_clock_offset_ms p
     \<and> \<bar>drift_ppm ob\<bar> \<le> max_clock_drift_ppm p
     \<and> max_sample_age_ms ob \<le> max_sample_age_limit_ms p"

section \<open>Clock evidence\<close>

datatype clock_method = Measured_skew | Shared_clock_identity

record shared_identity =
  source_observation_sha256 :: string
  destination_observation_sha256 :: string

record clock_relation_reference =
  relation_evidence_sha256 :: string
  relation_method :: clock_method
  relation_source_domain_id :: string
  relation_destination_domain_id :: string
  relation_identity :: shared_identity

datatype clock_evidence_error =
    Unretained_evidence
  | Source_observation_not_retained string
  | Destination_observation_not_retained string

definition validate_clock_relation_evidence ::
  "clock_relation_reference \<Rightarrow> (string \<times> string list) list \<Rightarrow> clock_evidence_error option" where
  "validate_clock_relation_evidence relation evidence =
     (let owns = (\<lambda>domain digest. case map_of evidence domain of
                    None \<Rightarrow> False | Some ds \<Rightarrow> digest \<in> set ds);
          source = relation_source_domain_id relation;
          destination = relation_destination_domain_id relation
      in first_error
        [require (\<exists>(_, ds) \<in> set evidence. relation_evidence_sha256 relation \<in> set ds)
           Unretained_evidence,
         when_check (relation_method relation = Shared_clock_identity)
           (first_error
             [require (owns source (source_observation_sha256 (relation_identity relation)))
                (Source_observation_not_retained source),
              require (owns destination (destination_observation_sha256 (relation_identity relation)))
                (Destination_observation_not_retained destination)])])"

definition evidence_owned :: "(string \<times> string list) list \<Rightarrow> string \<Rightarrow> string \<Rightarrow> bool" where
  "evidence_owned evidence domain digest \<longleftrightarrow>
     (\<exists>ds. map_of evidence domain = Some ds \<and> digest \<in> set ds)"

lemma clock_evidence_accepts:
  "validate_clock_relation_evidence r evidence = None \<longleftrightarrow>
     (\<exists>(_, ds) \<in> set evidence. relation_evidence_sha256 r \<in> set ds) \<and>
     (relation_method r = Shared_clock_identity \<longrightarrow>
        evidence_owned evidence (relation_source_domain_id r)
          (source_observation_sha256 (relation_identity r)) \<and>
        evidence_owned evidence (relation_destination_domain_id r)
          (destination_observation_sha256 (relation_identity r)))"
  by (auto simp: validate_clock_relation_evidence_def evidence_owned_def Let_def
      split: option.splits)

end
