(* ===== verification/Vocabulary.thy ===== *)
theory Vocabulary
  imports Status
begin

text \<open>
  The closed vocabularies of the contract schemas that several components share, the metric
  assertions of a scenario, and Python equality of attribute values. Enumerations of the
  JSON schemas are datatypes; identifiers, digests and URIs stay strings; JSON numbers are
  exact rationals.
\<close>

datatype environment = Simulation | Hil | Real_robot

datatype instrument_kind = Gauge | Sum | Histogram

datatype temporality = Instantaneous | Delta | Cumulative | Unspecified

datatype aggregation = Agg_min | Agg_max | Agg_mean | Agg_p50 | Agg_p95 | Agg_p99 | Agg_count

datatype comparison = Lt | Lte | Eq | Gte | Gt

definition is_physical :: "environment \<Rightarrow> bool" where
  "is_physical e \<longleftrightarrow> e \<in> {Hil, Real_robot}"

section \<open>Attribute values\<close>

datatype attribute = AStr string | ABool bool | AInt int | AFloat rat

fun attribute_number :: "attribute \<Rightarrow> rat option" where
  "attribute_number (ABool b) = Some (if b then 1 else 0)"
| "attribute_number (AInt i) = Some (of_int i)"
| "attribute_number (AFloat r) = Some r"
| "attribute_number (AStr s) = None"

text \<open>\<open>==\<close> on attribute values: bool, int and float compare as numbers.\<close>

fun attribute_eq :: "attribute \<Rightarrow> attribute \<Rightarrow> bool" where
  "attribute_eq (AStr s) b = (b = AStr s)"
| "attribute_eq a b = (attribute_number b = attribute_number a)"

lemma attribute_eq_refl [simp]: "attribute_eq a a"
  by (cases a) simp_all

lemma attribute_eq_sym: "attribute_eq a b \<longleftrightarrow> attribute_eq b a"
  by (cases a; cases b) (auto simp: eq_commute)

lemma attribute_eq_trans: "attribute_eq a b \<Longrightarrow> attribute_eq b c \<Longrightarrow> attribute_eq a c"
  by (cases a; cases b; cases c) auto

type_synonym attributes = "(string \<times> attribute) list"

text \<open>\<open>all(attributes.get(key) == value for key, value in match.items())\<close>\<close>

definition attributes_match :: "attributes \<Rightarrow> attributes \<Rightarrow> bool" where
  "attributes_match match attributes \<longleftrightarrow>
     list_all (\<lambda>(k, v). case map_of attributes k of None \<Rightarrow> False | Some w \<Rightarrow> attribute_eq w v)
       match"

section \<open>Metric declarations of a scenario\<close>

record metric_definition =
  md_metric_name :: string
  md_unit :: string
  md_instrument_kind :: instrument_kind
  md_temporality :: temporality
  md_monotonic :: bool

datatype duration_kind = Minimum_contiguous | Maximum_violation

record duration_spec =
  ds_kind :: duration_kind
  ds_duration_sec :: rat
  ds_max_sample_gap_sec :: rat

datatype assertion_kind = Metric aggregation | Metric_duration duration_spec

record metric_assertion =
  ma_assertion_id :: string
  ma_metric_name :: string
  ma_unit :: string
  ma_kind :: assertion_kind
  ma_operator :: comparison
  ma_threshold :: rat
  ma_window_sec :: rat
  ma_attribute_match :: attributes

end
