(* ===== verification/Sem_Scenario.thy ===== *)
theory Sem_Scenario
  imports Vocabulary Qualification_Policy
begin

text \<open>
  Cross-field rules of acceptance scenarios (contracts/semantics.py, the scenario part): the
  readiness periods, metric declarations and their assertions, uniqueness of the declared
  interfaces, the evidence policy, the forbidden graph of physical runs and the order of
  the delivery-latency thresholds. Every \<open>_fail\<close> site of the source is a constructor of the
  error type, with the indices its JSON path shows.
\<close>

definition RESERVED_ASSERTION_IDS :: "string list" where
  "RESERVED_ASSERTION_IDS =
    [''data-plane-data-sharing'', ''data-plane-middleware-profile'', ''data-plane-loss-ratio'',
     ''data-plane-message-age'', ''data-plane-private-ipc'', ''data-plane-sequence-integrity'',
     ''data-plane-shm-transport'', ''policy-evidence-compression'',
     ''policy-evidence-recording-mode'', ''policy-evidence-remote-sink'',
     ''policy-evidence-retention'', ''policy-evidence-segment-duration'',
     ''policy-evidence-segment-size'', ''policy-evidence-spool-size'',
     ''policy-evidence-spool-watermark'', ''policy-evidence-topics'',
     ''policy-evidence-upload-lag'', ''policy-evidence-upload-mode'', ''time-policy'']"

definition RESERVED_METRIC_NAMES :: "string list" where
  "RESERVED_METRIC_NAMES =
    [''robotics.clock.source'', ''robotics.clock.sync_protocol'',
     ''robotics.hardware.clock.drift'', ''robotics.hardware.clock.monotonic'',
     ''robotics.hardware.clock.offset'', ''robotics.hardware.message.age'',
     ''robotics.inference.latency'', ''robotics.message.age'', ''robotics.message.loss_ratio'',
     ''robotics.message.lost'', ''robotics.message.received'',
     ''robotics.message.sequence_error'', ''robotics.simulation.deadline_miss_ratio'',
     ''robotics.time_authority.delivery_latency'']"

datatype scenario_error =
    Stable_exceeds_graph_ready
  | Lifecycle_stable_exceeds_graph_ready nat
  | Metric_names_not_unique
  | Reserved_metric_namespace nat
  | Metric_name_not_reverse_domain nat
  | Gauge_not_instantaneous nat
  | Aggregate_instantaneous nat
  | Monotonic_not_sum nat
  | Assertion_without_definition nat
  | Assertion_unit_mismatch nat
  | Duration_requires_gauge nat
  | Duration_exceeds_window nat
  | Sample_gap_exceeds_window nat
  | Graph_topics_not_unique
  | Graph_services_not_unique
  | Graph_actions_not_unique
  | Graph_lifecycle_nodes_not_unique
  | Assertion_ids_not_unique
  | Evaluator_namespaces_not_unique
  | Reserved_assertion_id nat
  | Segment_exceeds_spool
  | Remote_sink_mismatch
  | Physical_without_forbidden_interface
  | Latency_thresholds_not_ordered

section \<open>Metric declarations\<close>

definition dots :: "string \<Rightarrow> nat" where
  "dots s = count_list s (CHR ''.'')"

definition validate_metric_definition :: "nat \<Rightarrow> metric_definition \<Rightarrow> scenario_error option" where
  "validate_metric_definition index d =
     (let metric_name = md_metric_name d; kind = md_instrument_kind d;
          temporality = md_temporality d
      in first_error
        [require (\<not> (prefix ''robotics.'' metric_name \<and> metric_name \<notin> set RESERVED_METRIC_NAMES))
           (Reserved_metric_namespace index),
         require (\<not> (\<not> prefix ''robotics.'' metric_name \<and> dots metric_name < 2))
           (Metric_name_not_reverse_domain index),
         require (\<not> (kind = Gauge \<and> temporality \<noteq> Instantaneous)) (Gauge_not_instantaneous index),
         require (\<not> (kind \<noteq> Gauge \<and> temporality = Instantaneous)) (Aggregate_instantaneous index),
         require (\<not> (md_monotonic d \<and> kind \<noteq> Sum)) (Monotonic_not_sum index)])"

definition validate_declared_metric_assertion ::
  "nat \<Rightarrow> metric_assertion \<Rightarrow> metric_definition option \<Rightarrow> scenario_error option" where
  "validate_declared_metric_assertion index a definition_opt =
     (case definition_opt of None \<Rightarrow> Some (Assertion_without_definition index)
      | Some d \<Rightarrow> first_error
        [require (ma_unit a = md_unit d) (Assertion_unit_mismatch index),
         (case ma_kind a of Metric _ \<Rightarrow> None
          | Metric_duration spec \<Rightarrow> first_error
             [require (md_instrument_kind d = Gauge) (Duration_requires_gauge index),
              require (ds_duration_sec spec \<le> ma_window_sec a) (Duration_exceeds_window index),
              require (ds_max_sample_gap_sec spec \<le> ma_window_sec a)
                (Sample_gap_exceeds_window index)])])"

definition validate_metric_declarations ::
  "metric_definition list \<Rightarrow> metric_assertion list \<Rightarrow> scenario_error option" where
  "validate_metric_declarations definitions assertions = first_error
     [require (unique_by md_metric_name definitions) Metric_names_not_unique,
      each validate_metric_definition definitions,
      each (\<lambda>index a. validate_declared_metric_assertion index a
              (dict_by md_metric_name definitions (ma_metric_name a))) assertions]"

section \<open>Scenario documents\<close>

record lifecycle_node =
  ln_name :: string
  ln_stable_for_sec :: rat

record scenario =
  sc_schema_version :: string
  sc_graph_ready_sec :: rat
  sc_stable_for_sec :: rat
  sc_topics :: "string list"
  sc_services :: "string list"
  sc_actions :: "string list"
  sc_lifecycle_nodes :: "lifecycle_node list"
  sc_assertions :: "metric_assertion list"
  sc_metric_definitions :: "metric_definition list"
  sc_evaluator_namespaces :: "string list"
  sc_max_segment_size_bytes :: int
  sc_max_spool_size_bytes :: int
  sc_upload_mode :: string
  sc_remote_sink_allowed :: bool
  sc_forbidden_topics :: "string list"
  sc_forbidden_services :: "string list"
  sc_forbidden_actions :: "string list"
  sc_target_environment :: environment
  sc_latency_p50_ms :: rat
  sc_latency_p95_ms :: rat
  sc_latency_max_ms :: rat

definition validate_scenario_stability :: "scenario \<Rightarrow> scenario_error option" where
  "validate_scenario_stability d = first_error
     [require (sc_stable_for_sec d \<le> sc_graph_ready_sec d) Stable_exceeds_graph_ready,
      each (\<lambda>index node. require (ln_stable_for_sec node \<le> sc_graph_ready_sec d)
              (Lifecycle_stable_exceeds_graph_ready index)) (sc_lifecycle_nodes d)]"

definition validate_acceptance_scenario :: "scenario \<Rightarrow> scenario_error option" where
  "validate_acceptance_scenario d = first_error
     [validate_scenario_stability d,
      require (unique_by id (sc_topics d)) Graph_topics_not_unique,
      require (unique_by id (sc_services d)) Graph_services_not_unique,
      require (unique_by id (sc_actions d)) Graph_actions_not_unique,
      require (unique_by ln_name (sc_lifecycle_nodes d)) Graph_lifecycle_nodes_not_unique,
      require (unique_by ma_assertion_id (sc_assertions d)) Assertion_ids_not_unique,
      require (unique_by id (sc_evaluator_namespaces d)) Evaluator_namespaces_not_unique,
      each (\<lambda>index a. require (ma_assertion_id a \<notin> set RESERVED_ASSERTION_IDS)
              (Reserved_assertion_id index)) (sc_assertions d),
      when_check (sc_schema_version d = ''acceptance-scenario.v1'')
        (validate_metric_declarations (sc_metric_definitions d) (sc_assertions d)),
      require (sc_max_segment_size_bytes d \<le> sc_max_spool_size_bytes d) Segment_exceeds_spool,
      require ((sc_upload_mode d = ''closed_segments_during_run'') = sc_remote_sink_allowed d)
        Remote_sink_mismatch,
      require (\<not> (is_physical (sc_target_environment d) \<and>
                  \<not> (sc_forbidden_topics d \<noteq> [] \<or> sc_forbidden_services d \<noteq> []
                     \<or> sc_forbidden_actions d \<noteq> [])))
        Physical_without_forbidden_interface,
      require (sc_latency_p50_ms d \<le> sc_latency_p95_ms d \<and> sc_latency_p95_ms d \<le> sc_latency_max_ms d)
        Latency_thresholds_not_ordered]"

section \<open>What acceptance means\<close>

definition sound_definition :: "metric_definition \<Rightarrow> bool" where
  "sound_definition d \<longleftrightarrow>
     (if prefix ''robotics.'' (md_metric_name d) then md_metric_name d \<in> set RESERVED_METRIC_NAMES
      else 2 \<le> dots (md_metric_name d)) \<and>
     (md_instrument_kind d = Gauge \<longleftrightarrow> md_temporality d = Instantaneous) \<and>
     (md_monotonic d \<longrightarrow> md_instrument_kind d = Sum)"

definition sound_assertion :: "metric_definition list \<Rightarrow> metric_assertion \<Rightarrow> bool" where
  "sound_assertion definitions a \<longleftrightarrow>
     (\<exists>d \<in> set definitions. md_metric_name d = ma_metric_name a \<and> md_unit d = ma_unit a \<and>
        (\<forall>spec. ma_kind a = Metric_duration spec \<longrightarrow>
            md_instrument_kind d = Gauge \<and> ds_duration_sec spec \<le> ma_window_sec a \<and>
            ds_max_sample_gap_sec spec \<le> ma_window_sec a))"

definition sound_declarations :: "metric_definition list \<Rightarrow> metric_assertion list \<Rightarrow> bool" where
  "sound_declarations definitions assertions \<longleftrightarrow>
     distinct (map md_metric_name definitions) \<and>
     (\<forall>d \<in> set definitions. sound_definition d) \<and>
     (\<forall>a \<in> set assertions. sound_assertion definitions a)"

lemma validate_metric_definition_accepts [check_simps]:
  "validate_metric_definition i d = None \<longleftrightarrow> sound_definition d"
  by (auto simp: validate_metric_definition_def sound_definition_def Let_def)

lemma validate_declared_accepts:
  "validate_declared_metric_assertion i a (Some d) = None \<longleftrightarrow>
     md_unit d = ma_unit a \<and>
     (\<forall>spec. ma_kind a = Metric_duration spec \<longrightarrow>
        md_instrument_kind d = Gauge \<and> ds_duration_sec spec \<le> ma_window_sec a \<and>
        ds_max_sample_gap_sec spec \<le> ma_window_sec a)"
  by (cases "ma_kind a") (auto simp: validate_declared_metric_assertion_def)

lemma validate_declared_by_name:
  assumes "unique_by md_metric_name definitions"
  shows "validate_declared_metric_assertion i a
           (dict_by md_metric_name definitions (ma_metric_name a)) = None \<longleftrightarrow>
         sound_assertion definitions a"
proof (cases "dict_by md_metric_name definitions (ma_metric_name a)")
  case None
  then have "ma_metric_name a \<notin> md_metric_name ` set definitions"
    by (simp add: dict_by_None)
  with None show ?thesis
    unfolding validate_declared_metric_assertion_def sound_assertion_def by (auto simp: image_iff)
next
  case (Some d)
  then have d: "e \<in> set definitions \<and> md_metric_name e = ma_metric_name a \<longleftrightarrow> e = d" for e
    using dict_by_unique [OF assms] by (metis option.inject)
  have "(\<exists>e \<in> set definitions. md_metric_name e = ma_metric_name a \<and> Q e) \<longleftrightarrow> Q d" for Q
    using d by metis
  then show ?thesis
    unfolding Some validate_declared_accepts sound_assertion_def by simp
qed

lemma metric_declarations_accept:
  "validate_metric_declarations definitions assertions = None \<longleftrightarrow>
     sound_declarations definitions assertions"
proof (cases "unique_by md_metric_name definitions")
  case True
  then show ?thesis
    by (auto simp: validate_metric_declarations_def sound_declarations_def unique_by_distinct
        each_accepts [OF validate_metric_definition_accepts]
        each_accepts [OF validate_declared_by_name [OF True]])
next
  case False
  then show ?thesis
    by (auto simp: validate_metric_declarations_def sound_declarations_def unique_by_distinct)
qed

definition sound_scenario :: "scenario \<Rightarrow> bool" where
  "sound_scenario d \<longleftrightarrow>
     sc_stable_for_sec d \<le> sc_graph_ready_sec d \<and>
     (\<forall>node \<in> set (sc_lifecycle_nodes d). ln_stable_for_sec node \<le> sc_graph_ready_sec d) \<and>
     distinct (sc_topics d) \<and> distinct (sc_services d) \<and> distinct (sc_actions d) \<and>
     distinct (map ln_name (sc_lifecycle_nodes d)) \<and>
     distinct (map ma_assertion_id (sc_assertions d)) \<and>
     distinct (sc_evaluator_namespaces d) \<and>
     ma_assertion_id ` set (sc_assertions d) \<inter> set RESERVED_ASSERTION_IDS = {} \<and>
     (sc_schema_version d = ''acceptance-scenario.v1'' \<longrightarrow>
        sound_declarations (sc_metric_definitions d) (sc_assertions d)) \<and>
     sc_max_segment_size_bytes d \<le> sc_max_spool_size_bytes d \<and>
     (sc_remote_sink_allowed d \<longleftrightarrow> sc_upload_mode d = ''closed_segments_during_run'') \<and>
     (is_physical (sc_target_environment d) \<longrightarrow>
        sc_forbidden_topics d @ sc_forbidden_services d @ sc_forbidden_actions d \<noteq> []) \<and>
     sorted [sc_latency_p50_ms d, sc_latency_p95_ms d, sc_latency_max_ms d]"

lemma scenario_accepts: "validate_acceptance_scenario d = None \<longleftrightarrow> sound_scenario d"
  by (auto simp: validate_acceptance_scenario_def validate_scenario_stability_def
      sound_scenario_def unique_by_distinct metric_declarations_accept)

interpretation scenario_validator: validator validate_acceptance_scenario sound_scenario
  by unfold_locales (rule scenario_accepts)

end
