(* ===== verification/Sem_Runtime.thy ===== *)
theory Sem_Runtime
  imports Vocabulary Timestamps
begin

text \<open>
  Cross-field rules of runtime manifests, model artifacts, execution permits, trust policies
  and execution verifications (contracts/semantics.py). The runtime rules tie the data source
  of an execution to its environment, plant, clock and its single plant provider.
\<close>

datatype data_source = Simulator | Recording_playback | Live_target | Unmapped_source string

datatype plant_backend = Interface_mock | Simulated_physics | Recorded_data | Real_hardware

datatype time_mode =
  Simulation_realtime | Simulation_stepped | Playback_clocked | Hardware_realtime

datatype sync_protocol =
    Sim_clock
  | Playback_clock
  | Ptp
  | Chrony_ntp
  | Mavlink_timesync
  | Micro_xrce_dds
  | External_sync

datatype provider_kind =
  Simulator_provider | Recording_source | Hardware_target | Other_provider string

datatype security_profile = No_security | Sros2_enforce

datatype security_strategy = Strategy_none | Enforce

datatype render_mode = Render_none | Render_software | Render_hardware

datatype runtime_error =
    Silent_provider_fallback
  | Fallback_count_not_zero
  | Rmw_mismatch
  | Data_source_unmapped
  | Target_environment_contradicts
  | Plant_backend_contradicts
  | Time_mode_contradicts
  | Plant_provider_not_exactly_one
  | Unsecured_claims_assets
  | Enforce_incomplete
  | Target_ids_not_unique
  | Target_identities_not_unique
  | Configuration_kinds_not_unique
  | Runtime_evaluators_not_unique
  | Provider_targets_not_unique
  | Provider_conformance_not_unique
  | Accelerator_components_not_unique
  | Unregistered_configuration_kind nat
  | Clock_contradicts_time_mode
  | Software_renderer_in_hardware_mode

record inference_workload =
  in_requested_provider :: string
  in_actual_provider :: string
  in_fallback_count :: int

record provider_binding =
  pb_kind :: provider_kind
  pb_target_id :: string
  pb_conformance_result_sha256 :: string

record physical_target =
  pt_target_id :: string
  pt_identity_sha256 :: string

record runtime_manifest =
  rt_schema_version :: string
  rt_inference :: "inference_workload option"
  rt_accelerator_components :: "string list option"
  rt_ros_rmw :: string
  rt_data_plane_rmw :: string
  rt_data_source :: data_source
  rt_target_environment :: environment
  rt_plant_backend :: plant_backend
  rt_time_mode :: time_mode
  rt_provider_bindings :: "provider_binding list"
  rt_security_profile :: security_profile
  rt_security_strategy :: security_strategy
  rt_enclaves :: "string list"
  rt_policy_digests :: "string list"
  rt_physical_targets :: "physical_target list"
  rt_configuration_kinds :: "string list"
  rt_evaluator_namespaces :: "string list"
  rt_clock_sync_protocol :: sync_protocol
  rt_render_mode :: render_mode
  rt_renderer :: string

section \<open>The execution mapping\<close>

fun source_modes :: "data_source \<Rightarrow> (environment list \<times> plant_backend \<times> time_mode list) option" where
  "source_modes Simulator =
     Some ([Simulation], Simulated_physics, [Simulation_realtime, Simulation_stepped])"
| "source_modes Recording_playback = Some ([Simulation], Recorded_data, [Playback_clocked])"
| "source_modes Live_target = Some ([Hil, Real_robot], Real_hardware, [Hardware_realtime])"
| "source_modes (Unmapped_source _) = None"

fun source_provider_kind :: "data_source \<Rightarrow> provider_kind option" where
  "source_provider_kind Simulator = Some Simulator_provider"
| "source_provider_kind Recording_playback = Some Recording_source"
| "source_provider_kind Live_target = Some Hardware_target"
| "source_provider_kind (Unmapped_source _) = None"

definition plant_provider_kinds :: "provider_kind list" where
  "plant_provider_kinds = [Simulator_provider, Recording_source, Hardware_target]"

fun expected_clock :: "time_mode \<Rightarrow> sync_protocol option" where
  "expected_clock Simulation_realtime = Some Sim_clock"
| "expected_clock Simulation_stepped = Some Sim_clock"
| "expected_clock Playback_clocked = Some Playback_clock"
| "expected_clock Hardware_realtime = None"

text \<open>\<open>str.lower\<close> on ASCII, and \<open>marker in text\<close>.\<close>

definition lower_char :: "char \<Rightarrow> char" where
  "lower_char c = (let n = (of_char c :: nat) in if 65 \<le> n \<and> n \<le> 90 then char_of (n + 32) else c)"

fun contains_text :: "string \<Rightarrow> string \<Rightarrow> bool" where
  "contains_text m [] = (m = [])"
| "contains_text m (c # s) = (prefix m (c # s) \<or> contains_text m s)"

definition registered_configuration_kinds :: "string list" where
  "registered_configuration_kinds =
     [''inference_provider'', ''host_topology'', ''runtime_resources'']"

definition validate_execution_mapping :: "runtime_manifest \<Rightarrow> runtime_error option" where
  "validate_execution_mapping d =
     (case source_modes (rt_data_source d) of
        None \<Rightarrow> Some Data_source_unmapped
      | Some (allowed_targets, plant, time_modes) \<Rightarrow> first_error
         [require (rt_target_environment d \<in> set allowed_targets) Target_environment_contradicts,
          require (rt_plant_backend d = plant) Plant_backend_contradicts,
          require (rt_time_mode d \<in> set time_modes) Time_mode_contradicts,
          require
            (filter (\<lambda>k. k \<in> set plant_provider_kinds) (map pb_kind (rt_provider_bindings d))
               = (case source_provider_kind (rt_data_source d) of None \<Rightarrow> [] | Some k \<Rightarrow> [k]))
            Plant_provider_not_exactly_one])"

definition validate_runtime :: "runtime_manifest \<Rightarrow> runtime_error option" where
  "validate_runtime d = first_error
     [(case rt_inference d of None \<Rightarrow> None
       | Some inference \<Rightarrow> first_error
          [require (in_requested_provider inference = in_actual_provider inference)
             Silent_provider_fallback,
           require (in_fallback_count inference = 0) Fallback_count_not_zero]),
      require (rt_ros_rmw d = rt_data_plane_rmw d) Rmw_mismatch,
      validate_execution_mapping d,
      (if rt_security_profile d = No_security
       then require (\<not> (rt_security_strategy d \<noteq> Strategy_none \<or> rt_enclaves d \<noteq> []
                         \<or> rt_policy_digests d \<noteq> [])) Unsecured_claims_assets
       else require (\<not> (rt_security_strategy d \<noteq> Enforce \<or> rt_enclaves d = []
                         \<or> rt_policy_digests d = [])) Enforce_incomplete),
      require (unique_by pt_target_id (rt_physical_targets d)) Target_ids_not_unique,
      require (unique_by pt_identity_sha256 (rt_physical_targets d)) Target_identities_not_unique,
      require (unique_by id (rt_configuration_kinds d)) Configuration_kinds_not_unique,
      require (unique_by id (rt_evaluator_namespaces d)) Runtime_evaluators_not_unique,
      require (unique_by pb_target_id (rt_provider_bindings d)) Provider_targets_not_unique,
      require (unique_by pb_conformance_result_sha256 (rt_provider_bindings d))
        Provider_conformance_not_unique,
      (case rt_accelerator_components d of None \<Rightarrow> None
       | Some components \<Rightarrow> require (unique_by id components) Accelerator_components_not_unique),
      when_check (rt_schema_version d = ''runtime-manifest.v1'')
        (each (\<lambda>index kind. require
             (\<not> (kind \<notin> set registered_configuration_kinds \<and> count_list kind (CHR ''.'') < 2))
             (Unregistered_configuration_kind index)) (rt_configuration_kinds d)),
      (case expected_clock (rt_time_mode d) of None \<Rightarrow> None
       | Some c \<Rightarrow> require (rt_clock_sync_protocol d = c) Clock_contradicts_time_mode),
      require (\<not> (rt_render_mode d = Render_hardware \<and>
                  (\<exists>marker \<in> set [''llvmpipe'', ''softpipe''].
                     contains_text marker (map lower_char (rt_renderer d)))))
        Software_renderer_in_hardware_mode]"

lemma contains_text_iff: "contains_text m s \<longleftrightarrow> (\<exists>p q. s = p @ m @ q)"
proof (induction m s rule: contains_text.induct)
  case (2 m c s)
  show ?case
  proof
    assume "contains_text m (c # s)"
    then show "\<exists>p q. c # s = p @ m @ q"
    proof (cases "prefix m (c # s)")
      case True
      then show ?thesis by (metis append_Nil prefix_def)
    next
      case False
      with \<open>contains_text m (c # s)\<close> "2.IH" obtain p q where "s = p @ m @ q" by auto
      then have "c # s = (c # p) @ m @ q" by simp
      then show ?thesis by blast
    qed
  next
    assume "\<exists>p q. c # s = p @ m @ q"
    then obtain p q where s: "c # s = p @ m @ q" by blast
    show "contains_text m (c # s)"
    proof (cases p)
      case Nil
      with s have "prefix m (c # s)" by (auto simp: prefix_def)
      then show ?thesis by simp
    next
      case (Cons a p')
      with s "2.IH" show ?thesis by auto
    qed
  qed
qed auto

section \<open>What acceptance means\<close>

definition plant_providers :: "runtime_manifest \<Rightarrow> provider_kind list" where
  "plant_providers d =
     filter (\<lambda>k. k \<in> set plant_provider_kinds) (map pb_kind (rt_provider_bindings d))"

text \<open>The three executions the manifest can describe.\<close>

definition simulator_execution :: "runtime_manifest \<Rightarrow> bool" where
  "simulator_execution d \<longleftrightarrow> rt_data_source d = Simulator \<and> rt_target_environment d = Simulation \<and>
     rt_plant_backend d = Simulated_physics \<and>
     rt_time_mode d \<in> {Simulation_realtime, Simulation_stepped} \<and>
     plant_providers d = [Simulator_provider] \<and> rt_clock_sync_protocol d = Sim_clock"

definition playback_execution :: "runtime_manifest \<Rightarrow> bool" where
  "playback_execution d \<longleftrightarrow> rt_data_source d = Recording_playback \<and>
     rt_target_environment d = Simulation \<and> rt_plant_backend d = Recorded_data \<and>
     rt_time_mode d = Playback_clocked \<and>
     plant_providers d = [Recording_source] \<and> rt_clock_sync_protocol d = Playback_clock"

definition live_execution :: "runtime_manifest \<Rightarrow> bool" where
  "live_execution d \<longleftrightarrow> rt_data_source d = Live_target \<and> is_physical (rt_target_environment d) \<and>
     rt_plant_backend d = Real_hardware \<and> rt_time_mode d = Hardware_realtime \<and>
     plant_providers d = [Hardware_target]"

lemma validate_runtime_mapping:
  assumes "validate_runtime d = None"
  shows "validate_execution_mapping d = None"
    and "case expected_clock (rt_time_mode d) of None \<Rightarrow> True
         | Some c \<Rightarrow> rt_clock_sync_protocol d = c"
  using assms by (auto simp: validate_runtime_def split: option.splits)

lemma execution_mapping_cases:
  assumes "validate_execution_mapping d = None"
    and "case expected_clock (rt_time_mode d) of None \<Rightarrow> True
         | Some c \<Rightarrow> rt_clock_sync_protocol d = c"
  shows "simulator_execution d \<or> playback_execution d \<or> live_execution d"
  using assms
  by (cases "rt_data_source d"; cases "rt_time_mode d")
    (auto simp: validate_execution_mapping_def simulator_execution_def playback_execution_def
      live_execution_def plant_providers_def is_physical_def)

text \<open>
  An accepted runtime manifest describes exactly one of the three consistent executions: a
  simulator run on simulated physics and time, a playback of recorded data on the playback
  clock, or a live run on real hardware, each with exactly one plant provider of its kind.
\<close>

theorem accepted_runtime_is_consistent:
  assumes "validate_runtime d = None"
  shows "simulator_execution d \<or> playback_execution d \<or> live_execution d"
  using validate_runtime_mapping [OF assms] by (rule execution_mapping_cases)

definition example_runtime :: runtime_manifest where
  "example_runtime =
     \<lparr>rt_schema_version = ''runtime-manifest.v1'', rt_inference = None,
      rt_accelerator_components = None, rt_ros_rmw = ''rmw'', rt_data_plane_rmw = ''rmw'',
      rt_data_source = Live_target, rt_target_environment = Hil,
      rt_plant_backend = Real_hardware, rt_time_mode = Hardware_realtime,
      rt_provider_bindings =
        [\<lparr>pb_kind = Hardware_target, pb_target_id = ''t'', pb_conformance_result_sha256 = ''c''\<rparr>],
      rt_security_profile = Sros2_enforce, rt_security_strategy = Enforce,
      rt_enclaves = [''e''], rt_policy_digests = [''p''],
      rt_physical_targets = [\<lparr>pt_target_id = ''t'', pt_identity_sha256 = ''i''\<rparr>],
      rt_configuration_kinds = [''a.b.c''], rt_evaluator_namespaces = [],
      rt_clock_sync_protocol = Ptp, rt_render_mode = Render_none, rt_renderer = []\<rparr>"

lemma example_runtime_accepted: "validate_runtime example_runtime = None"
  by (simp add: validate_runtime_def validate_execution_mapping_def example_runtime_def
      plant_provider_kinds_def registered_configuration_kinds_def unique_by_distinct)

theorem accepted_runtime_is_consistent_witness:
  "simulator_execution example_runtime \<or> playback_execution example_runtime
     \<or> live_execution example_runtime"
  by (rule accepted_runtime_is_consistent [OF example_runtime_accepted])

section \<open>Model artifacts\<close>

datatype model_error =
    Source_inputs_not_unique
  | Source_outputs_not_unique
  | Reference_is_not_source
  | Portable_with_hardware
  | Nonportable_without_hardware

record model_artifact =
  mo_source_inputs :: "string list"
  mo_source_outputs :: "string list"
  mo_source_sha256 :: string
  mo_reference_artifact_sha256 :: string
  mo_portable :: bool
  mo_hardware :: "string list"

definition validate_model_artifact :: "model_artifact \<Rightarrow> model_error option" where
  "validate_model_artifact d = first_error
     [require (unique_by id (mo_source_inputs d)) Source_inputs_not_unique,
      require (unique_by id (mo_source_outputs d)) Source_outputs_not_unique,
      require (mo_reference_artifact_sha256 d = mo_source_sha256 d) Reference_is_not_source,
      require (\<not> (mo_portable d \<and> mo_hardware d \<noteq> [])) Portable_with_hardware,
      require (\<not> (\<not> mo_portable d \<and> mo_hardware d = [])) Nonportable_without_hardware]"

definition sound_model :: "model_artifact \<Rightarrow> bool" where
  "sound_model d \<longleftrightarrow> distinct (mo_source_inputs d) \<and> distinct (mo_source_outputs d) \<and>
     mo_reference_artifact_sha256 d = mo_source_sha256 d \<and>
     (mo_portable d \<longleftrightarrow> mo_hardware d = [])"

interpretation model_validator: validator validate_model_artifact sound_model
  by unfold_locales (auto simp: validate_model_artifact_def sound_model_def unique_by_distinct)

section \<open>Execution permits and trust\<close>

datatype permit_error =
    Permit_bad_timestamp string
  | Expires_not_after_issue
  | Interlock_after_issue
  | Approver_is_operator
  | Validity_exceeds_half_hour

record permit =
  pm_issued_at :: string
  pm_expires_at :: string
  pm_checked_at :: string
  pm_operator_id :: string
  pm_approver_id :: string

text \<open>
  The 30-minute limit compares \<open>total_seconds()\<close> with 1800; on whole microseconds this is a
  comparison with 1800000000.
\<close>

definition validate_permit :: "permit \<Rightarrow> permit_error option" where
  "validate_permit d =
     (case parse_timestamp (pm_issued_at d) of
        None \<Rightarrow> Some (Permit_bad_timestamp (pm_issued_at d))
      | Some issued_at \<Rightarrow>
     (case parse_timestamp (pm_expires_at d) of
        None \<Rightarrow> Some (Permit_bad_timestamp (pm_expires_at d))
      | Some expires_at \<Rightarrow>
     (case parse_timestamp (pm_checked_at d) of
        None \<Rightarrow> Some (Permit_bad_timestamp (pm_checked_at d))
      | Some checked_at \<Rightarrow> first_error
         [require (issued_at < expires_at) Expires_not_after_issue,
          require (checked_at \<le> issued_at) Interlock_after_issue,
          require (pm_operator_id d \<noteq> pm_approver_id d) Approver_is_operator,
          require (expires_at - issued_at \<le> 1800000000) Validity_exceeds_half_hour])))"

datatype signer_role = Operator | Approver | Other_role string

record signer =
  sg_role :: signer_role
  sg_identity :: string
  sg_bundle_sha256 :: string

datatype trust_error =
    Principals_not_unique
  | Signers_not_operator_and_approver
  | Signer_identities_not_unique
  | Signer_bundles_not_unique

definition validate_execution_trust_policy :: "(signer_role \<times> string) list \<Rightarrow> trust_error option" where
  "validate_execution_trust_policy principals =
     require (unique_by id principals) Principals_not_unique"

definition validate_execution_verification :: "signer list \<Rightarrow> trust_error option" where
  "validate_execution_verification signers = first_error
     [require (set (map sg_role signers) = {Operator, Approver}) Signers_not_operator_and_approver,
      require (unique_by sg_identity signers) Signer_identities_not_unique,
      require (unique_by sg_bundle_sha256 signers) Signer_bundles_not_unique]"

text \<open>
  A permit is accepted exactly when its three instants parse, the interlock was checked no
  later than the issue, the permit ends after its issue and within 30 minutes of it, and two
  different people operate and approve.
\<close>

theorem permit_accepts_iff:
  "validate_permit d = None \<longleftrightarrow>
     (\<exists>issued expires check.
        parse_timestamp (pm_issued_at d) = Some issued \<and>
        parse_timestamp (pm_expires_at d) = Some expires \<and>
        parse_timestamp (pm_checked_at d) = Some check \<and>
        check \<le> issued \<and> issued < expires \<and> expires \<le> issued + 30 * 60 * 1000000 \<and>
        pm_operator_id d \<noteq> pm_approver_id d)"
  by (auto simp: validate_permit_def split: option.splits)

text \<open>
  An accepted verification has two different people, one in each role.
\<close>

lemma verification_two_people:
  assumes "validate_execution_verification signers = None"
  shows "\<exists>a b. a \<in> set signers \<and> b \<in> set signers \<and> sg_role a = Operator \<and> sg_role b = Approver \<and>
     sg_identity a \<noteq> sg_identity b \<and> sg_bundle_sha256 a \<noteq> sg_bundle_sha256 b"
proof -
  have roles: "sg_role ` set signers = {Operator, Approver}"
    and u: "unique_by sg_identity signers" "unique_by sg_bundle_sha256 signers"
    using assms by (simp_all add: validate_execution_verification_def)
  obtain a b where ab: "a \<in> set signers" "b \<in> set signers" "sg_role a = Operator" "sg_role b = Approver"
    using roles by (metis image_iff insertI1 insertI2)
  then have "a \<noteq> b" by auto
  with ab u show ?thesis by (metis unique_by_eqD)
qed

end
