(* ===== verification/Sem_Result.thy ===== *)
theory Sem_Result
  imports Sem_Runtime
begin

text \<open>
  Cross-field rules of a domain acceptance result (contracts/semantics.py,
  \<open>_validate_result\<close>): the observed interval, uniqueness, severity of the verdict against its
  assertions, offline evaluations, product assertions, the forbidden graph, the hardware
  clock of physical runs, what a passed verdict requires and the time-authority statistics.
\<close>

datatype assertion_source = Core | Product

datatype evaluation_mode = Live_evaluation | Offline

datatype workload_kind = Workload_none | Workload_inference

datatype clock_source =
    Pmc
  | Chronyc_tracking
  | Mavlink_timesync_status
  | Controller_telemetry
  | External_attestation

record assertion_result =
  ar_assertion_id :: string
  ar_status :: outcome
  ar_source :: assertion_source
  ar_namespace :: "string option"
  ar_evidence_sha256 :: "string list"

record evidence_item =
  ei_artifact_id :: string
  ei_sha256 :: string
  ei_uri :: string
  ei_segment_index :: "int option"

record hardware_clock =
  hc_sync_protocol :: sync_protocol
  hc_source :: clock_source
  hc_evidence_sha256 :: string
  hc_measured_at :: string
  hc_within_policy :: bool

record time_authority =
  ta_window_start_ns :: int
  ta_window_end_ns :: int
  ta_p50_ms :: rat
  ta_p95_ms :: rat
  ta_max_ms :: rat
  ta_evidence_sha256 :: "string option"
  ta_within_policy :: bool

record domain_result =
  rs_schema_version :: string
  rs_started_at :: string
  rs_finished_at :: string
  rs_status :: outcome
  rs_assertion_results :: "assertion_result list"
  rs_evaluators :: "string list"
  rs_evidence :: "evidence_item list"
  rs_graph_topics :: "string list"
  rs_graph_services :: "string list"
  rs_graph_actions :: "string list"
  rs_lifecycle_states :: "(string \<times> int) list"
  rs_evaluation_mode :: evaluation_mode
  rs_unevaluated :: "string list"
  rs_violations :: "(string \<times> string) list"
  rs_forbidden_passed :: bool
  rs_target_environment :: environment
  rs_authorization_environment :: "environment option"
  rs_hardware_clock :: "hardware_clock option"
  rs_workload_kind :: workload_kind
  rs_fallback_count :: int
  rs_clock_monotonic :: bool
  rs_shutdown :: "bool list"
  rs_time_authority :: time_authority

datatype result_error =
    Result_bad_timestamp string
  | Result_key_missing string
  | Finished_before_started
  | Result_assertion_ids_not_unique
  | Result_evaluators_not_unique
  | Result_artifact_ids_not_unique
  | Status_less_severe_than_assertion
  | Observed_topics_not_unique
  | Observed_services_not_unique
  | Observed_actions_not_unique
  | Lifecycle_observations_not_unique
  | Skipped_assertion_in_passed
  | Offline_unevaluated_missing
  | Offline_claims_passed
  | Core_assertion_with_namespace nat
  | Product_assertion_not_owned nat
  | Product_evidence_not_listed nat
  | Violations_not_unique
  | Forbidden_passed_contradicts
  | Authorization_environment_mismatch
  | Clock_protocol_unmapped
  | Clock_source_mismatch
  | Clock_evidence_not_listed
  | Clock_measured_outside_interval
  | Passed_with_fallback
  | Passed_without_monotonic_time
  | Passed_without_shutdown
  | Passed_hardware_clock_out_of_policy
  | Passed_time_authority_out_of_policy
  | Authority_window_reversed
  | Authority_statistics_not_ordered
  | Authority_evidence_not_listed
  | Duplicate_evidence_segment nat

section \<open>The rules\<close>

definition offline_unevaluated :: "string list" where
  "offline_unevaluated =
     [''$.clock_observation'', ''$.forbidden_graph_observation'', ''$.observed_ros_graph'',
      ''$.shutdown'']"

definition validate_product_assertion ::
  "string set \<Rightarrow> nat \<Rightarrow> assertion_result \<Rightarrow> result_error option" where
  "validate_product_assertion evidence_digests index a =
     (if ar_source a = Core
      then require (ar_namespace a = None) (Core_assertion_with_namespace index)
      else with_key (Result_key_missing ''namespace'') (ar_namespace a) (\<lambda>namespace. first_error
        [require (prefix (namespace @ ''.'') (ar_assertion_id a)) (Product_assertion_not_owned index),
         require (set (ar_evidence_sha256 a) \<subseteq> evidence_digests) (Product_evidence_not_listed index)]))"

definition validate_result_v1 :: "domain_result \<Rightarrow> string set \<Rightarrow> result_error option" where
  "validate_result_v1 d evidence_digests = first_error
     [require (\<not> ((\<exists>a \<in> set (rs_assertion_results d). ar_status a = Skipped) \<and> rs_status d = Passed))
        Skipped_assertion_in_passed,
      when_check (rs_evaluation_mode d = Offline) (first_error
        [require (set offline_unevaluated \<subseteq> set (rs_unevaluated d)) Offline_unevaluated_missing,
         require (rs_status d \<noteq> Passed) Offline_claims_passed]),
      each (validate_product_assertion evidence_digests) (rs_assertion_results d)]"

fun expected_clock_sources :: "sync_protocol \<Rightarrow> clock_source list option" where
  "expected_clock_sources Ptp = Some [Pmc]"
| "expected_clock_sources Chrony_ntp = Some [Chronyc_tracking]"
| "expected_clock_sources Mavlink_timesync = Some [Mavlink_timesync_status]"
| "expected_clock_sources Micro_xrce_dds = Some [Controller_telemetry]"
| "expected_clock_sources External_sync = Some [External_attestation]"
| "expected_clock_sources Sim_clock = None"
| "expected_clock_sources Playback_clock = None"

definition validate_physical_clock ::
  "domain_result \<Rightarrow> string set \<Rightarrow> int \<Rightarrow> int \<Rightarrow> result_error option" where
  "validate_physical_clock d evidence_digests started_at finished_at =
     with_key (Result_key_missing ''authorization.target'') (rs_authorization_environment d) (\<lambda>env.
     first_error
       [require (env = rs_target_environment d) Authorization_environment_mismatch,
        with_key (Result_key_missing ''hardware_clock_observation'') (rs_hardware_clock d) (\<lambda>clock.
        with_key Clock_protocol_unmapped (expected_clock_sources (hc_sync_protocol clock)) (\<lambda>sources.
        first_error
          [require (hc_source clock \<in> set sources) Clock_source_mismatch,
           require (hc_evidence_sha256 clock \<in> evidence_digests) Clock_evidence_not_listed,
           with_key (Result_bad_timestamp ''measured_at'') (parse_timestamp (hc_measured_at clock))
             (\<lambda>measured_at. require (started_at \<le> measured_at \<and> measured_at \<le> finished_at)
                Clock_measured_outside_interval)]))])"

definition validate_passed_result :: "domain_result \<Rightarrow> result_error option" where
  "validate_passed_result d = first_error
     [require (\<not> (rs_workload_kind d = Workload_inference \<and> rs_fallback_count d \<noteq> 0))
        Passed_with_fallback,
      require (rs_clock_monotonic d) Passed_without_monotonic_time,
      require (\<forall>b \<in> set (rs_shutdown d). b) Passed_without_shutdown,
      when_check (is_physical (rs_target_environment d))
        (with_key (Result_key_missing ''hardware_clock_observation'') (rs_hardware_clock d)
          (\<lambda>clock. require (hc_within_policy clock) Passed_hardware_clock_out_of_policy)),
      require (ta_within_policy (rs_time_authority d)) Passed_time_authority_out_of_policy]"

definition validate_time_authority :: "time_authority \<Rightarrow> string set \<Rightarrow> result_error option" where
  "validate_time_authority t evidence_digests = first_error
     [require (ta_window_start_ns t \<le> ta_window_end_ns t) Authority_window_reversed,
      require (ta_p50_ms t \<le> ta_p95_ms t \<and> ta_p95_ms t \<le> ta_max_ms t)
        Authority_statistics_not_ordered,
      (case ta_evidence_sha256 t of None \<Rightarrow> None
       | Some digest \<Rightarrow> require (digest \<in> evidence_digests) Authority_evidence_not_listed)]"

definition segment_key :: "evidence_item \<Rightarrow> (string \<times> int) option" where
  "segment_key item = map_option (\<lambda>i. (ei_uri item, i)) (ei_segment_index item)"

definition validate_result :: "domain_result \<Rightarrow> result_error option" where
  "validate_result d =
     with_key (Result_bad_timestamp ''started_at'') (parse_timestamp (rs_started_at d)) (\<lambda>started_at.
     with_key (Result_bad_timestamp ''finished_at'') (parse_timestamp (rs_finished_at d)) (\<lambda>finished_at.
     (let evidence_digests = ei_sha256 ` set (rs_evidence d) in
      first_error
       [require (started_at \<le> finished_at) Finished_before_started,
        require (unique_by ar_assertion_id (rs_assertion_results d)) Result_assertion_ids_not_unique,
        require (unique_by id (rs_evaluators d)) Result_evaluators_not_unique,
        require (unique_by ei_artifact_id (rs_evidence d)) Result_artifact_ids_not_unique,
        require (rs_assertion_results d = [] \<or>
                 worst_of (rs_status d # map ar_status (rs_assertion_results d)) False
                   = Inr (rs_status d))
          Status_less_severe_than_assertion,
        require (unique_by id (rs_graph_topics d)) Observed_topics_not_unique,
        require (unique_by id (rs_graph_services d)) Observed_services_not_unique,
        require (unique_by id (rs_graph_actions d)) Observed_actions_not_unique,
        require (unique_by id (rs_lifecycle_states d)) Lifecycle_observations_not_unique,
        when_check (rs_schema_version d = ''acceptance-result.v1'')
          (validate_result_v1 d evidence_digests),
        require (unique_by id (rs_violations d)) Violations_not_unique,
        require (rs_forbidden_passed d = (rs_violations d = [])) Forbidden_passed_contradicts,
        when_check (is_physical (rs_target_environment d))
          (validate_physical_clock d evidence_digests started_at finished_at),
        when_check (rs_status d = Passed) (validate_passed_result d),
        validate_time_authority (rs_time_authority d) evidence_digests,
        first_repeat 0 [] segment_key Duplicate_evidence_segment (rs_evidence d)])))"

section \<open>What acceptance means\<close>

lemma severity_rule:
  "as = [] \<or> worst_of (s # map ar_status as) False = Inr s \<longleftrightarrow>
     (\<forall>a \<in> set as. ar_status a \<le> s)"
proof (cases "as = []")
  case False
  have "Max (insert s (ar_status ` set as)) = s \<longleftrightarrow> (\<forall>a \<in> set as. ar_status a \<le> s)"
    by (auto simp: Max_eq_iff)
  with False show ?thesis by (simp add: worst_of_Cons)
qed simp

lemma product_assertion_accepts:
  "validate_product_assertion digests i a = None \<longleftrightarrow>
     (if ar_source a = Core then ar_namespace a = None
      else \<exists>ns. ar_namespace a = Some ns \<and> prefix (ns @ ''.'') (ar_assertion_id a) \<and>
             set (ar_evidence_sha256 a) \<subseteq> digests)"
  by (auto simp: validate_product_assertion_def)

text \<open>The condition of a physical run.\<close>

definition physical_clock_sound :: "domain_result \<Rightarrow> bool" where
  "physical_clock_sound d \<longleftrightarrow>
     rs_authorization_environment d = Some (rs_target_environment d) \<and>
     (\<exists>clock t0 t t1 sources. rs_hardware_clock d = Some clock \<and>
        expected_clock_sources (hc_sync_protocol clock) = Some sources \<and>
        hc_source clock \<in> set sources \<and>
        hc_evidence_sha256 clock \<in> ei_sha256 ` set (rs_evidence d) \<and>
        parse_timestamp (rs_started_at d) = Some t0 \<and>
        parse_timestamp (hc_measured_at clock) = Some t \<and>
        parse_timestamp (rs_finished_at d) = Some t1 \<and> t0 \<le> t \<and> t \<le> t1)"

lemma validate_result_parts:
  assumes "validate_result d = None"
  shows "\<forall>a \<in> set (rs_assertion_results d). ar_status a \<le> rs_status d"
    and "rs_schema_version d = ''acceptance-result.v1'' \<Longrightarrow>
           validate_result_v1 d (ei_sha256 ` set (rs_evidence d)) = None"
    and "rs_forbidden_passed d = (rs_violations d = [])"
    and "is_physical (rs_target_environment d) \<Longrightarrow> physical_clock_sound d"
    and "rs_status d = Passed \<Longrightarrow> validate_passed_result d = None"
    and "validate_time_authority (rs_time_authority d) (ei_sha256 ` set (rs_evidence d)) = None"
    and "distinct (present_keys segment_key (rs_evidence d))"
  using assms
  by (auto simp: validate_result_def Let_def severity_rule first_repeat_accepts
      validate_physical_clock_def physical_clock_sound_def)

text \<open>What a consumer of a passed result may rely on.\<close>

definition passed_guarantees :: "domain_result \<Rightarrow> bool" where
  "passed_guarantees d \<longleftrightarrow>
     (\<forall>a \<in> set (rs_assertion_results d). ar_status a = Passed) \<and>
     (rs_workload_kind d = Workload_inference \<longrightarrow> rs_fallback_count d = 0) \<and>
     rs_clock_monotonic d \<and> (\<forall>b \<in> set (rs_shutdown d). b) \<and>
     ta_within_policy (rs_time_authority d) \<and>
     (rs_schema_version d = ''acceptance-result.v1'' \<longrightarrow> rs_evaluation_mode d \<noteq> Offline) \<and>
     (is_physical (rs_target_environment d) \<longrightarrow>
        physical_clock_sound d \<and>
        (\<exists>clock. rs_hardware_clock d = Some clock \<and> hc_within_policy clock))"

lemma accepted_passed_guarantees:
  assumes "validate_result d = None" and "rs_status d = Passed"
  shows "passed_guarantees d"
  using validate_result_parts [OF assms(1)] assms(2)
  by (auto simp: passed_guarantees_def validate_passed_result_def validate_result_v1_def)

text \<open>
  C14: An accepted result with status passed has only passed assertions (no skipped, failed or
  erroneous one), no inference fallback, monotonic time, a complete shutdown, time authority
  within policy, was not evaluated offline, and on physical targets carries a hardware clock
  within policy whose retained evidence was measured inside the run under the authorised
  environment.
\<close>

theorem passed_result_guarantees:
  assumes "validate_result d = None" and "rs_status d = Passed"
  shows "passed_guarantees d"
  using assms by (rule accepted_passed_guarantees)

definition example_result :: domain_result where
  "example_result =
     \<lparr>rs_schema_version = ''acceptance-result.v1'', rs_started_at = ''2024-05-01T10:00:00Z'',
      rs_finished_at = ''2024-05-01T10:05:00Z'', rs_status = Passed,
      rs_assertion_results =
        [\<lparr>ar_assertion_id = ''a'', ar_status = Passed, ar_source = Core, ar_namespace = None,
          ar_evidence_sha256 = []\<rparr>],
      rs_evaluators = [], rs_evidence =
        [\<lparr>ei_artifact_id = ''e'', ei_sha256 = ''s'', ei_uri = ''u'', ei_segment_index = Some 0\<rparr>],
      rs_graph_topics = [], rs_graph_services = [], rs_graph_actions = [], rs_lifecycle_states = [],
      rs_evaluation_mode = Live_evaluation, rs_unevaluated = [], rs_violations = [],
      rs_forbidden_passed = True, rs_target_environment = Hil,
      rs_authorization_environment = Some Hil,
      rs_hardware_clock = Some \<lparr>hc_sync_protocol = Ptp, hc_source = Pmc, hc_evidence_sha256 = ''s'',
        hc_measured_at = ''2024-05-01T12:01:00+02:00'', hc_within_policy = True\<rparr>,
      rs_workload_kind = Workload_none, rs_fallback_count = 0, rs_clock_monotonic = True,
      rs_shutdown = [True, True],
      rs_time_authority = \<lparr>ta_window_start_ns = 0, ta_window_end_ns = 10, ta_p50_ms = 1,
        ta_p95_ms = 2, ta_max_ms = 3, ta_evidence_sha256 = Some ''s'', ta_within_policy = True\<rparr>\<rparr>"

lemmas read_timestamp_defs =
  parse_timestamp_def read_timestamp_def digit_value_def read_four_def read_fraction_def
  read_offset_def valid_date_def ordinal_def days_before_year_def days_before_month_def
  month_lengths_def is_leap_def scale_fraction_def

lemma example_result_instants:
  "parse_timestamp ''2024-05-01T10:00:00Z'' = Some 63850240800000000"
  "parse_timestamp ''2024-05-01T10:05:00Z'' = Some 63850241100000000"
  "parse_timestamp ''2024-05-01T12:01:00+02:00'' = Some 63850240860000000"
  by (simp_all add: read_timestamp_defs)

lemma example_result_accepted: "validate_result example_result = None"
  by (simp add: validate_result_def validate_physical_clock_def validate_passed_result_def
      validate_result_v1_def validate_time_authority_def validate_product_assertion_def
      example_result_def example_result_instants unique_by_distinct segment_key_def
      is_physical_def worst_of_Cons)

theorem passed_result_guarantees_witness: "passed_guarantees example_result"
  by (rule passed_result_guarantees [OF example_result_accepted]) (simp add: example_result_def)

end
