(* ===== verification/Float64.thy ===== *)
theory Float64
  imports Prelude "HOL-Library.Log_Nat"
begin

text \<open>
  Python floats: IEEE 754 binary64 with round-half-even. A finite float is the rational it
  denotes (the two zeros are one value: the program never distinguishes them). \<open>fl\<close> is the
  rounding of an exact result with unbounded exponent range above, \<open>round64\<close> adds the
  overflow to an infinity; the operations are the exact ones followed by that rounding.
\<close>

section \<open>Rounding to 53 bits\<close>

definition round_even :: "rat \<Rightarrow> int" where
  "round_even x = (let f = \<lfloor>x\<rfloor>; r = x - of_int f in
     if r < 1 / 2 then f else if 1 / 2 < r then f + 1 else if even f then f else f + 1)"

lemma round_even_int [simp]: "round_even (of_int n) = n"
  by (simp add: round_even_def)

lemma round_even_ge: "of_int n \<le> x \<Longrightarrow> n \<le> round_even x"
  by (auto simp: round_even_def Let_def le_floor_iff intro: order_trans [of n "\<lfloor>x\<rfloor>"])

lemma round_even_le:
  assumes "x \<le> of_int n"
  shows "round_even x \<le> n"
proof (cases "x = of_int n")
  case True
  then show ?thesis by simp
next
  case False
  with assms have "\<lfloor>x\<rfloor> < n" by (simp add: floor_less_iff)
  then show ?thesis by (auto simp: round_even_def Let_def)
qed

lemma round_even_mono: "x \<le> y \<Longrightarrow> round_even x \<le> round_even y"
proof -
  assume xy: "x \<le> y"
  then have "\<lfloor>x\<rfloor> \<le> \<lfloor>y\<rfloor>" by (rule floor_mono)
  then consider "\<lfloor>x\<rfloor> = \<lfloor>y\<rfloor>" | "\<lfloor>x\<rfloor> + 1 \<le> \<lfloor>y\<rfloor>" by linarith
  then show ?thesis
  proof cases
    case 1
    with xy show ?thesis by (auto simp: round_even_def Let_def)
  next
    case 2
    have "round_even x \<le> \<lfloor>x\<rfloor> + 1" by (auto simp: round_even_def Let_def)
    moreover have "\<lfloor>y\<rfloor> \<le> round_even y" by (auto simp: round_even_def Let_def)
    ultimately show ?thesis using 2 by simp
  qed
qed

lemma round_even_error: "\<bar>of_int (round_even x) - x\<bar> \<le> 1 / 2"
proof -
  define f where "f = \<lfloor>x\<rfloor>"
  have "of_int f \<le> x" "x < of_int f + 1" unfolding f_def by linarith+
  then show ?thesis by (auto simp: round_even_def Let_def abs_if f_def [symmetric])
qed

lemma round_even_minus: "round_even (- x) = - round_even x"
proof (cases "x = of_int \<lfloor>x\<rfloor>")
  case True
  then show ?thesis by (metis of_int_minus round_even_int)
next
  case False
  then have "of_int \<lfloor>x\<rfloor> < x" using of_int_floor_le [of x] by linarith
  moreover have "x < of_int \<lfloor>x\<rfloor> + 1" by linarith
  ultimately have fl: "\<lfloor>- x\<rfloor> = - \<lfloor>x\<rfloor> - 1"
    by (intro floor_unique) auto
  define f r where "f = \<lfloor>x\<rfloor>" and "r = x - of_int \<lfloor>x\<rfloor>"
  have r': "- x - of_int (- f - 1) = 1 - r" by (simp add: r_def f_def)
  have "round_even (- x) = (if 1 - r < 1 / 2 then - f - 1 else if 1 / 2 < 1 - r then - f
      else if even (- f - 1) then - f - 1 else - f)"
    unfolding round_even_def Let_def fl f_def [symmetric] r' by simp
  moreover have "round_even x = (if r < 1 / 2 then f else if 1 / 2 < r then f + 1
      else if even f then f else f + 1)"
    by (simp only: round_even_def Let_def f_def r_def)
  moreover consider "r < 1 / 2" | "1 / 2 < r" | "r = 1 / 2" by linarith
  ultimately show ?thesis by cases auto
qed

text \<open>The binary exponent of a positive rational.\<close>

definition ilog2 :: "rat \<Rightarrow> int" where
  "ilog2 x = (let (n, d) = quotient_of x; k = bitlen n - bitlen d in
     if 2 powi k \<le> x then k else k - 1)"

lemma bitlen_bounds_rat:
  assumes "0 < (n::int)"
  shows "2 powi (bitlen n - 1) \<le> (of_int n :: rat)" "(of_int n :: rat) < 2 powi bitlen n"
proof -
  have b: "2 ^ nat (bitlen n - 1) \<le> n" "n < 2 ^ nat (bitlen n)"
    using bitlen_bounds [OF assms] by auto
  have pos: "1 \<le> bitlen n" using assms by (simp add: bitlen_ge_iff_power)
  have "(of_int (2 ^ nat (bitlen n - 1)) :: rat) \<le> of_int n" using b(1) by (simp only: of_int_le_iff)
  then show "2 powi (bitlen n - 1) \<le> (of_int n :: rat)"
    using pos by (simp add: power_int_def)
  have "(of_int n :: rat) < of_int (2 ^ nat (bitlen n))" using b(2) by (simp only: of_int_less_iff)
  then show "(of_int n :: rat) < 2 powi bitlen n"
    using pos by (simp add: power_int_def)
qed

lemma ilog2_bounds:
  assumes "0 < x"
  shows "2 powi ilog2 x \<le> x" "x < 2 powi (ilog2 x + 1)"
proof -
  obtain n d where q: "quotient_of x = (n, d)" by (cases "quotient_of x")
  have d: "0 < d" using q by (rule quotient_of_denom_pos)
  have x: "x = of_int n / of_int d" using q by (rule quotient_of_div)
  with assms d have n: "0 < n" by (simp add: zero_less_divide_iff)
  let ?k = "bitlen n - bitlen d"
  have "x < 2 powi bitlen n / 2 powi (bitlen d - 1)"
    unfolding x using bitlen_bounds_rat [OF n] bitlen_bounds_rat [OF d] n d
    by (intro frac_less) auto
  then have up: "x < 2 powi (?k + 1)" by (simp add: power_int_diff power_int_add field_simps)
  have "2 powi (bitlen n - 1) / 2 powi bitlen d \<le> x"
    unfolding x using bitlen_bounds_rat [OF n] bitlen_bounds_rat [OF d] n d
    by (intro frac_le) (auto intro: less_imp_le)
  then have lo: "2 powi (?k - 1) \<le> x" by (simp add: power_int_diff power_int_add field_simps)
  show "2 powi ilog2 x \<le> x" using lo by (simp add: ilog2_def q Let_def)
  show "x < 2 powi (ilog2 x + 1)" using up by (auto simp: ilog2_def q Let_def)
qed

lemma powi_less_iff [simp]: "(2::rat) powi a < 2 powi b \<longleftrightarrow> a < b"
  using power_int_strict_increasing [of a b "2::rat"] power_int_increasing [of b a "2::rat"]
  by (metis linorder_not_less one_less_numeral_iff one_le_numeral semiring_norm(76))

lemma powi_le_iff [simp]: "(2::rat) powi a \<le> 2 powi b \<longleftrightarrow> a \<le> b"
  by (meson linorder_not_less powi_less_iff)

lemma powi_pos [simp]: "0 < (2::rat) powi a"
  by simp

lemma ilog2_mono: "0 < x \<Longrightarrow> x \<le> y \<Longrightarrow> ilog2 x \<le> ilog2 y"
proof -
  assume "0 < x" "x \<le> y"
  then have "2 powi ilog2 x < (2::rat) powi (ilog2 y + 1)"
    using ilog2_bounds(1) [of x] ilog2_bounds(2) [of y] by linarith
  then show ?thesis by simp
qed

text \<open>The exponent of the last place, and the rounding.\<close>

definition last_place :: "rat \<Rightarrow> int" where
  "last_place x = max (ilog2 \<bar>x\<bar> - 52) (- 1074)"

definition fl :: "rat \<Rightarrow> rat" where
  "fl x = (if x = 0 then 0
           else of_int (round_even (x / 2 powi last_place x)) * 2 powi last_place x)"

lemma fl_0 [simp]: "fl 0 = 0"
  by (simp add: fl_def)

lemma fl_minus: "fl (- x) = - fl x"
  by (simp add: fl_def last_place_def round_even_minus flip: minus_divide_left)

lemma two_powi_int: "0 \<le> k \<Longrightarrow> \<exists>n. (2::rat) powi k = of_int n"
  by (rule exI [of _ "2 ^ nat k"]) (simp add: power_int_def)

text \<open>Multiples of a power of two bound the rounding of a smaller or larger number.\<close>

lemma fl_le_powi:
  assumes "0 < x" "x \<le> 2 powi k" "last_place x \<le> k"
  shows "fl x \<le> 2 powi k"
proof -
  obtain n where n: "(2::rat) powi (k - last_place x) = of_int n"
    using two_powi_int [of "k - last_place x"] assms(3) by auto
  have "x / 2 powi last_place x \<le> of_int n"
    using assms(2) by (simp add: n [symmetric] power_int_diff divide_right_mono)
  then have "round_even (x / 2 powi last_place x) \<le> n" by (rule round_even_le)
  then have "(of_int (round_even (x / 2 powi last_place x)) :: rat) \<le> of_int n" by simp
  also have "of_int n = (2::rat) powi k / 2 powi last_place x" by (simp add: n [symmetric] power_int_diff)
  finally show ?thesis using assms(1) by (simp add: fl_def field_simps)
qed

lemma powi_le_fl:
  assumes "0 < x" "2 powi k \<le> x" "last_place x \<le> k"
  shows "2 powi k \<le> fl x"
proof -
  obtain n where n: "(2::rat) powi (k - last_place x) = of_int n"
    using two_powi_int [of "k - last_place x"] assms(3) by auto
  have "of_int n \<le> x / 2 powi last_place x"
    using assms(2) by (simp add: n [symmetric] power_int_diff divide_right_mono)
  then have "n \<le> round_even (x / 2 powi last_place x)" by (rule round_even_ge)
  then have "(of_int n :: rat) \<le> of_int (round_even (x / 2 powi last_place x))" by simp
  moreover have "of_int n = (2::rat) powi k / 2 powi last_place x" by (simp add: n [symmetric] power_int_diff)
  ultimately have "(2::rat) powi k / 2 powi last_place x \<le> of_int (round_even (x / 2 powi last_place x))"
    by simp
  then show ?thesis using assms(1) by (simp add: fl_def field_simps)
qed

lemma fl_nonneg: "0 \<le> x \<Longrightarrow> 0 \<le> fl x"
  by (auto simp: fl_def intro!: mult_nonneg_nonneg round_even_ge)

lemma fl_mono_pos:
  assumes "0 < x" "x \<le> y"
  shows "fl x \<le> fl y"
proof (cases "last_place x = last_place y")
  case True
  have "round_even (x / 2 powi last_place x) \<le> round_even (y / 2 powi last_place x)"
    using assms(2) by (intro round_even_mono divide_right_mono) auto
  then show ?thesis using assms True by (simp add: fl_def)
next
  case False
  have m: "ilog2 x \<le> ilog2 y" using assms by (rule ilog2_mono)
  with False assms have lt: "last_place x < last_place y"
    by (auto simp: last_place_def)
  with assms m have ly: "last_place y = ilog2 y - 52" and "ilog2 x < ilog2 y"
    by (auto simp: last_place_def)
  then have "x \<le> 2 powi ilog2 y"
    using ilog2_bounds(2) [OF assms(1)] powi_le_iff [of "ilog2 x + 1" "ilog2 y"]
    by (meson less_imp_le order_trans zless_imp_add1_zle)
  then have "fl x \<le> 2 powi ilog2 y" using lt ly assms by (intro fl_le_powi) auto
  also have "2 powi ilog2 y \<le> fl y"
    using ly assms ilog2_bounds(1) [of y] by (intro powi_le_fl) auto
  finally show ?thesis .
qed

lemma fl_mono: "x \<le> y \<Longrightarrow> fl x \<le> fl y"
proof -
  assume xy: "x \<le> y"
  consider "0 < x" | "x \<le> 0" "0 \<le> y" | "y < 0" by linarith
  then show ?thesis
  proof cases
    case 1
    with xy show ?thesis by (simp add: fl_mono_pos)
  next
    case 2
    then have "fl x \<le> 0" using fl_nonneg [of "- x"] by (simp add: fl_minus)
    with 2 fl_nonneg [of y] show ?thesis by simp
  next
    case 3
    with xy fl_mono_pos [of "- y" "- x"] show ?thesis by (simp add: fl_minus)
  qed
qed

section \<open>Representable numbers\<close>

definition is_f64 :: "rat \<Rightarrow> bool" where
  "is_f64 x \<longleftrightarrow> fl x = x"

lemma fl_multiple:
  assumes "x = of_int m * 2 powi k" "last_place x \<le> k"
  shows "fl x = x"
proof (cases "x = 0")
  case False
  obtain n where n: "(2::rat) powi (k - last_place x) = of_int n"
    using two_powi_int [of "k - last_place x"] assms(2) by auto
  have "(2::rat) powi k / 2 powi last_place x = of_int n"
    by (simp add: n [symmetric] power_int_diff)
  then have "x / 2 powi last_place x = of_int (m * n)"
    by (metis assms(1) of_int_mult times_divide_eq_right)
  with False show ?thesis unfolding fl_def
    by (metis divide_eq_eq power_int_not_zero round_even_int zero_neq_numeral)
qed simp

lemma ilog2_less: "0 < x \<Longrightarrow> x < 2 powi k \<Longrightarrow> ilog2 x < k"
  using ilog2_bounds(1) [of x] powi_less_iff [of "ilog2 x" k] by linarith

lemma ilog2_powi: "ilog2 (2 powi k) = k"
proof -
  have "ilog2 (2 powi k) < k + 1" by (rule ilog2_less) simp_all
  moreover have "(2::rat) powi k < 2 powi (ilog2 (2 powi k) + 1)" by (rule ilog2_bounds) simp
  ultimately show ?thesis by simp
qed

lemma f64_int:
  assumes "\<bar>i\<bar> \<le> 2 ^ 53"
  shows "is_f64 (of_int i)"
proof (cases "i = 0")
  case True
  then show ?thesis by (simp add: is_f64_def)
next
  case False
  show ?thesis
  proof (cases "\<bar>i\<bar> = 2 ^ 53")
    case True
    have abs: "\<bar>of_int i :: rat\<bar> = 2 powi 53"
      using True unfolding of_int_abs [symmetric] by (simp add: power_int_def)
    have "last_place (of_int i) = 1"
      unfolding last_place_def abs ilog2_powi by simp
    moreover have "even i" using True by (metis dvd_abs_iff dvd_power zero_less_numeral)
    then obtain j where "i = 2 * j" by (auto elim: evenE)
    ultimately have "fl (of_int i) = of_int i"
      by (intro fl_multiple [of _ j 1]) auto
    then show ?thesis by (simp add: is_f64_def)
  next
    case False
    with assms have "\<bar>i\<bar> < 2 ^ 53" by simp
    then have "(of_int \<bar>i\<bar> :: rat) < of_int (2 ^ 53)" by (simp only: of_int_less_iff)
    then have "\<bar>of_int i :: rat\<bar> < 2 powi 53" by (simp add: power_int_def)
    then have "ilog2 \<bar>of_int i :: rat\<bar> < 53"
      using \<open>i \<noteq> 0\<close> by (intro ilog2_less) auto
    then have "last_place (of_int i) \<le> 0" by (simp add: last_place_def)
    then have "fl (of_int i) = of_int i" by (intro fl_multiple [of _ i 0]) auto
    then show ?thesis by (simp add: is_f64_def)
  qed
qed

lemma fl_idem: "fl (fl x) = fl x"
proof -
  have pos: "fl (fl x) = fl x" if x: "0 < x" for x
  proof (cases "fl x = 0")
    case False
    define m where "m = round_even (x / 2 powi last_place x)"
    have eq: "fl x = of_int m * 2 powi last_place x" using x by (simp add: fl_def m_def)
    have nn: "0 \<le> fl x" using x by (simp add: fl_nonneg)
    have "fl x \<le> 2 powi max (ilog2 x + 1) (last_place x)"
      using ilog2_bounds(2) [OF x] x
      by (intro fl_le_powi) (auto intro: less_imp_le order_trans simp: max_def)
    also have "\<dots> \<le> 2 powi (last_place x + 53)"
      using x by (simp add: last_place_def)
    finally have up: "fl x \<le> 2 powi (last_place x + 53)" .
    show ?thesis
    proof (cases "fl x = 2 powi (last_place x + 53)")
      case True
      have "last_place (fl x) = last_place x + 1"
        unfolding True last_place_def by (simp add: ilog2_powi)
      with True show ?thesis
        by (intro fl_multiple [of _ 1 "last_place x + 53"]) auto
    next
      case neq: False
      with up False nn have "ilog2 (fl x) < last_place x + 53" by (intro ilog2_less) auto
      with nn have "last_place (fl x) \<le> last_place x" by (simp add: last_place_def)
      with eq show ?thesis by (intro fl_multiple [of _ m "last_place x"]) auto
    qed
  qed simp
  consider "0 < x" | "x = 0" | "0 < - x" by linarith
  then show ?thesis
  proof cases
    case 3
    then show ?thesis using pos [of "- x"] by (simp add: fl_minus)
  qed (simp_all add: pos)
qed

section \<open>A rounding as an interface\<close>

text \<open>
  The components that compute with floats rely on these laws only: rounding is monotone,
  keeps representable values and rounds every value to a representable one.
\<close>

locale rounding =
  fixes rnd :: "rat \<Rightarrow> rat"
  assumes mono: "x \<le> y \<Longrightarrow> rnd x \<le> rnd y"
    and idem: "rnd (rnd x) = rnd x"
    and zero: "rnd 0 = 0"
begin

lemma nonneg: "0 \<le> x \<Longrightarrow> 0 \<le> rnd x"
  using mono [of 0 x] by (simp add: zero)

lemma ge_fixed: "rnd a = a \<Longrightarrow> a \<le> x \<Longrightarrow> a \<le> rnd x"
  using mono [of a x] by simp

lemma le_fixed: "rnd a = a \<Longrightarrow> x \<le> a \<Longrightarrow> rnd x \<le> a"
  using mono [of x a] by simp

lemma between: "rnd a = a \<Longrightarrow> rnd b = b \<Longrightarrow> a \<le> x \<Longrightarrow> x \<le> b \<Longrightarrow> a \<le> rnd x \<and> rnd x \<le> b"
  by (simp add: ge_fixed le_fixed)

end

interpretation f64: rounding fl
  by unfold_locales (simp_all add: fl_mono fl_idem)

end
