(* ===== verification/Sem_Documents.thy ===== *)
theory Sem_Documents
  imports Sem_Result Qualification_Policy Float64
begin

text \<open>
  Cross-field rules of the smaller documents of contracts/semantics.py: evidence indexes,
  recording summaries, observations, conformance results, profiles, runs, causal chains,
  qualification bundles, transport channels with their observations, clock relations and
  domain aggregates.
\<close>

section \<open>Evidence indexes, recordings and observations\<close>

datatype document_error =
    Remote_sink_contradicts
  | Index_artifacts_not_unique
  | Evidence_object_duplicated nat
  | Recording_topics_not_unique
  | Channel_count_mismatch
  | Recording_interval_reversed
  | Observation_bad_timestamp string
  | Observation_not_after_start
  | Checks_not_unique
  | Conformance_status_mismatch
  | Conformance_status_invalid
  | Capabilities_mismatch
  | Requirements_not_unique
  | Domains_not_unique
  | Chain_contracts_not_unique
  | Subjects_not_unique
  | Artifacts_not_unique
  | Artifacts_do_not_classify_subjects
  | Artifact_kinds_missing

record index_artifact =
  ia_artifact_id :: string
  ia_uri :: string
  ia_immutable_revision :: "string option"

record evidence_index =
  ix_upload_mode :: string
  ix_remote_sink_used :: bool
  ix_artifacts :: "index_artifact list"

text \<open>\<open>artifact.get("immutable_revision", "")\<close>\<close>

definition artifact_identity :: "index_artifact \<Rightarrow> string \<times> string" where
  "artifact_identity a =
     (ia_uri a, case ia_immutable_revision a of None \<Rightarrow> [] | Some r \<Rightarrow> r)"

definition validate_evidence_index :: "evidence_index \<Rightarrow> document_error option" where
  "validate_evidence_index d = first_error
     [require (ix_remote_sink_used d = (ix_upload_mode d \<noteq> ''local_only'')) Remote_sink_contradicts,
      require (unique_by ia_artifact_id (ix_artifacts d)) Index_artifacts_not_unique,
      first_repeat 0 [] (\<lambda>a. Some (artifact_identity a)) Evidence_object_duplicated
        (ix_artifacts d)]"

record recording_summary =
  rc_topics :: "string list"
  rc_channel_count :: int
  rc_message_start_time_ns :: int
  rc_message_end_time_ns :: int

definition validate_recording_summary :: "recording_summary \<Rightarrow> document_error option" where
  "validate_recording_summary d = first_error
     [require (unique_by id (rc_topics d)) Recording_topics_not_unique,
      require (rc_channel_count d = int (length (rc_topics d))) Channel_count_mismatch,
      require (rc_message_start_time_ns d \<le> rc_message_end_time_ns d) Recording_interval_reversed]"

definition validate_acceptance_observation :: "string \<Rightarrow> string \<Rightarrow> document_error option" where
  "validate_acceptance_observation started finished =
     with_key (Observation_bad_timestamp started) (parse_timestamp started) (\<lambda>started_at.
     with_key (Observation_bad_timestamp finished) (parse_timestamp finished) (\<lambda>finished_at.
     require (started_at < finished_at) Observation_not_after_start))"

section \<open>Conformance, profiles, runs, chains and bundles\<close>

record conformance_check =
  cc_check_id :: string
  cc_status :: outcome
  cc_capability :: string

record conformance_result =
  cr_checks :: "conformance_check list"
  cr_status :: outcome
  cr_capabilities :: "string list"

definition validate_conformance_result :: "conformance_result \<Rightarrow> document_error option" where
  "validate_conformance_result d = first_error
     [require (unique_by cc_check_id (cr_checks d)) Checks_not_unique,
      (case worst_of (map cc_status (cr_checks d)) False of
         Inl _ \<Rightarrow> Some Conformance_status_invalid
       | Inr expected \<Rightarrow> require (cr_status d = expected) Conformance_status_mismatch),
      require (set (cr_capabilities d) =
                 set (map cc_capability (filter (\<lambda>c. cc_status c = Passed) (cr_checks d))))
        Capabilities_mismatch]"

definition validate_qualification_profile :: "string list \<Rightarrow> document_error option" where
  "validate_qualification_profile capabilities =
     require (unique_by id capabilities) Requirements_not_unique"

definition validate_acceptance_run :: "string list \<Rightarrow> document_error option" where
  "validate_acceptance_run domains = require (unique_by id domains) Domains_not_unique"

definition validate_causal_chain :: "string list \<Rightarrow> document_error option" where
  "validate_causal_chain channels = require (unique_by id channels) Chain_contracts_not_unique"

definition required_artifact_kinds :: "string list" where
  "required_artifact_kinds =
     [''scenario'', ''runtime_manifest'', ''acceptance_run'', ''domain_result'',
      ''acceptance_aggregate'', ''evidence_index'']"

definition validate_qualification_bundle ::
  "string list \<Rightarrow> (string \<times> string) list \<Rightarrow> document_error option" where
  "validate_qualification_bundle subjects artifacts = first_error
     [require (unique_by id subjects) Subjects_not_unique,
      require (unique_by fst artifacts) Artifacts_not_unique,
      require (fst ` set artifacts = set subjects) Artifacts_do_not_classify_subjects,
      require (set required_artifact_kinds \<subseteq> snd ` set artifacts) Artifact_kinds_missing]"

lemma conformance_accepts:
  "validate_conformance_result d = None \<longleftrightarrow>
     distinct (map cc_check_id (cr_checks d)) \<and> cr_checks d \<noteq> [] \<and>
     cr_status d = worst (map cc_status (cr_checks d)) \<and>
     set (cr_capabilities d) = {cc_capability c | c. c \<in> set (cr_checks d) \<and> cc_status c = Passed}"
  by (cases "cr_checks d = []")
    (auto simp: validate_conformance_result_def unique_by_distinct worst_of_worst)

text \<open>
  A passed conformance result established a capability with every one of its checks.
\<close>

lemma conformance_passed:
  assumes "validate_conformance_result d = None" and "cr_status d = Passed"
  shows "set (cr_capabilities d) = cc_capability ` set (cr_checks d)"
proof -
  have w: "worst (map cc_status (cr_checks d)) = Passed" and ne: "map cc_status (cr_checks d) \<noteq> []"
    using assms by (simp_all add: conformance_accepts)
  then have "\<forall>c \<in> set (cr_checks d). cc_status c = Passed"
    using worst_Passed_iff [OF ne] by (metis image_eqI list.set_map singletonD)
  then show ?thesis using assms by (auto simp: conformance_accepts)
qed

section \<open>Transport channels\<close>

datatype channel_error =
    Channel_same_domain
  | Channel_same_ros_domain
  | Channel_message_type_mismatch
  | Channel_type_hash_mismatch
  | Channel_span_names_equal
  | Channel_bad_timestamp string
  | Channel_not_after_start
  | Lost_exceeds_sent
  | Received_count_mismatch
  | Out_of_order_exceeds_matched
  | Passed_without_messages
  | Loss_ratio_mismatch

record channel_endpoint =
  ce_domain_id :: string
  ce_ros_domain_id :: int
  ce_message_type :: string
  ce_type_hash :: string

record transport_channel =
  tc_source :: channel_endpoint
  tc_destination :: channel_endpoint
  tc_producer_span_name :: string
  tc_consumer_span_name :: string

definition validate_transport_channel :: "transport_channel \<Rightarrow> channel_error option" where
  "validate_transport_channel d =
     (let source = tc_source d; destination = tc_destination d in first_error
      [require (ce_domain_id source \<noteq> ce_domain_id destination) Channel_same_domain,
       require (ce_ros_domain_id source \<noteq> ce_ros_domain_id destination) Channel_same_ros_domain,
       require (ce_message_type source = ce_message_type destination) Channel_message_type_mismatch,
       require (ce_type_hash source = ce_type_hash destination) Channel_type_hash_mismatch,
       require (tc_producer_span_name d \<noteq> tc_consumer_span_name d) Channel_span_names_equal])"

record channel_observation =
  co_started_at :: string
  co_finished_at :: string
  co_sent_count :: int
  co_received_count :: int
  co_lost_count :: int
  co_duplicate_count :: int
  co_out_of_order_count :: int
  co_loss_ratio :: rat
  co_status :: outcome

text \<open>\<open>lost / sent if sent else 0.0\<close>: true division rounds to a float once.\<close>

definition expected_loss_ratio :: "int \<Rightarrow> int \<Rightarrow> rat" where
  "expected_loss_ratio lost sent = (if sent \<noteq> 0 then fl (of_int lost / of_int sent) else 0)"

definition validate_transport_channel_observation :: "channel_observation \<Rightarrow> channel_error option" where
  "validate_transport_channel_observation d =
     with_key (Channel_bad_timestamp ''started_at'') (parse_timestamp (co_started_at d)) (\<lambda>started_at.
     with_key (Channel_bad_timestamp ''finished_at'') (parse_timestamp (co_finished_at d)) (\<lambda>finished_at.
     (let sent = co_sent_count d; received = co_received_count d; lost = co_lost_count d;
          duplicates = co_duplicate_count d;
          expected_ratio = expected_loss_ratio lost sent
      in first_error
       [require (started_at < finished_at) Channel_not_after_start,
        require (lost \<le> sent) Lost_exceeds_sent,
        require (received = sent - lost + duplicates) Received_count_mismatch,
        require (co_out_of_order_count d \<le> sent - lost) Out_of_order_exceeds_matched,
        require (\<not> (co_status d = Passed \<and> sent = 0)) Passed_without_messages,
        require (\<bar>fl (co_loss_ratio d - expected_ratio)\<bar> \<le> fl (1 / 10 ^ 12)) Loss_ratio_mismatch])))"

text \<open>
  An observation that reports the counters of a delivery honestly, with the float quotient as
  its loss ratio, is never rejected on its numbers: the validator accepts it exactly when the
  interval is positive and a passed verdict saw at least one message.
\<close>

theorem honest_channel_observation_accepted:
  assumes "parse_timestamp (co_started_at d) = Some t0"
    and "parse_timestamp (co_finished_at d) = Some t1"
    and "co_lost_count d \<le> co_sent_count d"
    and "co_received_count d = co_sent_count d - co_lost_count d + co_duplicate_count d"
    and "co_out_of_order_count d \<le> co_sent_count d - co_lost_count d"
    and "co_loss_ratio d = expected_loss_ratio (co_lost_count d) (co_sent_count d)"
  shows "validate_transport_channel_observation d = None \<longleftrightarrow>
     t0 < t1 \<and> (co_status d = Passed \<longrightarrow> co_sent_count d \<noteq> 0)"
proof -
  have "0 \<le> fl (1 / 10 ^ 12)" by (rule f64.nonneg) simp
  with assms show ?thesis
    by (auto simp: validate_transport_channel_observation_def Let_def)
qed

definition example_channel_observation :: channel_observation where
  "example_channel_observation =
     \<lparr>co_started_at = ''2024-05-01T10:00:00Z'', co_finished_at = ''2024-05-01T10:05:00Z'',
      co_sent_count = 3, co_received_count = 2, co_lost_count = 1, co_duplicate_count = 0,
      co_out_of_order_count = 1, co_loss_ratio = expected_loss_ratio 1 3, co_status = Failed\<rparr>"

theorem honest_channel_observation_accepted_witness:
  "validate_transport_channel_observation example_channel_observation = None"
  using honest_channel_observation_accepted [of example_channel_observation]
    example_result_instants
  by (simp add: example_channel_observation_def)

section \<open>Clock relations\<close>

datatype clock_violation = Insufficient_samples | Skew_exceeded | Invalid_clock_observation

datatype clock_error =
    Clock_same_domain
  | Clock_bad_timestamp string
  | Clock_not_after_start
  | Clock_status_contradicts

record clock_relation =
  cl_source_domain_id :: string
  cl_destination_domain_id :: string
  cl_started_at :: string
  cl_finished_at :: string
  cl_method :: clock_method
  cl_sample_count :: int
  cl_minimum_samples :: int
  cl_max_absolute_skew_ms :: rat
  cl_maximum_absolute_skew_ms :: rat
  cl_violations :: "clock_violation list"
  cl_status :: outcome

fun clock_status_code :: "clock_violation \<Rightarrow> violation_code" where
  "clock_status_code Insufficient_samples = Insufficient_messages"
| "clock_status_code Skew_exceeded = Clock_skew_exceeded"
| "clock_status_code Invalid_clock_observation = Invalid_observation"

definition expected_clock_violations :: "clock_relation \<Rightarrow> clock_violation set" where
  "expected_clock_violations d =
     (if cl_method d = Measured_skew then failing
        [(Insufficient_samples, cl_minimum_samples d \<le> cl_sample_count d),
         (Skew_exceeded, cl_max_absolute_skew_ms d \<le> cl_maximum_absolute_skew_ms d)]
      else {}) \<union>
     (if Invalid_clock_observation \<in> set (cl_violations d) then {Invalid_clock_observation} else {})"

definition validate_clock_relation :: "clock_relation \<Rightarrow> clock_error option" where
  "validate_clock_relation d = first_error
     [require (cl_source_domain_id d \<noteq> cl_destination_domain_id d) Clock_same_domain,
      with_key (Clock_bad_timestamp ''started_at'') (parse_timestamp (cl_started_at d)) (\<lambda>started.
      with_key (Clock_bad_timestamp ''finished_at'') (parse_timestamp (cl_finished_at d)) (\<lambda>finished.
      require (started < finished) Clock_not_after_start)),
      (let expected = expected_clock_violations d in
       require (set (cl_violations d) = expected \<and>
                cl_status d = channel_observation_status (clock_status_code ` expected))
         Clock_status_contradicts)]"

lemma clock_status_image:
  "channel_observation_status (clock_status_code ` vs) =
     (if vs = {} then Passed
      else if Invalid_clock_observation \<in> vs then Error
      else if Skew_exceeded \<in> vs then Failed else Incomplete)"
proof -
  have "vs \<in> Pow {Insufficient_samples, Skew_exceeded, Invalid_clock_observation}"
    using clock_violation.exhaust by blast
  then show ?thesis
    unfolding Pow_insert Pow_empty
    by (elim UnE imageE insertE emptyE)
      (simp_all add: channel_observation_status_def violation_classes)
qed

text \<open>
  An accepted clock relation by measured skew is passed only if enough samples were taken
  and the skew is within its policy; too few samples alone make it incomplete, an excessive
  skew failed, and only a reported invalid observation makes it an error.
\<close>

theorem accepted_clock_relation_status:
  assumes "validate_clock_relation d = None" and "cl_method d = Measured_skew"
  shows "cl_status d =
     (if Invalid_clock_observation \<in> set (cl_violations d) then Error
      else if cl_maximum_absolute_skew_ms d < cl_max_absolute_skew_ms d then Failed
      else if cl_sample_count d < cl_minimum_samples d then Incomplete
      else Passed)"
proof -
  let ?E = "expected_clock_violations d"
  have status: "cl_status d = channel_observation_status (clock_status_code ` ?E)"
    using assms(1) by (simp add: validate_clock_relation_def Let_def)
  have invalid: "Invalid_clock_observation \<in> ?E \<longleftrightarrow> Invalid_clock_observation \<in> set (cl_violations d)"
    and skew: "Skew_exceeded \<in> ?E \<longleftrightarrow> cl_maximum_absolute_skew_ms d < cl_max_absolute_skew_ms d"
    and samples: "Insufficient_samples \<in> ?E \<longleftrightarrow> cl_sample_count d < cl_minimum_samples d"
    using assms(2) by (auto simp: expected_clock_violations_def)
  have empty: "?E = {} \<longleftrightarrow> Insufficient_samples \<notin> ?E \<and> Skew_exceeded \<notin> ?E
      \<and> Invalid_clock_observation \<notin> ?E"
    by (metis all_not_in_conv clock_violation.exhaust)
  show ?thesis
    unfolding status clock_status_image empty by (simp add: invalid skew samples)
qed

definition example_clock_relation :: clock_relation where
  "example_clock_relation =
     \<lparr>cl_source_domain_id = ''a'', cl_destination_domain_id = ''b'',
      cl_started_at = ''2024-05-01T10:00:00Z'', cl_finished_at = ''2024-05-01T10:05:00Z'',
      cl_method = Measured_skew, cl_sample_count = 3, cl_minimum_samples = 5,
      cl_max_absolute_skew_ms = 1, cl_maximum_absolute_skew_ms = 2,
      cl_violations = [Insufficient_samples], cl_status = Incomplete\<rparr>"

theorem accepted_clock_relation_status_witness:
  "cl_status example_clock_relation =
     (if Invalid_clock_observation \<in> set (cl_violations example_clock_relation) then Error
      else if cl_maximum_absolute_skew_ms example_clock_relation
              < cl_max_absolute_skew_ms example_clock_relation then Failed
      else if cl_sample_count example_clock_relation < cl_minimum_samples example_clock_relation
      then Incomplete else Passed)"
  by (rule accepted_clock_relation_status)
    (simp_all add: validate_clock_relation_def example_clock_relation_def Let_def
      example_result_instants expected_clock_violations_def clock_status_image)

section \<open>Domain aggregates\<close>

datatype aggregate_error =
    Aggregate_domains_not_unique
  | Aggregate_results_not_unique
  | Aggregate_without_results
  | Aggregate_status_mismatch
  | Cross_domain_status_mismatch

record domain_row =
  dr_domain_id :: string
  dr_result_id :: string
  dr_status :: outcome

datatype cross_domain =
    Unevaluated_transport
  | Evaluated_transport (cross_status: outcome) (transport_status: outcome)

record acceptance_aggregate =
  ag_per_domain_results :: "domain_row list"
  ag_per_domain_aggregate :: outcome
  ag_cross_domain :: cross_domain

definition validate_acceptance_aggregate :: "acceptance_aggregate \<Rightarrow> aggregate_error option" where
  "validate_acceptance_aggregate d = first_error
     [require (unique_by dr_domain_id (ag_per_domain_results d)) Aggregate_domains_not_unique,
      require (unique_by dr_result_id (ag_per_domain_results d)) Aggregate_results_not_unique,
      (case worst_of (map dr_status (ag_per_domain_results d)) False of
         Inl _ \<Rightarrow> Some Aggregate_without_results
       | Inr expected \<Rightarrow> first_error
          [require (ag_per_domain_aggregate d = expected) Aggregate_status_mismatch,
           (case ag_cross_domain d of
              Unevaluated_transport \<Rightarrow> None
            | Evaluated_transport status qualification \<Rightarrow>
                require (Inr status = worst_of [expected, qualification] True)
                  Cross_domain_status_mismatch)])]"

definition domains_covered :: "acceptance_aggregate \<Rightarrow> bool" where
  "domains_covered d \<longleftrightarrow>
     (\<forall>r \<in> set (ag_per_domain_results d). dr_status r \<le> ag_per_domain_aggregate d) \<and>
     (\<forall>q. ag_cross_domain d = Evaluated_transport Passed q \<longrightarrow>
        q = Passed \<and> (\<forall>r \<in> set (ag_per_domain_results d). dr_status r = Passed))"

text \<open>
  An accepted aggregate reports a passed cross-domain verdict only when every domain result
  and the transport qualification passed, and no domain result is ever more severe than the
  domain aggregate.
\<close>

theorem accepted_aggregate_covers_domains:
  assumes "validate_acceptance_aggregate d = None"
  shows "domains_covered d"
proof -
  let ?s = "map dr_status (ag_per_domain_results d)"
  have ne: "?s \<noteq> []"
    using assms by (auto simp: validate_acceptance_aggregate_def)
  then have agg: "ag_per_domain_aggregate d = worst ?s"
    using assms by (auto simp: validate_acceptance_aggregate_def worst_of_worst)
  have le: "\<forall>r \<in> set (ag_per_domain_results d). dr_status r \<le> worst ?s"
    using worst_ge [of _ ?s] by auto
  have "q = Passed \<and> worst ?s = Passed" if c: "ag_cross_domain d = Evaluated_transport Passed q" for q
  proof -
    have "worst_of [worst ?s, q] True = Inr Passed"
      using assms c ne by (auto simp: validate_acceptance_aggregate_def worst_of_worst)
    then show ?thesis
      by (cases "worst ?s"; cases q) (simp_all add: worst_of_def)
  qed
  with le agg show ?thesis unfolding domains_covered_def by (metis le_Passed)
qed

definition example_aggregate :: acceptance_aggregate where
  "example_aggregate =
     \<lparr>ag_per_domain_results = [\<lparr>dr_domain_id = ''a'', dr_result_id = ''r'', dr_status = Passed\<rparr>],
      ag_per_domain_aggregate = Passed, ag_cross_domain = Evaluated_transport Passed Passed\<rparr>"

theorem accepted_aggregate_covers_domains_witness: "domains_covered example_aggregate"
  by (rule accepted_aggregate_covers_domains)
    (simp add: validate_acceptance_aggregate_def example_aggregate_def worst_of_def unique_by_distinct)

end
