(* ===== verification/Campaign.thy ===== *)
theory Campaign
  imports Sem_Documents "HOL-Library.List_Lexorder" "HOL-Library.Char_ord"
begin

text \<open>
  Campaign summaries: the rule that validates one (contracts/semantics.py,
  \<open>_validate_campaign_summary\<close>) and the harness operation that builds one from run contexts
  and run aggregates (harness/campaign.py, \<open>aggregate_campaign\<close>). Loading the documents and
  writing the result are file I/O: the producer starts from loaded documents, with their
  digests, and returns the document it would write.
\<close>

record campaign_policy =
  cp_minimum_passed_runs :: int
  cp_maximum_failed_runs :: int
  cp_maximum_incomplete_runs :: int
  cp_maximum_error_runs :: int

record campaign_run =
  ru_run_id :: string
  ru_acceptance_run_sha256 :: string
  ru_aggregate_sha256 :: string
  ru_parameters :: attributes
  ru_status :: outcome

record campaign_verdict =
  cv_status :: outcome
  cv_total_runs :: int
  cv_passed_runs :: int
  cv_failed_runs :: int
  cv_incomplete_runs :: int
  cv_error_runs :: int

record campaign_summary =
  cs_scenario_id :: string
  cs_scenario_sha256 :: string
  cs_runs :: "campaign_run list"
  cs_acceptance :: campaign_policy
  cs_verdict :: campaign_verdict

definition count_status :: "outcome \<Rightarrow> campaign_run list \<Rightarrow> int" where
  "count_status s runs = int (length (filter (\<lambda>r. ru_status r = s) runs))"

definition policy_passed :: "campaign_policy \<Rightarrow> campaign_run list \<Rightarrow> bool" where
  "policy_passed p runs \<longleftrightarrow>
     cp_minimum_passed_runs p \<le> count_status Passed runs
     \<and> count_status Failed runs \<le> cp_maximum_failed_runs p
     \<and> count_status Incomplete runs \<le> cp_maximum_incomplete_runs p
     \<and> count_status Error runs \<le> cp_maximum_error_runs p"

section \<open>The validator\<close>

datatype campaign_error =
    Run_ids_not_unique
  | Run_contexts_not_unique
  | Run_aggregates_not_unique
  | Verdict_count_mismatch string
  | Campaign_without_runs
  | Verdict_status_not_allowed

definition validate_campaign_counts :: "campaign_summary \<Rightarrow> campaign_error option" where
  "validate_campaign_counts d =
     (let runs = cs_runs d; v = cs_verdict d in first_error
       [require (cv_total_runs v = int (length runs)) (Verdict_count_mismatch ''total_runs''),
        require (cv_passed_runs v = count_status Passed runs) (Verdict_count_mismatch ''passed_runs''),
        require (cv_failed_runs v = count_status Failed runs) (Verdict_count_mismatch ''failed_runs''),
        require (cv_incomplete_runs v = count_status Incomplete runs)
          (Verdict_count_mismatch ''incomplete_runs''),
        require (cv_error_runs v = count_status Error runs) (Verdict_count_mismatch ''error_runs'')])"

definition allowed_statuses :: "campaign_summary \<Rightarrow> status_error + outcome list" where
  "allowed_statuses d =
     (let runs = cs_runs d; acceptance = cs_acceptance d; passed = policy_passed acceptance runs in
      and_then (if passed then Inr Passed else worst_of (map ru_status runs) False) (\<lambda>expected.
      let expected = (if expected = Passed \<and> \<not> passed then Failed else expected) in
      Inr (expected #
        (if count_status Passed runs < cp_minimum_passed_runs acceptance
            \<and> count_status Failed runs = count_status Error runs
            \<and> count_status Error runs = 0
         then [Incomplete] else []))))"

definition validate_campaign_summary :: "campaign_summary \<Rightarrow> campaign_error option" where
  "validate_campaign_summary d = first_error
     [require (unique_by ru_run_id (cs_runs d)) Run_ids_not_unique,
      require (unique_by ru_acceptance_run_sha256 (cs_runs d)) Run_contexts_not_unique,
      require (unique_by ru_aggregate_sha256 (cs_runs d)) Run_aggregates_not_unique,
      validate_campaign_counts d,
      (case allowed_statuses d of
         Inl _ \<Rightarrow> Some Campaign_without_runs
       | Inr statuses \<Rightarrow> require (cv_status (cs_verdict d) \<in> set statuses) Verdict_status_not_allowed)]"

section \<open>The producer\<close>

record loaded_scenario =
  lo_scenario_id :: string
  lo_scenario_sha256 :: string

record run_context =
  rx_run_id :: string
  rx_scenario_id :: string
  rx_scenario_sha256 :: string
  rx_sha256 :: string

record run_aggregate =
  ra_run_id :: string
  ra_acceptance_run_sha256 :: string
  ra_cross_status :: "outcome option"
  ra_per_domain_aggregate :: outcome
  ra_sha256 :: string

datatype bundle_error =
    No_aggregates
  | Context_ids_not_unique
  | Aggregate_ids_not_unique
  | Contexts_do_not_cover_runs
  | Unknown_parameter_runs
  | Run_of_another_scenario string
  | Aggregate_of_another_context string
  | Context_missing string

text \<open>An unevaluated cross-domain verdict has no status of its own (None).\<close>

definition run_status :: "run_aggregate \<Rightarrow> outcome" where
  "run_status a =
     (let status = (case ra_cross_status a of None \<Rightarrow> ra_per_domain_aggregate a | Some s \<Rightarrow> s) in
      if status \<in> {Passed, Failed, Incomplete, Error} then status else Incomplete)"

definition campaign_row ::
  "loaded_scenario \<Rightarrow> run_context list \<Rightarrow> (string \<times> attributes) list \<Rightarrow> run_aggregate
    \<Rightarrow> bundle_error + campaign_run" where
  "campaign_row scenario contexts parameters aggregate =
     (let run_id = ra_run_id aggregate in
      case dict_by rx_run_id contexts run_id of
        None \<Rightarrow> Inl (Context_missing run_id)
      | Some context \<Rightarrow>
          if rx_scenario_id context \<noteq> lo_scenario_id scenario
             \<or> rx_scenario_sha256 context \<noteq> lo_scenario_sha256 scenario
          then Inl (Run_of_another_scenario run_id)
          else if ra_acceptance_run_sha256 aggregate \<noteq> rx_sha256 context
          then Inl (Aggregate_of_another_context run_id)
          else Inr \<lparr>ru_run_id = run_id,
                    ru_acceptance_run_sha256 = rx_sha256 context,
                    ru_aggregate_sha256 = ra_sha256 aggregate,
                    ru_parameters =
                      (case map_of parameters run_id of None \<Rightarrow> [] | Some ps \<Rightarrow> ps),
                    ru_status = run_status aggregate\<rparr>)"

definition campaign_status :: "campaign_policy \<Rightarrow> campaign_run list \<Rightarrow> outcome" where
  "campaign_status p runs =
     (if policy_passed p runs then Passed
      else (case filter (\<lambda>s. count_status s runs \<noteq> 0) [Error, Failed, Incomplete] of
              [] \<Rightarrow> Incomplete | s # _ \<Rightarrow> s))"

definition aggregate_campaign ::
  "loaded_scenario \<Rightarrow> run_context list \<Rightarrow> run_aggregate list \<Rightarrow> campaign_policy
    \<Rightarrow> (string \<times> attributes) list \<Rightarrow> bundle_error + campaign_summary" where
  "aggregate_campaign scenario contexts aggregates policy parameters = checked
     (first_error
       [require (aggregates \<noteq> []) No_aggregates,
        require (unique_by rx_run_id contexts) Context_ids_not_unique,
        require (unique_by ra_run_id aggregates) Aggregate_ids_not_unique,
        require (rx_run_id ` set contexts = ra_run_id ` set aggregates) Contexts_do_not_cover_runs,
        require (fst ` set parameters \<subseteq> ra_run_id ` set aggregates) Unknown_parameter_runs])
     (and_then (map_res (campaign_row scenario contexts parameters) aggregates) (\<lambda>runs.
      Inr \<lparr>cs_scenario_id = lo_scenario_id scenario,
           cs_scenario_sha256 = lo_scenario_sha256 scenario,
           cs_runs = sort_key ru_run_id runs,
           cs_acceptance = policy,
           cs_verdict =
             \<lparr>cv_status = campaign_status policy runs,
              cv_total_runs = int (length runs),
              cv_passed_runs = count_status Passed runs,
              cv_failed_runs = count_status Failed runs,
              cv_incomplete_runs = count_status Incomplete runs,
              cv_error_runs = count_status Error runs\<rparr>\<rparr>))"

section \<open>Producer and validator agree\<close>

lemma count_status_sort [simp]: "count_status s (sort_key f runs) = count_status s runs"
  by (simp add: count_status_def filter_sort)

lemma policy_passed_sort [simp]: "policy_passed p (sort_key f runs) = policy_passed p runs"
  by (simp add: policy_passed_def)

lemma unique_by_sort [simp]: "unique_by g (sort_key f runs) = unique_by g runs"
  by (simp add: unique_by_def)

lemma distinct_map_sort [simp]: "distinct (map g (sort_key f runs)) = distinct (map g runs)"
  using unique_by_sort [of g f runs] by (simp add: unique_by_distinct)

lemma count_status_0: "count_status s runs = 0 \<longleftrightarrow> (\<forall>r \<in> set runs. ru_status r \<noteq> s)"
  by (auto simp: count_status_def filter_empty_conv)

lemma count_status_nonneg [simp]: "0 \<le> count_status s runs"
  by (simp add: count_status_def)

lemma run_status_range: "run_status a \<in> {Passed, Failed, Incomplete, Error}"
  by (auto simp: run_status_def Let_def)

definition row_matches :: "run_context list \<Rightarrow> run_aggregate \<Rightarrow> campaign_run \<Rightarrow> bool" where
  "row_matches contexts a r \<longleftrightarrow> ru_run_id r = ra_run_id a \<and> ru_aggregate_sha256 r = ra_sha256 a \<and>
     ru_status r = run_status a \<and>
     (\<exists>c \<in> set contexts. rx_run_id c = ra_run_id a \<and> ru_acceptance_run_sha256 r = rx_sha256 c)"

lemma campaign_row_matches:
  "campaign_row scenario contexts parameters a = Inr r \<Longrightarrow> row_matches contexts a r"
  by (auto simp: campaign_row_def row_matches_def Let_def split: option.splits if_splits
      dest!: dict_by_SomeD)

lemma rows_match:
  "map_res (campaign_row scenario contexts parameters) as = Inr rs \<Longrightarrow>
   list_all2 (row_matches contexts) as rs"
  by (auto simp: map_res_Inr campaign_row_matches elim: list_all2_mono)

lemma list_all2_map_eq:
  "list_all2 R xs ys \<Longrightarrow> (\<And>x y. R x y \<Longrightarrow> g y = f x) \<Longrightarrow> map g ys = map f xs"
  by (induction rule: list_all2_induct) auto

lemma rows_unique_contexts:
  assumes "list_all2 (row_matches contexts) as rs" and "distinct (map ra_run_id as)"
    and "unique_by rx_run_id contexts" and "unique_by rx_sha256 contexts"
  shows "distinct (map ru_acceptance_run_sha256 rs)"
proof -
  have ids: "map ru_run_id rs = map ra_run_id as"
    by (rule list_all2_map_eq [OF assms(1)]) (simp add: row_matches_def)
  have "inj_on ru_acceptance_run_sha256 (set rs)"
  proof (rule inj_onI)
    fix r s
    assume rs: "r \<in> set rs" "s \<in> set rs" "ru_acceptance_run_sha256 r = ru_acceptance_run_sha256 s"
    have "\<exists>c \<in> set contexts. rx_run_id c = ru_run_id x \<and> ru_acceptance_run_sha256 x = rx_sha256 c"
      if "x \<in> set rs" for x
      using assms(1) that by (fastforce simp: list_all2_conv_all_nth row_matches_def in_set_conv_nth)
    then obtain c e where "c \<in> set contexts" "e \<in> set contexts" "rx_run_id c = ru_run_id r"
      "rx_run_id e = ru_run_id s" "rx_sha256 c = rx_sha256 e"
      using rs by metis
    then have "ru_run_id r = ru_run_id s"
      using unique_by_eqD [OF assms(4)] by metis
    with rs assms(2) show "r = s"
      unfolding ids [symmetric] by (auto simp: distinct_map dest: inj_onD)
  qed
  moreover have "distinct rs" using assms(2) by (simp add: distinct_map flip: ids)
  ultimately show ?thesis by (simp add: distinct_map)
qed

lemma campaign_status_allowed:
  assumes "runs \<noteq> []" and "\<forall>r \<in> set runs. ru_status r \<in> {Passed, Failed, Incomplete, Error}"
    and "0 \<le> cp_maximum_failed_runs p" "0 \<le> cp_maximum_incomplete_runs p" "0 \<le> cp_maximum_error_runs p"
    and "cs_runs d = sort_key ru_run_id runs" and "cs_acceptance d = p"
  shows "\<exists>ss. allowed_statuses d = Inr ss \<and> campaign_status p runs \<in> set ss"
proof (cases "policy_passed p runs")
  case True
  with assms(6,7) show ?thesis
    by (simp add: allowed_statuses_def campaign_status_def Let_def)
next
  case False
  let ?S = "ru_status ` set runs"
  have w: "worst_of (map ru_status (sort_key ru_run_id runs)) False = Inr (Max ?S)"
  proof -
    have "map ru_status (sort_key ru_run_id runs) \<noteq> []"
      using assms(1) by (metis map_is_Nil_conv set_empty set_sort)
    then show ?thesis by (simp add: worst_of_worst worst_Max)
  qed
  have in_S: "Max ?S \<in> ?S" and le: "s \<in> ?S \<Longrightarrow> s \<le> Max ?S" for s
    using assms(1) by auto
  have c: "count_status s runs \<noteq> 0 \<longleftrightarrow> s \<in> ?S" for s
    by (auto simp: count_status_0)
  have rest: "?S = {Passed}" if "Error \<notin> ?S" "Failed \<notin> ?S" "Incomplete \<notin> ?S"
  proof -
    have "ru_status r = Passed" if r: "r \<in> set runs" for r
      using bspec [OF assms(2) r] imageI [OF r, of ru_status] \<open>Error \<notin> ?S\<close> \<open>Failed \<notin> ?S\<close>
        \<open>Incomplete \<notin> ?S\<close> by (metis empty_iff insert_iff)
    then have "?S \<subseteq> {Passed}" by blast
    with assms(1) show ?thesis by (metis image_is_empty set_empty subset_singletonD)
  qed
  consider "Error \<in> ?S" | "Error \<notin> ?S" "Failed \<in> ?S"
    | "Error \<notin> ?S" "Failed \<notin> ?S" "Incomplete \<in> ?S" | "?S = {Passed}"
    using rest by metis
  then show ?thesis
  proof cases
    case 1
    then have "Max ?S = Error" using le [OF 1] by (simp add: less_eq_outcome_def) (cases "Max ?S"; simp)
    with 1 False w assms(6,7) show ?thesis
      by (simp add: allowed_statuses_def campaign_status_def Let_def c)
  next
    case 2
    then have "Max ?S = Failed" using le [OF 2(2)] in_S assms(2)
      by (cases "Max ?S") (auto simp: less_eq_outcome_def)
    with 2 False w assms(6,7) show ?thesis
      by (simp add: allowed_statuses_def campaign_status_def Let_def c)
  next
    case 3
    then have "Max ?S = Incomplete" using le [OF 3(3)] in_S assms(2)
      by (cases "Max ?S") (auto simp: less_eq_outcome_def)
    with 3 False w assms(6,7) show ?thesis
      by (simp add: allowed_statuses_def campaign_status_def Let_def c)
  next
    case 4
    then have z: "count_status Failed runs = 0" "count_status Incomplete runs = 0"
      "count_status Error runs = 0"
      using c by auto
    with False assms(3-5) have "count_status Passed runs < cp_minimum_passed_runs p"
      by (simp add: policy_passed_def)
    with 4 z False w assms(6,7) show ?thesis
      by (simp add: allowed_statuses_def campaign_status_def Let_def)
  qed
qed

text \<open>
  C16: Every campaign summary that the harness produces is accepted by the contract's validator,
  for all inputs whose contexts and aggregates are distinct files and whose limits are not
  negative: its counts agree with its runs and its verdict is one the policy allows.
\<close>

theorem produced_campaign_is_valid:
  assumes "aggregate_campaign scenario contexts aggregates policy parameters = Inr d"
    and "distinct (map rx_sha256 contexts)" and "distinct (map ra_sha256 aggregates)"
    and "0 \<le> cp_maximum_failed_runs policy" "0 \<le> cp_maximum_incomplete_runs policy"
      "0 \<le> cp_maximum_error_runs policy"
  shows "validate_campaign_summary d = None"
proof -
  obtain runs where rows: "map_res (campaign_row scenario contexts parameters) aggregates = Inr runs"
    and ne: "aggregates \<noteq> []" and uc: "unique_by rx_run_id contexts"
    and ua: "unique_by ra_run_id aggregates"
    and d: "cs_runs d = sort_key ru_run_id runs" "cs_acceptance d = policy"
      "cs_verdict d = \<lparr>cv_status = campaign_status policy runs, cv_total_runs = int (length runs),
         cv_passed_runs = count_status Passed runs, cv_failed_runs = count_status Failed runs,
         cv_incomplete_runs = count_status Incomplete runs,
         cv_error_runs = count_status Error runs\<rparr>"
    using assms(1) by (auto simp: aggregate_campaign_def checked_Inr)
  note m = rows_match [OF rows]
  have ids: "map ru_run_id runs = map ra_run_id aggregates"
    "map ru_aggregate_sha256 runs = map ra_sha256 aggregates"
    by (rule list_all2_map_eq [OF m]; simp add: row_matches_def)+
  have st: "\<forall>r \<in> set runs. ru_status r \<in> {Passed, Failed, Incomplete, Error}"
    using m run_status_range by (fastforce simp: list_all2_conv_all_nth row_matches_def in_set_conv_nth)
  have "runs \<noteq> []" using ne m by auto
  from campaign_status_allowed [OF this st assms(4-6) d(1,2)]
  obtain ss where "allowed_statuses d = Inr ss" "campaign_status policy runs \<in> set ss" by blast
  then show ?thesis
    using rows_unique_contexts [OF m _ uc] ua ids assms(2,3)
    by (simp add: validate_campaign_summary_def validate_campaign_counts_def d unique_by_distinct)
qed

theorem produced_campaign_is_valid_witness:
  "\<exists>d. aggregate_campaign \<lparr>lo_scenario_id = ''s'', lo_scenario_sha256 = ''h''\<rparr>
      [\<lparr>rx_run_id = ''b'', rx_scenario_id = ''s'', rx_scenario_sha256 = ''h'', rx_sha256 = ''cb''\<rparr>,
       \<lparr>rx_run_id = ''a'', rx_scenario_id = ''s'', rx_scenario_sha256 = ''h'', rx_sha256 = ''ca''\<rparr>]
      [\<lparr>ra_run_id = ''a'', ra_acceptance_run_sha256 = ''ca'', ra_cross_status = Some Passed,
        ra_per_domain_aggregate = Passed, ra_sha256 = ''aa''\<rparr>,
       \<lparr>ra_run_id = ''b'', ra_acceptance_run_sha256 = ''cb'', ra_cross_status = None,
        ra_per_domain_aggregate = Cancelled, ra_sha256 = ''ab''\<rparr>]
      \<lparr>cp_minimum_passed_runs = 2, cp_maximum_failed_runs = 0, cp_maximum_incomplete_runs = 0,
       cp_maximum_error_runs = 0\<rparr> [] = Inr d \<and> validate_campaign_summary d = None"
  (is "\<exists>d. ?lhs = Inr d \<and> _")
proof -
  have "\<exists>d. ?lhs = Inr d"
    by (simp add: aggregate_campaign_def unique_by_distinct campaign_row_def dict_by_def insert_commute
        Let_def)
  then obtain d where d: "?lhs = Inr d" by blast
  then show ?thesis
    using produced_campaign_is_valid [OF d] by (intro exI [of _ d]) simp
qed

text \<open>
  The verdict of an accepted campaign summary is sound: a passed verdict satisfies the
  acceptance policy on the runs the summary lists.
\<close>

theorem passed_campaign_meets_policy:
  assumes "validate_campaign_summary d = None" and "cv_status (cs_verdict d) = Passed"
  shows "policy_passed (cs_acceptance d) (cs_runs d)"
proof (rule ccontr)
  assume "\<not> ?thesis"
  with assms show False
    by (auto simp: validate_campaign_summary_def allowed_statuses_def Let_def
        split: sum.splits if_splits)
qed

theorem passed_campaign_meets_policy_witness:
  "policy_passed \<lparr>cp_minimum_passed_runs = 1, cp_maximum_failed_runs = 0,
      cp_maximum_incomplete_runs = 0, cp_maximum_error_runs = 0\<rparr>
     [\<lparr>ru_run_id = ''a'', ru_acceptance_run_sha256 = ''c'', ru_aggregate_sha256 = ''g'',
       ru_parameters = [], ru_status = Passed\<rparr>]"
  using passed_campaign_meets_policy [of "\<lparr>cs_scenario_id = ''s'', cs_scenario_sha256 = ''h'',
      cs_runs = [\<lparr>ru_run_id = ''a'', ru_acceptance_run_sha256 = ''c'', ru_aggregate_sha256 = ''g'',
       ru_parameters = [], ru_status = Passed\<rparr>],
      cs_acceptance = \<lparr>cp_minimum_passed_runs = 1, cp_maximum_failed_runs = 0,
        cp_maximum_incomplete_runs = 0, cp_maximum_error_runs = 0\<rparr>,
      cs_verdict = \<lparr>cv_status = Passed, cv_total_runs = 1, cv_passed_runs = 1, cv_failed_runs = 0,
        cv_incomplete_runs = 0, cv_error_runs = 0\<rparr>\<rparr>"]
  by (simp add: validate_campaign_summary_def validate_campaign_counts_def allowed_statuses_def
      policy_passed_def count_status_def unique_by_distinct Let_def)

end
