(* ===== verification/Sem_Transport.thy ===== *)
theory Sem_Transport
  imports Status
begin

text \<open>
  The cross-field rules of a transport qualification result (contracts/semantics.py,
  \<open>_validate_transport_qualification\<close>): channel contracts between domains, clock relations,
  channel observations, causal chains with their hops, and the verdict over all of them.
\<close>

datatype relationship = Link | Parent

record channel_contract =
  cn_channel_id :: string
  cn_source_domain_id :: string
  cn_destination_domain_id :: string

record clock_row =
  ck_relation_id :: string
  ck_source_domain_id :: string
  ck_destination_domain_id :: string
  ck_status :: outcome

record observation_row =
  ob_channel_id :: string
  ob_status :: outcome

record span_reference =
  sp_domain_id :: string
  sp_trace_id :: string
  sp_span_id :: string
  sp_message_id :: string

record hop =
  hp_channel_id :: string
  hp_status :: outcome
  hp_relationship :: relationship
  hp_producer :: span_reference
  hp_consumer :: span_reference

record chain_contract =
  xc_chain_id :: string
  xc_sha256 :: string

record chain_result =
  ch_chain_id :: string
  ch_channel_ids :: "string list"
  ch_expected_contract_sha256 :: string
  ch_hops :: "hop list"
  ch_status :: outcome
  ch_trace_ids :: "string list"
  ch_root_trace_id :: string

record transport_verdict =
  tv_chain_count :: int
  tv_passed_chain_count :: int
  tv_failed_chain_count :: int
  tv_incomplete_chain_count :: int
  tv_error_chain_count :: int
  tv_status :: outcome

record transport_result =
  tq_trace_domains :: "string list"
  tq_contracts :: "channel_contract list"
  tq_clock_relations :: "clock_row list"
  tq_observations :: "observation_row list"
  tq_chains :: "chain_result list"
  tq_chain_contracts :: "chain_contract list"
  tq_verdict :: transport_verdict

datatype transport_error =
    Trace_domains_not_unique
  | Trace_evidence_incomplete
  | Contract_ids_not_unique
  | Contract_domains_equal nat
  | Relation_ids_not_unique
  | Relation_pairs_not_unique
  | Relation_outside_channels
  | Observation_channels_not_unique
  | Observations_incomplete
  | Chain_ids_not_unique
  | Chain_contract_ids_not_unique
  | Chains_incomplete
  | Chain_unknown_channels nat
  | Chain_contract_missing nat
  | Chain_contract_sha256_mismatch nat
  | Chain_not_contiguous nat nat
  | Hop_unknown_channel nat nat
  | Hop_channels_not_unique nat
  | Passed_hops_not_ordered nat
  | Passed_with_failed_hop nat
  | Root_trace_not_listed nat
  | Trace_ids_mismatch nat
  | Hop_unknown_domains nat nat
  | Hop_same_domain nat nat
  | Hop_direction_mismatch nat nat
  | Hop_transition_duplicated nat nat
  | Hop_same_span nat nat
  | Hop_message_mismatch nat nat
  | Hop_parent_trace_mismatch nat nat
  | Channels_not_covered
  | Verdict_chain_count
  | Verdict_passed_count
  | Verdict_failed_count
  | Verdict_incomplete_count
  | Verdict_error_count
  | Verdict_status_mismatch

section \<open>Chains and hops\<close>

definition span_key :: "span_reference \<Rightarrow> string \<times> string" where
  "span_key s = (sp_trace_id s, sp_span_id s)"

definition transition_id :: "hop \<Rightarrow> (string \<times> string) \<times> (string \<times> string)" where
  "transition_id h = (span_key (hp_producer h), span_key (hp_consumer h))"

text \<open>One hop of a passed chain: the checks before and after the duplicate test.\<close>

definition check_hop_domains ::
  "string set \<Rightarrow> channel_contract option \<Rightarrow> nat \<Rightarrow> nat \<Rightarrow> hop \<Rightarrow> transport_error option" where
  "check_hop_domains domains contract ci hi h =
     (let producer = sp_domain_id (hp_producer h); consumer = sp_domain_id (hp_consumer h) in
      with_key (Hop_unknown_channel ci hi) contract (\<lambda>c. first_error
       [require ({producer, consumer} \<subseteq> domains) (Hop_unknown_domains ci hi),
        require (producer \<noteq> consumer) (Hop_same_domain ci hi),
        require (\<not> (producer \<noteq> cn_source_domain_id c \<or> consumer \<noteq> cn_destination_domain_id c))
          (Hop_direction_mismatch ci hi)]))"

definition check_hop_spans :: "nat \<Rightarrow> nat \<Rightarrow> hop \<Rightarrow> transport_error option" where
  "check_hop_spans ci hi h = first_error
     [require (span_key (hp_producer h) \<noteq> span_key (hp_consumer h)) (Hop_same_span ci hi),
      require (sp_message_id (hp_producer h) = sp_message_id (hp_consumer h))
        (Hop_message_mismatch ci hi),
      require (\<not> (hp_relationship h = Parent \<and>
                  sp_trace_id (hp_producer h) \<noteq> sp_trace_id (hp_consumer h)))
        (Hop_parent_trace_mismatch ci hi)]"

fun check_hops ::
  "string set \<Rightarrow> (string \<Rightarrow> channel_contract option) \<Rightarrow> nat \<Rightarrow> nat
    \<Rightarrow> ((string \<times> string) \<times> (string \<times> string)) list \<Rightarrow> hop list \<Rightarrow> transport_error option" where
  "check_hops domains contract_by_id ci hi seen [] = None"
| "check_hops domains contract_by_id ci hi seen (h # hs) = first_error
     [check_hop_domains domains (contract_by_id (hp_channel_id h)) ci hi h,
      require (transition_id h \<notin> set seen) (Hop_transition_duplicated ci hi),
      check_hop_spans ci hi h,
      check_hops domains contract_by_id ci (Suc hi) (transition_id h # seen) hs]"

definition hop_trace_ids :: "chain_result \<Rightarrow> string set" where
  "hop_trace_ids chain =
     (\<Union>h \<in> set (ch_hops chain). {sp_trace_id (hp_producer h), sp_trace_id (hp_consumer h)})"

definition check_passed_chain ::
  "string set \<Rightarrow> (string \<Rightarrow> channel_contract option) \<Rightarrow> nat \<Rightarrow> chain_result \<Rightarrow> transport_error option"
where
  "check_passed_chain domains contract_by_id ci chain = first_error
     [require (ch_root_trace_id chain \<in> set (ch_trace_ids chain)) (Root_trace_not_listed ci),
      require (hop_trace_ids chain = set (ch_trace_ids chain)) (Trace_ids_mismatch ci),
      check_hops domains contract_by_id ci 0 [] (ch_hops chain)]"

definition check_continuity ::
  "(string \<Rightarrow> channel_contract option) \<Rightarrow> nat \<Rightarrow> string list \<Rightarrow> transport_error option" where
  "check_continuity contract_by_id ci channel_ids =
     each_from 1 (\<lambda>k (previous_id, channel_id).
       with_key (Chain_unknown_channels ci) (contract_by_id previous_id) (\<lambda>previous.
       with_key (Chain_unknown_channels ci) (contract_by_id channel_id) (\<lambda>current.
       require (cn_destination_domain_id previous = cn_source_domain_id current)
         (Chain_not_contiguous ci k))))
     (zip channel_ids (tl channel_ids))"

definition check_chain ::
  "string set \<Rightarrow> string set \<Rightarrow> (string \<Rightarrow> channel_contract option)
    \<Rightarrow> (string \<Rightarrow> chain_contract option) \<Rightarrow> nat \<Rightarrow> chain_result \<Rightarrow> transport_error option" where
  "check_chain domains contract_ids contract_by_id chain_contract_by_id ci chain =
     (let hop_ids = map hp_channel_id (ch_hops chain) in first_error
      [require (set (ch_channel_ids chain) \<subseteq> contract_ids) (Chain_unknown_channels ci),
       with_key (Chain_contract_missing ci) (chain_contract_by_id (ch_chain_id chain)) (\<lambda>expected.
         require (ch_expected_contract_sha256 chain = xc_sha256 expected)
           (Chain_contract_sha256_mismatch ci)),
       check_continuity contract_by_id ci (ch_channel_ids chain),
       each (\<lambda>hi hop_id. require (hop_id \<in> contract_ids) (Hop_unknown_channel ci hi)) hop_ids,
       require (unique_by id hop_ids) (Hop_channels_not_unique ci),
       require (\<not> (ch_status chain = Passed \<and> hop_ids \<noteq> ch_channel_ids chain))
         (Passed_hops_not_ordered ci),
       require (\<not> ((\<exists>h \<in> set (ch_hops chain). hp_status h \<noteq> Passed) \<and> ch_status chain = Passed))
         (Passed_with_failed_hop ci),
       when_check (ch_status chain = Passed)
         (check_passed_chain domains contract_by_id ci chain)])"

section \<open>The whole result\<close>

definition count_chains :: "outcome \<Rightarrow> chain_result list \<Rightarrow> int" where
  "count_chains s rows = int (length (filter (\<lambda>c. ch_status c = s) rows))"

definition contract_pair :: "channel_contract \<Rightarrow> string \<times> string" where
  "contract_pair c = (cn_source_domain_id c, cn_destination_domain_id c)"

definition relation_pair :: "clock_row \<Rightarrow> string \<times> string" where
  "relation_pair r = (ck_source_domain_id r, ck_destination_domain_id r)"

definition result_domains :: "transport_result \<Rightarrow> string set" where
  "result_domains d =
     (\<Union>c \<in> set (tq_contracts d). {cn_source_domain_id c, cn_destination_domain_id c})"

definition validate_verdict :: "transport_result \<Rightarrow> transport_error option" where
  "validate_verdict d =
     (let v = tq_verdict d; rows = tq_chains d;
          missing = relation_pair ` set (tq_clock_relations d) \<noteq> contract_pair ` set (tq_contracts d)
      in first_error
       [require (tv_chain_count v = int (length rows)) Verdict_chain_count,
        require (tv_passed_chain_count v = count_chains Passed rows) Verdict_passed_count,
        require (tv_failed_chain_count v = count_chains Failed rows) Verdict_failed_count,
        require (tv_incomplete_chain_count v = count_chains Incomplete rows)
          Verdict_incomplete_count,
        require (tv_error_chain_count v = count_chains Error rows) Verdict_error_count,
        require (worst_of (Passed # (if missing then [Incomplete] else [])
                   @ map ck_status (tq_clock_relations d)
                   @ map ob_status (tq_observations d)
                   @ map ch_status rows) True = Inr (tv_status v))
          Verdict_status_mismatch])"

definition validate_transport_qualification :: "transport_result \<Rightarrow> transport_error option" where
  "validate_transport_qualification d =
     (let contracts = tq_contracts d;
          domains = result_domains d;
          contract_ids = cn_channel_id ` set contracts;
          contract_by_id = dict_by cn_channel_id contracts;
          relations = tq_clock_relations d;
          rows = tq_chains d;
          chain_contract_by_id = dict_by xc_chain_id (tq_chain_contracts d)
      in first_error
       [require (unique_by id (tq_trace_domains d)) Trace_domains_not_unique,
        require (set (tq_trace_domains d) = domains) Trace_evidence_incomplete,
        require (unique_by cn_channel_id contracts) Contract_ids_not_unique,
        each (\<lambda>i c. require (cn_source_domain_id c \<noteq> cn_destination_domain_id c)
                (Contract_domains_equal i)) contracts,
        require (unique_by ck_relation_id relations) Relation_ids_not_unique,
        require (unique_by relation_pair relations) Relation_pairs_not_unique,
        require (relation_pair ` set relations \<subseteq> contract_pair ` set contracts)
          Relation_outside_channels,
        require (unique_by ob_channel_id (tq_observations d)) Observation_channels_not_unique,
        require (ob_channel_id ` set (tq_observations d) = contract_ids) Observations_incomplete,
        require (unique_by ch_chain_id rows) Chain_ids_not_unique,
        require (unique_by xc_chain_id (tq_chain_contracts d)) Chain_contract_ids_not_unique,
        require (ch_chain_id ` set rows = xc_chain_id ` set (tq_chain_contracts d))
          Chains_incomplete,
        each (check_chain domains contract_ids contract_by_id chain_contract_by_id) rows,
        require ((\<Union>c \<in> set rows. set (ch_channel_ids c)) = contract_ids) Channels_not_covered,
        validate_verdict d])"

section \<open>What acceptance means\<close>

definition hop_sound :: "channel_contract \<Rightarrow> hop \<Rightarrow> bool" where
  "hop_sound c h \<longleftrightarrow>
     sp_domain_id (hp_producer h) = cn_source_domain_id c \<and>
     sp_domain_id (hp_consumer h) = cn_destination_domain_id c \<and>
     sp_message_id (hp_producer h) = sp_message_id (hp_consumer h) \<and>
     span_key (hp_producer h) \<noteq> span_key (hp_consumer h) \<and>
     (hp_relationship h = Parent \<longrightarrow> sp_trace_id (hp_producer h) = sp_trace_id (hp_consumer h))"

lemma check_hops_accepts:
  assumes "check_hops domains by_id ci hi seen hs = None" and "h \<in> set hs"
  shows "\<exists>c. by_id (hp_channel_id h) = Some c \<and>
     sp_domain_id (hp_producer h) = cn_source_domain_id c \<and>
     sp_domain_id (hp_consumer h) = cn_destination_domain_id c \<and>
     sp_message_id (hp_producer h) = sp_message_id (hp_consumer h) \<and>
     span_key (hp_producer h) \<noteq> span_key (hp_consumer h) \<and>
     (hp_relationship h = Parent \<longrightarrow> sp_trace_id (hp_producer h) = sp_trace_id (hp_consumer h))"
  using assms
proof (induction hs arbitrary: hi seen)
  case (Cons x hs)
  show ?case
  proof (cases "h = x")
    case True
    with Cons.prems show ?thesis
      by (auto simp: check_hop_domains_def check_hop_spans_def Let_def)
  next
    case False
    with Cons.prems show ?thesis by (intro Cons.IH) auto
  qed
qed simp

lemma check_hops_transitions:
  "check_hops domains by_id ci hi seen hs = None \<Longrightarrow>
     distinct (map transition_id hs) \<and> set (map transition_id hs) \<inter> set seen = {}"
proof (induction hs arbitrary: hi seen)
  case (Cons h hs)
  from Cons.prems have "check_hops domains by_id ci (Suc hi) (transition_id h # seen) hs = None"
    and fresh: "transition_id h \<notin> set seen" by simp_all
  from Cons.IH [OF this(1)] fresh show ?case by auto
qed simp

definition contiguous :: "channel_contract list \<Rightarrow> bool" where
  "contiguous cs \<longleftrightarrow>
     (\<forall>i. Suc i < length cs \<longrightarrow> cn_destination_domain_id (cs ! i) = cn_source_domain_id (cs ! Suc i))"

text \<open>
  A sound chain: its channels are known contracts that continue from domain to domain, and
  there is one sound hop per channel, in order, with no span transition used twice.
\<close>

definition chain_sound :: "transport_result \<Rightarrow> chain_result \<Rightarrow> bool" where
  "chain_sound d chain \<longleftrightarrow>
     (\<exists>cs. set cs \<subseteq> set (tq_contracts d) \<and> map cn_channel_id cs = ch_channel_ids chain \<and>
        contiguous cs \<and>
        list_all2 (\<lambda>c h. hp_status h = Passed \<and> hp_channel_id h = cn_channel_id c \<and> hop_sound c h) cs (ch_hops chain)) \<and>
     distinct (map transition_id (ch_hops chain)) \<and>
     ch_root_trace_id chain \<in> hop_trace_ids chain \<and>
     hop_trace_ids chain = set (ch_trace_ids chain)"

lemma check_chain_sound:
  assumes u: "unique_by cn_channel_id (tq_contracts d)"
    and ok: "check_chain domains (cn_channel_id ` set (tq_contracts d))
       (dict_by cn_channel_id (tq_contracts d)) xs ci chain = None"
    and p: "ch_status chain = Passed"
  shows "chain_sound d chain"
proof -
  let ?by = "dict_by cn_channel_id (tq_contracts d)"
  have sub: "set (ch_channel_ids chain) \<subseteq> cn_channel_id ` set (tq_contracts d)"
    and cont: "check_continuity ?by ci (ch_channel_ids chain) = None"
    and ids: "map hp_channel_id (ch_hops chain) = ch_channel_ids chain"
    and st: "\<forall>h \<in> set (ch_hops chain). hp_status h = Passed"
    and root: "ch_root_trace_id chain \<in> set (ch_trace_ids chain)"
    and tr: "hop_trace_ids chain = set (ch_trace_ids chain)"
    and hops: "check_hops domains ?by ci 0 [] (ch_hops chain) = None"
    using ok p by (auto simp: check_chain_def check_passed_chain_def Let_def)
  define cs where "cs = map (\<lambda>i. the (?by i)) (ch_channel_ids chain)"
  have known_id: "\<exists>c. ?by i = Some c" if "i \<in> set (ch_channel_ids chain)" for i
    using sub that dict_by_None [of cn_channel_id "tq_contracts d" i] by auto
  have nth: "?by (ch_channel_ids chain ! k) = Some (cs ! k)" if "k < length (ch_channel_ids chain)" for k
    using known_id [of "ch_channel_ids chain ! k"] that by (auto simp: cs_def)
  have len: "length cs = length (ch_channel_ids chain)" by (simp add: cs_def)
  have known: "set cs \<subseteq> set (tq_contracts d)"
  proof
    fix c
    assume "c \<in> set cs"
    then obtain k where "k < length cs" "c = cs ! k" by (metis in_set_conv_nth)
    with nth len show "c \<in> set (tq_contracts d)" by (metis dict_by_SomeD)
  qed
  have names: "map cn_channel_id cs = ch_channel_ids chain"
    using nth dict_by_SomeD by (intro nth_equalityI) (fastforce simp: len)+
  have con: "contiguous cs"
    unfolding contiguous_def
  proof (intro allI impI)
    fix i
    assume i: "Suc i < length cs"
    then have "i < length (zip (ch_channel_ids chain) (tl (ch_channel_ids chain)))"
      by (simp add: len)
    with cont i show "cn_destination_domain_id (cs ! i) = cn_source_domain_id (cs ! Suc i)"
      using nth [of i] nth [of "Suc i"]
      by (fastforce simp: check_continuity_def each_from_None len nth_tl)
  qed
  have lh: "length (ch_hops chain) = length cs" using ids len by (metis length_map)
  have all: "list_all2 (\<lambda>c h. hp_status h = Passed \<and> hp_channel_id h = cn_channel_id c \<and> hop_sound c h) cs (ch_hops chain)"
  proof (rule list_all2_all_nthI)
    show "length cs = length (ch_hops chain)" by (simp add: lh)
    fix n
    assume n: "n < length cs"
    then have mem: "ch_hops chain ! n \<in> set (ch_hops chain)" by (simp add: lh)
    have "hp_channel_id (ch_hops chain ! n) = ch_channel_ids chain ! n"
      using n lh ids by (metis nth_map)
    with check_hops_accepts [OF hops mem] nth [of n] n len st mem
    show "hp_status (ch_hops chain ! n) = Passed \<and>
        hp_channel_id (ch_hops chain ! n) = cn_channel_id (cs ! n) \<and>
        hop_sound (cs ! n) (ch_hops chain ! n)"
      by (auto simp: hop_sound_def dest: dict_by_SomeD)
  qed
  show ?thesis
    unfolding chain_sound_def
    using known names con all check_hops_transitions [OF hops] root tr by blast
qed

lemma transport_parts:
  assumes "validate_transport_qualification d = None"
  shows "unique_by cn_channel_id (tq_contracts d)"
    and "each (check_chain (result_domains d) (cn_channel_id ` set (tq_contracts d))
          (dict_by cn_channel_id (tq_contracts d)) (dict_by xc_chain_id (tq_chain_contracts d)))
          (tq_chains d) = None"
    and "(\<Union>c \<in> set (tq_chains d). set (ch_channel_ids c)) = cn_channel_id ` set (tq_contracts d)"
    and "ob_channel_id ` set (tq_observations d) = cn_channel_id ` set (tq_contracts d)"
    and "validate_verdict d = None"
  using assms by (simp_all add: validate_transport_qualification_def Let_def)

lemma collapsed_Passed: "worst_of ss True = Inr Passed \<Longrightarrow> \<forall>s \<in> set ss. s = Passed"
  by (cases "ss = []") (auto simp: worst_of_collapse split: if_splits dest: worst_ge)

lemma verdict_passed:
  assumes "validate_verdict d = None" and "tv_status (tq_verdict d) = Passed"
  shows "relation_pair ` set (tq_clock_relations d) = contract_pair ` set (tq_contracts d)"
    and "\<forall>r \<in> set (tq_clock_relations d). ck_status r = Passed"
    and "\<forall>r \<in> set (tq_observations d). ob_status r = Passed"
    and "\<forall>r \<in> set (tq_chains d). ch_status r = Passed"
proof -
  let ?missing = "relation_pair ` set (tq_clock_relations d) \<noteq> contract_pair ` set (tq_contracts d)"
  have "worst_of (Passed # (if ?missing then [Incomplete] else [])
      @ map ck_status (tq_clock_relations d) @ map ob_status (tq_observations d)
      @ map ch_status (tq_chains d)) True = Inr Passed"
    using assms by (simp add: validate_verdict_def Let_def)
  from collapsed_Passed [OF this]
  have all: "s = Passed" if "s \<in> set ((if ?missing then [Incomplete] else [])
      @ map ck_status (tq_clock_relations d) @ map ob_status (tq_observations d)
      @ map ch_status (tq_chains d))" for s
    using that by simp
  show "relation_pair ` set (tq_clock_relations d) = contract_pair ` set (tq_contracts d)"
    by (rule ccontr) (use all [of Incomplete] in simp)
  show "\<forall>r \<in> set (tq_clock_relations d). ck_status r = Passed"
    "\<forall>r \<in> set (tq_observations d). ob_status r = Passed"
    "\<forall>r \<in> set (tq_chains d). ch_status r = Passed"
    using all by auto
qed

text \<open>What a consumer of a passed transport verdict may rely on.\<close>

definition transport_guarantees :: "transport_result \<Rightarrow> bool" where
  "transport_guarantees d \<longleftrightarrow>
     (\<forall>chain \<in> set (tq_chains d). chain_sound d chain) \<and>
     (\<forall>c \<in> set (tq_contracts d). \<exists>chain \<in> set (tq_chains d). \<exists>h \<in> set (ch_hops chain).
        hp_channel_id h = cn_channel_id c \<and> hop_sound c h) \<and>
     (\<forall>c \<in> set (tq_contracts d). \<exists>r \<in> set (tq_clock_relations d).
        relation_pair r = contract_pair c \<and> ck_status r = Passed) \<and>
     (\<forall>c \<in> set (tq_contracts d). \<exists>r \<in> set (tq_observations d).
        ob_channel_id r = cn_channel_id c \<and> ob_status r = Passed)"

lemma chain_sound_hop:
  assumes "chain_sound d chain" and "unique_by cn_channel_id (tq_contracts d)"
    and "c \<in> set (tq_contracts d)" and "cn_channel_id c \<in> set (ch_channel_ids chain)"
  shows "\<exists>h \<in> set (ch_hops chain). hp_channel_id h = cn_channel_id c \<and> hop_sound c h"
proof -
  obtain cs where cs: "set cs \<subseteq> set (tq_contracts d)" "map cn_channel_id cs = ch_channel_ids chain"
    and all: "list_all2 (\<lambda>c h. hp_status h = Passed \<and> hp_channel_id h = cn_channel_id c \<and>
       hop_sound c h) cs (ch_hops chain)"
    using assms(1) by (auto simp: chain_sound_def)
  from assms(4) cs(2) obtain c' where "c' \<in> set cs" "cn_channel_id c' = cn_channel_id c"
    by (metis image_iff list.set_map)
  moreover from this cs(1) have "c' \<in> set (tq_contracts d)" by blast
  ultimately have "c \<in> set cs" using unique_by_eqD [OF assms(2) _ assms(3)] by blast
  then obtain k where k: "k < length cs" "c = cs ! k" by (metis in_set_conv_nth)
  with all have "hp_channel_id (ch_hops chain ! k) = cn_channel_id c \<and> hop_sound c (ch_hops chain ! k)"
    and "ch_hops chain ! k \<in> set (ch_hops chain)"
    by (auto simp: list_all2_conv_all_nth)
  then show ?thesis by blast
qed

text \<open>
  C11: A transport qualification whose document is accepted with a passed verdict establishes
  every channel: each causal chain passed over a contiguous path of known channels with one
  matching hop per channel, every channel occurs in such a chain with a producer in its source
  domain and a consumer in its destination domain that carry the same message, and every
  channel has a passed observation and a passed clock relation of its domain pair.
\<close>

theorem passed_transport_guarantees:
  assumes "validate_transport_qualification d = None" and "tv_status (tq_verdict d) = Passed"
  shows "transport_guarantees d"
proof -
  note parts = transport_parts [OF assms(1)]
  note verdict = verdict_passed [OF parts(5) assms(2)]
  have sound: "chain_sound d chain" if c: "chain \<in> set (tq_chains d)" for chain
  proof -
    obtain ci where "ci < length (tq_chains d)" "chain = tq_chains d ! ci"
      using c by (metis in_set_conv_nth)
    with parts(2) show ?thesis
      using check_chain_sound [OF parts(1)] verdict(4) c by (metis each_None)
  qed
  have covered: "\<exists>chain \<in> set (tq_chains d). \<exists>h \<in> set (ch_hops chain).
      hp_channel_id h = cn_channel_id c \<and> hop_sound c h" if c: "c \<in> set (tq_contracts d)" for c
  proof -
    have "cn_channel_id c \<in> (\<Union>x \<in> set (tq_chains d). set (ch_channel_ids x))"
      using c parts(3) by simp
    then obtain x where "x \<in> set (tq_chains d)" "cn_channel_id c \<in> set (ch_channel_ids x)"
      by blast
    then show ?thesis using chain_sound_hop [OF sound parts(1) c] by blast
  qed
  have clock: "\<exists>r \<in> set (tq_clock_relations d). relation_pair r = contract_pair c \<and> ck_status r = Passed"
    if "c \<in> set (tq_contracts d)" for c
  proof -
    from that verdict(1) have "contract_pair c \<in> relation_pair ` set (tq_clock_relations d)" by simp
    with verdict(2) show ?thesis by auto
  qed
  have observed: "\<exists>r \<in> set (tq_observations d). ob_channel_id r = cn_channel_id c \<and> ob_status r = Passed"
    if "c \<in> set (tq_contracts d)" for c
  proof -
    from that parts(4) have "cn_channel_id c \<in> ob_channel_id ` set (tq_observations d)" by simp
    with verdict(3) show ?thesis by auto
  qed
  show ?thesis
    unfolding transport_guarantees_def using sound covered clock observed by blast
qed

definition example_transport :: transport_result where
  "example_transport =
     (let p = \<lparr>sp_domain_id = ''a'', sp_trace_id = ''t'', sp_span_id = ''1'', sp_message_id = ''m''\<rparr>;
          c = \<lparr>sp_domain_id = ''b'', sp_trace_id = ''t'', sp_span_id = ''2'', sp_message_id = ''m''\<rparr> in
      \<lparr>tq_trace_domains = [''b'', ''a''],
       tq_contracts = [\<lparr>cn_channel_id = ''ch'', cn_source_domain_id = ''a'',
         cn_destination_domain_id = ''b''\<rparr>],
       tq_clock_relations = [\<lparr>ck_relation_id = ''r'', ck_source_domain_id = ''a'',
         ck_destination_domain_id = ''b'', ck_status = Passed\<rparr>],
       tq_observations = [\<lparr>ob_channel_id = ''ch'', ob_status = Passed\<rparr>],
       tq_chains = [\<lparr>ch_chain_id = ''x'', ch_channel_ids = [''ch''],
         ch_expected_contract_sha256 = ''s'',
         ch_hops = [\<lparr>hp_channel_id = ''ch'', hp_status = Passed, hp_relationship = Parent,
           hp_producer = p, hp_consumer = c\<rparr>],
         ch_status = Passed, ch_trace_ids = [''t''], ch_root_trace_id = ''t''\<rparr>],
       tq_chain_contracts = [\<lparr>xc_chain_id = ''x'', xc_sha256 = ''s''\<rparr>],
       tq_verdict = \<lparr>tv_chain_count = 1, tv_passed_chain_count = 1, tv_failed_chain_count = 0,
         tv_incomplete_chain_count = 0, tv_error_chain_count = 0, tv_status = Passed\<rparr>\<rparr>)"

lemma example_transport_accepted: "validate_transport_qualification example_transport = None"
  by (simp add: validate_transport_qualification_def example_transport_def Let_def
      unique_by_distinct result_domains_def relation_pair_def contract_pair_def check_chain_def
      check_continuity_def check_passed_chain_def check_hop_domains_def check_hop_spans_def
      hop_trace_ids_def span_key_def dict_by_def validate_verdict_def count_chains_def worst_of_def
      insert_commute)

theorem passed_transport_guarantees_witness: "transport_guarantees example_transport"
  by (rule passed_transport_guarantees [OF example_transport_accepted])
    (simp add: example_transport_def Let_def)

end
