(* ===== verification/Sem_Native.thy ===== *)
theory Sem_Native
  imports Sem_Result Sem_Scenario
begin

text \<open>
  The cross-field rules of the native documents (contracts/semantics.py, \<open>_validate_native_*\<close>
  and \<open>_validate_oci_*\<close>): profiles with their declared observations, the assessment controls
  of a scenario, observation documents with retained evidence, and the assessment result with
  its coverage of the criteria assigned to external evaluators.
\<close>

section \<open>Documents\<close>

record artifact_reference =
  af_uri :: string
  af_sha256 :: string
  af_size_bytes :: int

datatype obligation = Required | Optional | Declared_not_applicable

record observation_requirement =
  oq_obligation :: obligation
  oq_reason :: "string option"

text \<open>The four observation states, each with the keys its schema gives it.\<close>

datatype native_observation =
    Measured artifact_reference
  | Not_applicable string
  | Unobserved string
  | Invalid string "artifact_reference option"

fun observation_evidence :: "native_observation \<Rightarrow> artifact_reference option" where
  "observation_evidence (Measured r) = Some r"
| "observation_evidence (Not_applicable _) = None"
| "observation_evidence (Unobserved _) = None"
| "observation_evidence (Invalid _ r) = r"

fun is_unavailable :: "native_observation \<Rightarrow> bool" where
  "is_unavailable (Unobserved _) = True"
| "is_unavailable (Invalid _ _) = True"
| "is_unavailable _ = False"

fun is_measured :: "native_observation \<Rightarrow> bool" where
  "is_measured (Measured _) = True"
| "is_measured _ = False"

fun is_not_applicable :: "native_observation \<Rightarrow> bool" where
  "is_not_applicable (Not_applicable _) = True"
| "is_not_applicable _ = False"

record native_profile =
  np_channels :: "string list"
  np_observations :: "(string \<times> observation_requirement) list"

record evaluator_requirement =
  ev_namespace :: string
  ev_expected_assertion_ids :: "string list"

record assessment_controls =
  ac_assertions :: "metric_assertion list"
  ac_metric_definitions :: "metric_definition list"
  ac_evaluator_requirements :: "evaluator_requirement list"
  ac_max_artifact_size_bytes :: int
  ac_max_archive_size_bytes :: int

record measurement_window =
  mw_start_ns :: int
  mw_end_ns :: int

record interval =
  iv_started_at :: string
  iv_finished_at :: string

record observation_document =
  od_interval :: interval
  od_measurement_window :: "measurement_window option"
  od_evidence :: "artifact_reference list"
  od_observations :: "(string \<times> native_observation) list"

record covered_assertion =
  ca_assertion_id :: string
  ca_evidence_sha256 :: "string list"

record coverage =
  cg_covered :: "covered_assertion list"
  cg_uncovered :: "string list"

record native_result =
  nr_schema_version :: string
  nr_status :: outcome
  nr_profile :: native_profile
  nr_observations :: "(string \<times> native_observation) list"
  nr_evidence :: "artifact_reference list"
  nr_original_execution :: interval
  nr_evaluation :: interval
  nr_window :: "measurement_window option"
  nr_calibration_artifacts :: "artifact_reference list"
  nr_coverage :: "coverage option"
  nr_evaluators :: "evaluator_requirement list"
  nr_assertion_results :: "assertion_result list"
  nr_unevaluated :: "string list"

datatype native_error =
    Profile_channels_not_unique
  | Native_assertion_ids_not_unique
  | Native_evaluators_not_unique
  | Oci_assertion_assigned_twice
  | Oci_assertion_outside_namespace nat
  | Core_and_oci_not_disjoint
  | Native_metric_declaration scenario_error
  | Native_reserved_assertion
  | Artifact_exceeds_archive
  | Native_bad_timestamp string
  | Native_finished_before_started
  | Window_not_positive
  | Observation_evidence_not_retained string
  | Observations_differ_from_profile
  | Inapplicability_not_preserved string
  | Undeclared_inapplicability string
  | Native_key_missing string
  | Native_core_with_namespace nat
  | Native_assertion_not_owned nat
  | Native_assertion_evidence_not_listed nat
  | Oci_claimed_by_core
  | Oci_not_assigned_to_evaluator
  | Oci_neither_covered_nor_uncovered
  | Oci_covered_without_result
  | Coverage_required
  | Covered_not_unique
  | Uncovered_not_unique
  | Coverage_overlaps
  | Covered_without_outcome
  | Coverage_without_raw_evidence
  | Uncovered_not_unevaluated
  | Assessment_before_execution_end
  | Native_unevaluated_mismatch
  | Native_status_mismatch

section \<open>Profiles, controls and runtimes\<close>

definition validate_native_profile :: "native_profile \<Rightarrow> native_error option" where
  "validate_native_profile p = require (unique_by id (np_channels p)) Profile_channels_not_unique"

text \<open>The accumulated \<open>assigned\<close> set is the parameter \<open>assigned\<close>.\<close>

fun validate_oci_requirements ::
  "nat \<Rightarrow> string set \<Rightarrow> evaluator_requirement list \<Rightarrow> native_error option" where
  "validate_oci_requirements index assigned [] = None"
| "validate_oci_requirements index assigned (r # rs) = first_error
     [require (assigned \<inter> set (ev_expected_assertion_ids r) = {}) Oci_assertion_assigned_twice,
      require (\<forall>i \<in> set (ev_expected_assertion_ids r). prefix (ev_namespace r @ ''.'') i)
        (Oci_assertion_outside_namespace index),
      validate_oci_requirements (Suc index) (assigned \<union> set (ev_expected_assertion_ids r)) rs]"

definition expected_ids :: "evaluator_requirement list \<Rightarrow> string list" where
  "expected_ids rs = concat (map ev_expected_assertion_ids rs)"

definition validate_native_assessment_controls ::
  "string \<Rightarrow> assessment_controls \<Rightarrow> native_error option" where
  "validate_native_assessment_controls schema_name d = first_error
     [require (unique_by ma_assertion_id (ac_assertions d)) Native_assertion_ids_not_unique,
      require (unique_by ev_namespace (ac_evaluator_requirements d)) Native_evaluators_not_unique,
      when_check (schema_name = ''acceptance-result.v3'') (first_error
        [validate_oci_requirements 0 {} (ac_evaluator_requirements d),
         require (set (expected_ids (ac_evaluator_requirements d))
                    \<inter> ma_assertion_id ` set (ac_assertions d) = {}) Core_and_oci_not_disjoint]),
      map_option Native_metric_declaration
        (validate_metric_declarations (ac_metric_definitions d) (ac_assertions d)),
      require (\<not> (\<exists>a \<in> set (ac_assertions d). ma_assertion_id a \<in> set RESERVED_ASSERTION_IDS
                    \<or> prefix ''observation-'' (ma_assertion_id a)
                    \<or> prefix ''policy-native-'' (ma_assertion_id a))) Native_reserved_assertion,
      require (ac_max_artifact_size_bytes d \<le> ac_max_archive_size_bytes d) Artifact_exceeds_archive]"

definition validate_native_scenario ::
  "string \<Rightarrow> native_profile \<Rightarrow> assessment_controls \<Rightarrow> native_error option" where
  "validate_native_scenario schema_name profile controls = first_error
     [validate_native_profile profile, validate_native_assessment_controls schema_name controls]"

definition validate_native_runtime :: "native_profile \<Rightarrow> string list \<Rightarrow> native_error option" where
  "validate_native_runtime profile evaluator_bindings = first_error
     [validate_native_profile profile,
      require (unique_by id evaluator_bindings) Native_evaluators_not_unique]"

section \<open>Observations\<close>

definition native_time_order :: "interval \<Rightarrow> string \<Rightarrow> native_error option" where
  "native_time_order v path =
     with_key (Native_bad_timestamp (path @ ''.started_at''))
       (parse_timestamp_ns (iv_started_at v)) (\<lambda>start.
     with_key (Native_bad_timestamp (path @ ''.finished_at''))
       (parse_timestamp_ns (iv_finished_at v)) (\<lambda>finish.
     require (start \<le> finish) Native_finished_before_started))"

definition native_reference_key :: "artifact_reference \<Rightarrow> string \<times> string \<times> int" where
  "native_reference_key r = (af_uri r, af_sha256 r, af_size_bytes r)"

definition validate_native_observation_evidence ::
  "artifact_reference list \<Rightarrow> (string \<times> native_observation) list \<Rightarrow> native_error option" where
  "validate_native_observation_evidence evidence observations =
     (let retained = native_reference_key ` set evidence in
      each (\<lambda>_ (name, observation). case observation_evidence observation of None \<Rightarrow> None
        | Some reference \<Rightarrow> require (native_reference_key reference \<in> retained)
            (Observation_evidence_not_retained name)) observations)"

definition check_window :: "measurement_window option \<Rightarrow> native_error option" where
  "check_window w = (case w of None \<Rightarrow> None
     | Some v \<Rightarrow> require (mw_start_ns v < mw_end_ns v) Window_not_positive)"

definition validate_native_observation :: "observation_document \<Rightarrow> native_error option" where
  "validate_native_observation d = first_error
     [native_time_order (od_interval d) ''$'',
      check_window (od_measurement_window d),
      validate_native_observation_evidence (od_evidence d) (od_observations d)]"

text \<open>One declared observation, and the missing ones of a document.\<close>

definition check_observation ::
  "string \<Rightarrow> observation_requirement \<Rightarrow> native_observation \<Rightarrow> native_error option" where
  "check_observation name requirement observation =
     (if oq_obligation requirement = Declared_not_applicable
      then (case observation of
              Not_applicable reason \<Rightarrow>
                with_key (Native_key_missing ''reason'') (oq_reason requirement) (\<lambda>declared.
                  require (reason = declared) (Inapplicability_not_preserved name))
            | _ \<Rightarrow> Some (Inapplicability_not_preserved name))
      else require (\<not> is_not_applicable observation) (Undeclared_inapplicability name))"

definition observation_path :: "string \<Rightarrow> string" where
  "observation_path name = ''$.observations.'' @ name"

definition assertion_path :: "string \<Rightarrow> string" where
  "assertion_path assertion_id = ''$.assertions.'' @ assertion_id"

definition native_missing_observations ::
  "native_profile \<Rightarrow> (string \<times> native_observation) list \<Rightarrow> native_error + string set" where
  "native_missing_observations profile observations = checked
     (first_error
       [require (fst ` set observations = fst ` set (np_observations profile))
          Observations_differ_from_profile,
        each (\<lambda>_ (name, requirement).
          with_key (Native_key_missing name) (map_of observations name)
            (check_observation name requirement)) (np_observations profile)])
     (Inr (observation_path ` fst ` set (filter
        (\<lambda>(name, requirement). oq_obligation requirement = Required \<and>
           (case map_of observations name of None \<Rightarrow> False | Some ob \<Rightarrow> is_unavailable ob))
        (np_observations profile))))"

section \<open>Assessment results\<close>

definition validate_native_assertion_sources :: "native_result \<Rightarrow> native_error option" where
  "validate_native_assertion_sources d =
     (let evidence_digests =
            af_sha256 ` set (nr_evidence d) \<union> af_sha256 ` set (nr_calibration_artifacts d);
          namespaces = ev_namespace ` set (nr_evaluators d)
      in each (\<lambda>index a.
        if ar_source a = Core
        then require (ar_namespace a = None) (Native_core_with_namespace index)
        else with_key (Native_key_missing ''namespace'') (ar_namespace a) (\<lambda>namespace. first_error
          [require (namespace \<in> namespaces \<and> prefix (namespace @ ''.'') (ar_assertion_id a))
             (Native_assertion_not_owned index),
           require (set (ar_evidence_sha256 a) \<subseteq> evidence_digests)
             (Native_assertion_evidence_not_listed index)])) (nr_assertion_results d))"

text \<open>\<open>owners\<close>: the namespace each expected assertion is assigned to; a later item wins.\<close>

definition owners :: "evaluator_requirement list \<Rightarrow> string \<Rightarrow> string option" where
  "owners evaluators = map_of (rev (concat (map (\<lambda>e.
     map (\<lambda>i. (i, ev_namespace e)) (ev_expected_assertion_ids e)) evaluators)))"

definition product_rows :: "native_result \<Rightarrow> assertion_result list" where
  "product_rows d = filter (\<lambda>a. ar_source a = Product \<and>
     (case ar_namespace a of None \<Rightarrow> False
      | Some ns \<Rightarrow> ns \<in> ev_namespace ` set (nr_evaluators d))) (nr_assertion_results d)"

definition validate_oci_assessment_coverage :: "native_result \<Rightarrow> coverage \<Rightarrow> native_error option"
where
  "validate_oci_assessment_coverage d c =
     (let expected = set (expected_ids (nr_evaluators d));
          rows = product_rows d;
          returned = ar_assertion_id ` set rows;
          covered_ids = ca_assertion_id ` set (cg_covered c);
          uncovered_ids = set (cg_uncovered c)
      in first_error
       [validate_oci_requirements 0 {} (nr_evaluators d),
        require (\<forall>a \<in> set (nr_assertion_results d). ar_source a = Product \<longrightarrow> ar_namespace a \<noteq> None)
          (Native_key_missing ''namespace''),
        require (\<not> (\<exists>a \<in> set (nr_assertion_results d).
                      ar_source a \<noteq> Product \<and> ar_assertion_id a \<in> expected)) Oci_claimed_by_core,
        require (\<not> (\<exists>a \<in> set rows. owners (nr_evaluators d) (ar_assertion_id a) \<noteq> ar_namespace a))
          Oci_not_assigned_to_evaluator,
        require (expected - (covered_ids \<union> uncovered_ids) = {}) Oci_neither_covered_nor_uncovered,
        require ((covered_ids \<inter> expected) - returned = {}) Oci_covered_without_result])"

definition check_covered :: "native_result \<Rightarrow> covered_assertion \<Rightarrow> native_error option" where
  "check_covered d item = first_error
     [(case dict_by ar_assertion_id (nr_assertion_results d) (ca_assertion_id item) of
         None \<Rightarrow> Some Covered_without_outcome
       | Some a \<Rightarrow> require (ar_status a \<in> {Passed, Failed}) Covered_without_outcome),
      require (set (ca_evidence_sha256 item) \<subseteq> af_sha256 ` set (nr_evidence d))
        Coverage_without_raw_evidence]"

definition validate_native_assessment_coverage :: "native_result \<Rightarrow> native_error option" where
  "validate_native_assessment_coverage d =
     (case nr_coverage d of
        None \<Rightarrow> require (\<not> (nr_schema_version d = ''acceptance-result.v3'' \<and> nr_evaluators d \<noteq> []))
                  Coverage_required
      | Some c \<Rightarrow> first_error
         [when_check (nr_schema_version d = ''acceptance-result.v3'')
            (validate_oci_assessment_coverage d c),
          require (unique_by ca_assertion_id (cg_covered c)) Covered_not_unique,
          require (unique_by id (cg_uncovered c)) Uncovered_not_unique,
          require (ca_assertion_id ` set (cg_covered c) \<inter> set (cg_uncovered c) = {})
            Coverage_overlaps,
          each (\<lambda>_. check_covered d) (cg_covered c),
          require (\<not> (\<exists>i \<in> set (cg_uncovered c). assertion_path i \<notin> set (nr_unevaluated d)))
            Uncovered_not_unevaluated])"

definition native_missing :: "native_result \<Rightarrow> string set \<Rightarrow> string set" where
  "native_missing d missing =
     missing
     \<union> (if \<exists>(_, ob) \<in> set (nr_observations d). is_measured ob then {} else {''$.observations''})
     \<union> (if \<exists>a \<in> set (nr_assertion_results d).
             ar_source a = Product \<or> \<not> prefix ''policy-native-'' (ar_assertion_id a)
         then {} else {''$.assertions''})
     \<union> (assertion_path \<circ> ar_assertion_id) `
          set (filter (\<lambda>a. ar_status a = Skipped) (nr_assertion_results d))
     \<union> (case nr_coverage d of None \<Rightarrow> {} | Some c \<Rightarrow> assertion_path ` set (cg_uncovered c))"

definition native_statuses :: "native_result \<Rightarrow> string set \<Rightarrow> outcome list" where
  "native_statuses d missing =
     map (\<lambda>a. if ar_status a = Skipped then Incomplete else ar_status a) (nr_assertion_results d)
     @ (if missing \<noteq> {} then [Incomplete] else [])"

definition check_assessment_start :: "native_result \<Rightarrow> native_error option" where
  "check_assessment_start d =
     with_key (Native_bad_timestamp ''$.original_execution.finished_at'')
       (parse_timestamp_ns (iv_finished_at (nr_original_execution d))) (\<lambda>original_finish.
     with_key (Native_bad_timestamp ''$.evaluation.started_at'')
       (parse_timestamp_ns (iv_started_at (nr_evaluation d))) (\<lambda>evaluated_at.
     require (original_finish \<le> evaluated_at) Assessment_before_execution_end))"

definition validate_native_result :: "native_result \<Rightarrow> native_error option" where
  "validate_native_result d = first_error
     [validate_native_profile (nr_profile d),
      validate_native_assessment_coverage d,
      native_time_order (nr_original_execution d) ''$.original_execution'',
      native_time_order (nr_evaluation d) ''$.evaluation'',
      check_window (nr_window d),
      check_assessment_start d,
      (case native_missing_observations (nr_profile d) (nr_observations d) of
         Inl e \<Rightarrow> Some e
       | Inr unobserved \<Rightarrow> (let missing = native_missing d unobserved in first_error
          [require (unique_by ar_assertion_id (nr_assertion_results d))
             Native_assertion_ids_not_unique,
           require (unique_by ev_namespace (nr_evaluators d)) Native_evaluators_not_unique,
           require (set (nr_unevaluated d) = missing) Native_unevaluated_mismatch,
           require (worst_of (native_statuses d missing) False = Inr (nr_status d))
             Native_status_mismatch,
           validate_native_observation_evidence (nr_evidence d) (nr_observations d),
           validate_native_assertion_sources d]))]"

section \<open>What acceptance means\<close>

lemma worst_of_passed: "worst_of ss False = Inr Passed \<Longrightarrow> ss \<noteq> [] \<and> (\<forall>s \<in> set ss. s = Passed)"
  by (cases "ss = []") (auto simp: worst_of_worst dest: worst_ge)

lemma oci_requirements_accepts:
  "validate_oci_requirements i assigned rs = None \<Longrightarrow>
     set (expected_ids rs) \<inter> assigned = {} \<and>
     (\<forall>r \<in> set rs. \<forall>x \<in> set (ev_expected_assertion_ids r). prefix (ev_namespace r @ ''.'') x)"
proof (induction rs arbitrary: i assigned)
  case (Cons r rs)
  from Cons.prems have "validate_oci_requirements (Suc i)
      (assigned \<union> set (ev_expected_assertion_ids r)) rs = None" by simp
  from Cons.IH [OF this] Cons.prems show ?case by (auto simp: expected_ids_def)
qed (simp add: expected_ids_def)

text \<open>Accepted requirements assign every expected assertion to one evaluator.\<close>

lemma oci_requirements_owner:
  assumes "validate_oci_requirements i assigned rs = None"
    and "r \<in> set rs" "x \<in> set (ev_expected_assertion_ids r)"
    and "r' \<in> set rs" "x \<in> set (ev_expected_assertion_ids r')"
  shows "r = r'"
  using assms
proof (induction rs arbitrary: i assigned)
  case (Cons q rs)
  from Cons.prems(1) have rest: "validate_oci_requirements (Suc i)
      (assigned \<union> set (ev_expected_assertion_ids q)) rs = None" by simp
  then have disj: "set (expected_ids rs) \<inter> set (ev_expected_assertion_ids q) = {}"
    using oci_requirements_accepts by blast
  have out: "x \<notin> set (ev_expected_assertion_ids q)" if "p \<in> set rs" "x \<in> set (ev_expected_assertion_ids p)"
    for p using disj that by (auto simp: expected_ids_def)
  show ?case
  proof (cases "r \<in> set rs \<and> r' \<in> set rs")
    case True
    then show ?thesis using Cons.IH [OF rest] Cons.prems by blast
  next
    case False
    then show ?thesis using Cons.prems out by auto
  qed
qed simp

lemma owners_SomeD:
  "owners rs x = Some ns \<Longrightarrow> \<exists>r \<in> set rs. x \<in> set (ev_expected_assertion_ids r) \<and> ev_namespace r = ns"
  by (auto simp: owners_def dest!: map_of_SomeD)

lemma missing_observations_parts:
  assumes "native_missing_observations p obs = Inr m"
  shows "fst ` set obs = fst ` set (np_observations p)"
    and "\<forall>(name, r) \<in> set (np_observations p).
           \<exists>ob. map_of obs name = Some ob \<and> check_observation name r ob = None"
    and "m = observation_path ` fst ` set (filter
        (\<lambda>(name, requirement). oq_obligation requirement = Required \<and>
           (case map_of obs name of None \<Rightarrow> False | Some ob \<Rightarrow> is_unavailable ob))
        (np_observations p))"
  using assms
  by (auto simp: native_missing_observations_def checked_Inr each_from_None_all split_beta)

lemma required_is_measured:
  assumes "native_missing_observations p obs = Inr {}"
    and "(name, r) \<in> set (np_observations p)" and "oq_obligation r = Required"
  shows "\<exists>ref. map_of obs name = Some (Measured ref)"
proof -
  obtain ob where ob: "map_of obs name = Some ob" "check_observation name r ob = None"
    using missing_observations_parts(2) [OF assms(1)] assms(2) by auto
  have "(name, r) \<notin> set (filter (\<lambda>(name, requirement). oq_obligation requirement = Required \<and>
      (case map_of obs name of None \<Rightarrow> False | Some ob \<Rightarrow> is_unavailable ob)) (np_observations p))"
    using missing_observations_parts(3) [OF assms(1)] by (simp only: image_is_empty eq_commute [of "{}"]) simp
  with ob assms(2,3) have "\<not> is_unavailable ob" by simp
  with ob assms(3) show ?thesis by (cases ob) (auto simp: check_observation_def)
qed

lemma native_result_parts:
  assumes "validate_native_result d = None"
  shows "validate_native_assessment_coverage d = None"
    and "native_time_order (nr_evaluation d) ''$.evaluation'' = None"
    and "check_assessment_start d = None"
    and "\<exists>m. native_missing_observations (nr_profile d) (nr_observations d) = Inr m \<and>
          unique_by ar_assertion_id (nr_assertion_results d) \<and>
          set (nr_unevaluated d) = native_missing d m \<and>
          worst_of (native_statuses d (native_missing d m)) False = Inr (nr_status d) \<and>
          validate_native_observation_evidence (nr_evidence d) (nr_observations d) = None"
proof -
  show "validate_native_assessment_coverage d = None"
    "native_time_order (nr_evaluation d) ''$.evaluation'' = None"
    "check_assessment_start d = None"
    using assms by (simp_all add: validate_native_result_def)
  show "\<exists>m. native_missing_observations (nr_profile d) (nr_observations d) = Inr m \<and>
          unique_by ar_assertion_id (nr_assertion_results d) \<and>
          set (nr_unevaluated d) = native_missing d m \<and>
          worst_of (native_statuses d (native_missing d m)) False = Inr (nr_status d) \<and>
          validate_native_observation_evidence (nr_evidence d) (nr_observations d) = None"
    using assms
    by (cases "native_missing_observations (nr_profile d) (nr_observations d)")
      (simp_all add: validate_native_result_def Let_def)
qed

text \<open>Every criterion assigned to an external evaluator has a passed row of that evaluator.\<close>

definition criterion_established :: "native_result \<Rightarrow> evaluator_requirement \<Rightarrow> string \<Rightarrow> bool" where
  "criterion_established d e i \<longleftrightarrow>
     (\<exists>a \<in> set (nr_assertion_results d). ar_assertion_id a = i \<and> ar_source a = Product \<and>
        ar_namespace a = Some (ev_namespace e) \<and> ar_status a = Passed)"

lemma oci_coverage_parts:
  assumes "validate_oci_assessment_coverage d c = None"
  shows "validate_oci_requirements 0 {} (nr_evaluators d) = None"
    and "\<forall>a \<in> set (product_rows d). owners (nr_evaluators d) (ar_assertion_id a) = ar_namespace a"
    and "set (expected_ids (nr_evaluators d)) \<subseteq> ca_assertion_id ` set (cg_covered c) \<union> set (cg_uncovered c)"
    and "ca_assertion_id ` set (cg_covered c) \<inter> set (expected_ids (nr_evaluators d))
           \<subseteq> ar_assertion_id ` set (product_rows d)"
  using assms
  unfolding validate_oci_assessment_coverage_def Let_def first_error_Cons_None require_None
  by blast+

lemma oci_criterion:
  assumes ok: "validate_native_assessment_coverage d = None"
    and cov: "nr_schema_version d = ''acceptance-result.v3''"
    and none: "\<And>c. nr_coverage d = Some c \<Longrightarrow> cg_uncovered c = []"
    and passed: "\<forall>a \<in> set (nr_assertion_results d). ar_status a = Passed"
    and e: "e \<in> set (nr_evaluators d)" "i \<in> set (ev_expected_assertion_ids e)"
  shows "criterion_established d e i"
proof -
  from ok cov e obtain c where c: "nr_coverage d = Some c"
    by (cases "nr_coverage d") (auto simp: validate_native_assessment_coverage_def)
  have exp: "i \<in> set (expected_ids (nr_evaluators d))" using e by (auto simp: expected_ids_def)
  have oci: "validate_oci_assessment_coverage d c = None"
    using ok cov c by (simp add: validate_native_assessment_coverage_def)
  note parts = oci_coverage_parts [OF this]
  note reqs = parts(1) and rows = parts(2)
  from exp parts(3,4) none [OF c] have "i \<in> ar_assertion_id ` set (product_rows d)" by auto
  then obtain a where a: "a \<in> set (product_rows d)" "ar_assertion_id a = i" by blast
  then obtain ns where ns: "ar_namespace a = Some ns" "ar_source a = Product"
      "a \<in> set (nr_assertion_results d)"
    by (auto simp: product_rows_def split: option.splits)
  with rows a obtain r where r: "r \<in> set (nr_evaluators d)" "i \<in> set (ev_expected_assertion_ids r)"
      "ev_namespace r = ns" by (metis owners_SomeD)
  from oci_requirements_owner [OF reqs r(1,2) e] r(3) ns a(2) passed show ?thesis
    unfolding criterion_established_def by blast
qed

definition assessment_established :: "native_result \<Rightarrow> bool" where
  "assessment_established d \<longleftrightarrow>
     (\<forall>(name, r) \<in> set (np_observations (nr_profile d)). oq_obligation r = Required \<longrightarrow>
        (\<exists>ref. map_of (nr_observations d) name = Some (Measured ref) \<and>
           native_reference_key ref \<in> native_reference_key ` set (nr_evidence d))) \<and>
     nr_assertion_results d \<noteq> [] \<and>
     (\<forall>a \<in> set (nr_assertion_results d). ar_status a = Passed) \<and>
     nr_unevaluated d = [] \<and>
     (nr_schema_version d = ''acceptance-result.v3'' \<longrightarrow>
        (\<forall>e \<in> set (nr_evaluators d). \<forall>i \<in> set (ev_expected_assertion_ids e).
           criterion_established d e i)) \<and>
     (\<exists>executed assessed finished.
        parse_timestamp_ns (iv_finished_at (nr_original_execution d)) = Some executed \<and>
        parse_timestamp_ns (iv_started_at (nr_evaluation d)) = Some assessed \<and>
        parse_timestamp_ns (iv_finished_at (nr_evaluation d)) = Some finished \<and>
        executed \<le> assessed \<and> assessed \<le> finished)"

lemma native_statuses_passed:
  assumes "worst_of (native_statuses d m) False = Inr Passed"
  shows "m = {}" and "nr_assertion_results d \<noteq> []"
    and "\<forall>a \<in> set (nr_assertion_results d). ar_status a = Passed"
proof -
  note all = worst_of_passed [OF assms]
  show m: "m = {}" using all by (auto simp: native_statuses_def split: if_splits)
  show "nr_assertion_results d \<noteq> []" using all m by (auto simp: native_statuses_def)
  show "\<forall>a \<in> set (nr_assertion_results d). ar_status a = Passed"
  proof
    fix a
    assume "a \<in> set (nr_assertion_results d)"
    then have "(if ar_status a = Skipped then Incomplete else ar_status a) \<in> set (native_statuses d m)"
      unfolding native_statuses_def set_append set_map by blast
    with all have "(if ar_status a = Skipped then Incomplete else ar_status a) = Passed" by blast
    then show "ar_status a = Passed" by (simp split: if_splits)
  qed
qed

lemma native_missing_empty:
  assumes "native_missing d m = {}"
  shows "m = {}" and "\<And>c. nr_coverage d = Some c \<Longrightarrow> cg_uncovered c = []"
  using assms by (auto simp: native_missing_def)

lemma accepted_assessment_established:
  assumes "validate_native_result d = None" and "nr_status d = Passed"
  shows "assessment_established d"
proof -
  note parts = native_result_parts [OF assms(1)]
  obtain m where m: "native_missing_observations (nr_profile d) (nr_observations d) = Inr m"
      "set (nr_unevaluated d) = native_missing d m"
      "worst_of (native_statuses d (native_missing d m)) False = Inr Passed"
      "validate_native_observation_evidence (nr_evidence d) (nr_observations d) = None"
    using parts(4) assms(2) by auto
  note st = native_statuses_passed [OF m(3)]
  note empty = native_missing_empty [OF st(1)]
  have measured: "\<exists>ref. map_of (nr_observations d) name = Some (Measured ref) \<and>
      native_reference_key ref \<in> native_reference_key ` set (nr_evidence d)"
    if "(name, r) \<in> set (np_observations (nr_profile d))" "oq_obligation r = Required" for name r
  proof -
    note required = that
    obtain ref where ref: "map_of (nr_observations d) name = Some (Measured ref)"
      using required_is_measured [OF _ required] m(1) empty(1) by auto
    then have "(name, Measured ref) \<in> set (nr_observations d)" by (rule map_of_SomeD)
    with m(4) ref show ?thesis
      by (auto simp: validate_native_observation_evidence_def Let_def each_from_None_all)
  qed
  have criteria: "criterion_established d e i" if "nr_schema_version d = ''acceptance-result.v3''"
      "e \<in> set (nr_evaluators d)" "i \<in> set (ev_expected_assertion_ids e)" for e i
    using oci_criterion [OF parts(1) that(1) empty(2) st(3) that(2,3)] .
  have times: "\<exists>executed assessed finished.
        parse_timestamp_ns (iv_finished_at (nr_original_execution d)) = Some executed \<and>
        parse_timestamp_ns (iv_started_at (nr_evaluation d)) = Some assessed \<and>
        parse_timestamp_ns (iv_finished_at (nr_evaluation d)) = Some finished \<and>
        executed \<le> assessed \<and> assessed \<le> finished"
    using parts(2,3) by (auto simp: native_time_order_def check_assessment_start_def)
  show ?thesis
    unfolding assessment_established_def
    using measured criteria times st m(2) by auto
qed

text \<open>
  C15: An accepted assessment result with status passed establishes the assessment: every
  required observation of the profile was measured with retained evidence, there are
  assertions and all of them passed, nothing is left unevaluated, each criterion assigned to
  an external evaluator (acceptance-result.v3) is established by a passed product row of
  exactly that evaluator, and the assessment started after the execution it judges finished.
\<close>

theorem passed_assessment_established:
  assumes "validate_native_result d = None" and "nr_status d = Passed"
  shows "assessment_established d"
  by (rule accepted_assessment_established [OF assms])

definition example_assessment :: native_result where
  "example_assessment =
     \<lparr>nr_schema_version = ''acceptance-result.v3'', nr_status = Passed,
      nr_profile = \<lparr>np_channels = [''c''],
        np_observations = [(''o'', \<lparr>oq_obligation = Required, oq_reason = None\<rparr>),
          (''n'', \<lparr>oq_obligation = Declared_not_applicable, oq_reason = Some ''no''\<rparr>)]\<rparr>,
      nr_observations = [(''o'', Measured \<lparr>af_uri = ''u'', af_sha256 = ''s'', af_size_bytes = 1\<rparr>),
        (''n'', Not_applicable ''no'')],
      nr_evidence = [\<lparr>af_uri = ''u'', af_sha256 = ''s'', af_size_bytes = 1\<rparr>],
      nr_original_execution = \<lparr>iv_started_at = ''2024-05-01T10:00:00Z'',
        iv_finished_at = ''2024-05-01T10:05:00Z''\<rparr>,
      nr_evaluation = \<lparr>iv_started_at = ''2024-05-01T10:05:00Z'',
        iv_finished_at = ''2024-05-01T10:05:00.5Z''\<rparr>,
      nr_window = Some \<lparr>mw_start_ns = 0, mw_end_ns = 1\<rparr>, nr_calibration_artifacts = [],
      nr_coverage = Some \<lparr>cg_covered = [\<lparr>ca_assertion_id = ''e.a'', ca_evidence_sha256 = [''s'']\<rparr>],
        cg_uncovered = []\<rparr>,
      nr_evaluators = [\<lparr>ev_namespace = ''e'', ev_expected_assertion_ids = [''e.a'']\<rparr>],
      nr_assertion_results = [\<lparr>ar_assertion_id = ''e.a'', ar_status = Passed, ar_source = Product,
        ar_namespace = Some ''e'', ar_evidence_sha256 = [''s'']\<rparr>],
      nr_unevaluated = []\<rparr>"

lemma example_assessment_instants:
  "parse_timestamp_ns ''2024-05-01T10:00:00Z'' = Some 1714557600000000000"
  "parse_timestamp_ns ''2024-05-01T10:05:00Z'' = Some 1714557900000000000"
  "parse_timestamp_ns ''2024-05-01T10:05:00.5Z'' = Some 1714557900500000000"
  by (simp_all add: parse_timestamp_ns_def read_timestamp_defs)

lemmas native_defs =
  validate_native_profile_def validate_native_assessment_coverage_def
  validate_oci_assessment_coverage_def native_time_order_def check_window_def
  check_assessment_start_def native_missing_observations_def check_observation_def
  native_missing_def native_statuses_def validate_native_observation_evidence_def
  validate_native_assertion_sources_def check_covered_def product_rows_def owners_def
  expected_ids_def dict_by_def native_reference_key_def

lemma example_assessment_accepted: "validate_native_result example_assessment = None"
  by (simp add: validate_native_result_def example_assessment_def native_defs
      example_assessment_instants unique_by_distinct worst_of_Cons Let_def)

theorem passed_assessment_established_witness: "assessment_established example_assessment"
  by (rule passed_assessment_established [OF example_assessment_accepted])
    (simp add: example_assessment_def)

end
