(* ===== verification/Datasets.thy ===== *)
theory Datasets
  imports Prelude
begin

text \<open>
  Dataset manifests of recorded bags (contracts/datasets.py and \<open>_validate_dataset\<close> in
  contracts/semantics.py): the structure of the bag's member list, the binding of every member
  to its finalized summary, and the comparison with the native rosbag2 metadata. Missing
  metadata keys, which the outer function turns into one error, are None.
\<close>

record bag_member =
  bm_relative_path :: string
  bm_segment_index :: int
  bm_recording_uri :: string
  bm_recording_sha256 :: string
  bm_summary_uri :: string
  bm_summary_sha256 :: string

record dataset_channel =
  dc_topic :: string
  dc_type :: string
  dc_type_hash :: string
  dc_message_count :: int
  dc_qos_profile :: string
  dc_qos_profile_sha256 :: "string option"

record topic_remap =
  tr_from :: string
  tr_to :: string

record dataset =
  dm_metadata_uri :: string
  dm_metadata_sha256 :: string
  dm_members :: "bag_member list"
  dm_message_count :: int
  dm_channels :: "dataset_channel list"
  dm_start_ns :: int
  dm_end_ns :: int
  dm_time_basis :: string
  dm_clock_jumps :: "int list"
  dm_topic_remaps :: "topic_remap list"
  dm_license :: string
  dm_data_classification :: string
  dm_retention_class :: string
  dm_captured_at :: string

datatype dataset_error =
    Member_path_not_confined
  | Dataset_mismatch string
  | Members_not_unique
  | Summaries_not_distinct
  | References_alias
  | No_recorded_messages
  | Duplicate_channel_identities
  | Custom_qos_without_profiles
  | Metadata_malformed string
  | Dataset_topics_not_unique
  | Dataset_end_not_after_start
  | Clock_jump_outside nat
  | Remap_source_not_recorded nat
  | Remaps_not_one_to_one

definition require_equal :: "string \<Rightarrow> 'a \<Rightarrow> 'a \<Rightarrow> dataset_error option" where
  "require_equal label expected actual = require (expected = actual) (Dataset_mismatch label)"

lemma require_equal_None [simp, check_simps]: "require_equal l x y = None \<longleftrightarrow> x = y"
  by (simp add: require_equal_def)

lemma require_equal_refl [simp]: "require_equal l x x = None"
  by simp

section \<open>Bag structure\<close>

fun split_on :: "char \<Rightarrow> string \<Rightarrow> string list" where
  "split_on c [] = [[]]"
| "split_on c (x # xs) =
     (if x = c then [] # split_on c xs
      else (case split_on c xs of [] \<Rightarrow> [[x]] | p # ps \<Rightarrow> (x # p) # ps))"

lemma split_on_not_Nil [simp]: "split_on c s \<noteq> []"
  by (cases s) (auto split: list.splits)

text \<open>
  \<open>PurePosixPath(name)\<close>: absolute when it starts with a slash; the suffix of the last
  component starts at its last dot, which may not be its first character.
\<close>

definition has_mcap_suffix :: "string \<Rightarrow> bool" where
  "has_mcap_suffix name =
     (let final = last (split_on (CHR ''/'') name) in suffix ''.mcap'' final \<and> 5 < length final)"

definition is_control :: "char \<Rightarrow> bool" where
  "is_control c \<longleftrightarrow> (of_char c :: nat) < 32 \<or> (of_char c :: nat) = 127"

definition confined_path :: "string \<Rightarrow> bool" where
  "confined_path name \<longleftrightarrow>
     \<not> (prefix ''/'' name
        \<or> CHR 92 \<in> set name
        \<or> (\<exists>part \<in> set (split_on (CHR ''/'') name). part \<in> {'''', ''.'', ''..''})
        \<or> (\<exists>c \<in> set name. is_control c)
        \<or> \<not> has_mcap_suffix name)"

fun check_members ::
  "int \<Rightarrow> string set \<Rightarrow> string set \<Rightarrow> string set \<Rightarrow> string set \<Rightarrow> bag_member list
    \<Rightarrow> dataset_error option" where
  "check_members index paths recordings summaries uris [] = None"
| "check_members index paths recordings summaries uris (m # ms) = first_error
     [require (confined_path (bm_relative_path m)) Member_path_not_confined,
      require_equal ''bag member segment index'' index (bm_segment_index m),
      require (\<not> (bm_relative_path m \<in> paths \<or> bm_recording_sha256 m \<in> recordings))
        Members_not_unique,
      require (bm_summary_sha256 m \<notin> summaries) Summaries_not_distinct,
      require (bm_recording_uri m \<notin> uris) References_alias,
      require (bm_summary_uri m \<notin> insert (bm_recording_uri m) uris) References_alias,
      check_members (index + 1) (insert (bm_relative_path m) paths)
        (insert (bm_recording_sha256 m) recordings) (insert (bm_summary_sha256 m) summaries)
        (insert (bm_summary_uri m) (insert (bm_recording_uri m) uris)) ms]"

definition validate_bag_structure :: "dataset \<Rightarrow> dataset_error option" where
  "validate_bag_structure d = check_members 0 {} {} {} {dm_metadata_uri d} (dm_members d)"

section \<open>Summaries\<close>

record summary_channel =
  sm_topic :: string
  sm_schema_name :: string
  sm_message_count :: int

record member_summary =
  ms_source_sha256 :: string
  ms_message_count :: int
  ms_start_ns :: int
  ms_end_ns :: int
  ms_channels :: "summary_channel list"

text \<open>The Counter of (topic, schema) pairs; equality of Counters reads a missing key as 0.\<close>

definition summary_rows :: "member_summary list \<Rightarrow> summary_channel list" where
  "summary_rows summaries = concat (map ms_channels summaries)"

definition channel_counter :: "member_summary list \<Rightarrow> string \<times> string \<Rightarrow> int" where
  "channel_counter summaries key =
     sum_list (map sm_message_count
       (filter (\<lambda>c. (sm_topic c, sm_schema_name c) = key) (summary_rows summaries)))"

definition channel_key :: "dataset_channel \<Rightarrow> string \<times> string" where
  "channel_key c = (dc_topic c, dc_type c)"

definition expected_counter :: "dataset_channel list \<Rightarrow> string \<times> string \<Rightarrow> int" where
  "expected_counter channels key =
     (case dict_by channel_key channels key of None \<Rightarrow> 0 | Some c \<Rightarrow> dc_message_count c)"

definition counters_equal :: "dataset_channel list \<Rightarrow> member_summary list \<Rightarrow> bool" where
  "counters_equal channels summaries \<longleftrightarrow>
     (\<forall>key \<in> channel_key ` set channels
        \<union> (\<lambda>c. (sm_topic c, sm_schema_name c)) ` set (summary_rows summaries).
        expected_counter channels key = channel_counter summaries key)"

definition recorded :: "member_summary list \<Rightarrow> member_summary list" where
  "recorded summaries = filter (\<lambda>s. ms_message_count s \<noteq> 0) summaries"

definition check_intervals :: "dataset \<Rightarrow> member_summary list \<Rightarrow> dataset_error option" where
  "check_intervals d rs = first_error
     [require (rs \<noteq> []) No_recorded_messages,
      require_equal ''bag start time'' (dm_start_ns d) (Min (set (map ms_start_ns rs))),
      require_equal ''bag end time'' (dm_end_ns d) (Max (set (map ms_end_ns rs)))]"

definition validate_bag_summaries :: "dataset \<Rightarrow> member_summary list \<Rightarrow> dataset_error option" where
  "validate_bag_summaries d summaries = first_error
     [validate_bag_structure d,
      require_equal ''bag summary cardinality'' (length (dm_members d)) (length summaries),
      each (\<lambda>_ (m, s). require_equal ''member summary source''
              (bm_recording_sha256 m) (ms_source_sha256 s)) (zip (dm_members d) summaries),
      require_equal ''bag message count'' (dm_message_count d)
        (sum_list (map ms_message_count summaries)),
      require (counters_equal (dm_channels d) summaries) (Dataset_mismatch ''bag channel counts''),
      check_intervals d (recorded summaries)]"

section \<open>Native metadata\<close>

record native_file =
  nf_path :: string
  nf_message_count :: int
  nf_start_ns :: int
  nf_duration_ns :: int

record native_topic =
  nt_name :: string
  nt_type :: string
  nt_type_hash :: string
  nt_offered_qos_profiles :: "string list"
  nt_message_count :: int

record bag_metadata =
  bi_storage_identifier :: string
  bi_relative_file_paths :: "string list"
  bi_files :: "native_file list"
  bi_message_count :: int
  bi_start_ns :: int
  bi_duration_ns :: int
  bi_topics :: "native_topic list"
  bi_custom_data :: "(string \<times> string) list"

definition topic_key :: "native_topic \<Rightarrow> string \<times> string" where
  "topic_key t = (nt_name t, nt_type t)"

text \<open>\<open>expected_counts == actual_counts\<close>: two dicts with the same keys and values.\<close>

definition native_counts_equal :: "dataset_channel list \<Rightarrow> native_topic list \<Rightarrow> bool" where
  "native_counts_equal channels topics \<longleftrightarrow>
     channel_key ` set channels = topic_key ` set topics \<and>
     (\<forall>key \<in> channel_key ` set channels.
        map_option dc_message_count (dict_by channel_key channels key)
          = map_option nt_message_count (dict_by topic_key topics key))"

definition check_native_file :: "native_file \<times> member_summary \<Rightarrow> dataset_error option" where
  "check_native_file fs = (case fs of (item, s) \<Rightarrow> first_error
     [require_equal ''native member count'' (ms_message_count s) (nf_message_count item),
      when_check (ms_message_count s \<noteq> 0) (first_error
        [require_equal ''native member start'' (ms_start_ns s) (nf_start_ns item),
         require_equal ''native member duration'' (ms_end_ns s - ms_start_ns s)
           (nf_duration_ns item)])])"

definition check_native_channel ::
  "dataset \<Rightarrow> native_topic list \<Rightarrow> dataset_channel \<Rightarrow> dataset_error option" where
  "check_native_channel d topics c =
     with_key (Metadata_malformed (dc_topic c)) (dict_by nt_name topics (dc_topic c)) (\<lambda>native.
     first_error
       [require_equal ''native channel type hash'' (dc_type_hash c) (nt_type_hash native),
        when_check (dc_qos_profile c = ''custom'') (first_error
          [require (nt_offered_qos_profiles native \<noteq> []) Custom_qos_without_profiles,
           with_key (Metadata_malformed ''qos_profile_sha256'') (dc_qos_profile_sha256 c)
             (require_equal ''native channel QoS metadata'' (dm_metadata_sha256 d))])])"

definition require_custom ::
  "string \<Rightarrow> string \<Rightarrow> string \<Rightarrow> (string \<times> string) list \<Rightarrow> dataset_error option" where
  "require_custom label expected key custom =
     with_key (Metadata_malformed key) (map_of custom key) (require_equal label expected)"

definition validate_bag_metadata ::
  "dataset \<Rightarrow> bag_metadata \<Rightarrow> member_summary list \<Rightarrow> string option \<Rightarrow> dataset_error option" where
  "validate_bag_metadata d info summaries expected_run_id =
     (let names = map bm_relative_path (dm_members d); custom = bi_custom_data info in first_error
      [validate_bag_summaries d summaries,
       require_equal ''native storage'' ''mcap'' (bi_storage_identifier info),
       require_equal ''native member order'' names (bi_relative_file_paths info),
       require_equal ''native file order'' names (map nf_path (bi_files info)),
       require_equal ''native message count'' (dm_message_count d) (bi_message_count info),
       each (\<lambda>_. check_native_file) (zip (bi_files info) summaries),
       require_equal ''native bag start'' (dm_start_ns d) (bi_start_ns info),
       require_equal ''native bag duration'' (dm_end_ns d - dm_start_ns d) (bi_duration_ns info),
       require (unique_by topic_key (bi_topics info)) Duplicate_channel_identities,
       require (native_counts_equal (dm_channels d) (bi_topics info))
         (Dataset_mismatch ''native channel counts''),
       each (\<lambda>_. check_native_channel d (bi_topics info)) (dm_channels d),
       (case expected_run_id of None \<Rightarrow> None
        | Some run_id \<Rightarrow> require_custom ''native capture run'' run_id ''run_id'' custom),
       require_custom ''native recorded time basis'' (dm_time_basis d) ''record_timestamp_basis'' custom,
       require_custom ''native capture governance'' (dm_license d) ''dataset_license'' custom,
       require_custom ''native capture governance'' (dm_data_classification d)
         ''data_classification'' custom,
       require_custom ''native capture governance'' (dm_retention_class d) ''retention_class'' custom,
       require_custom ''native capture timestamp'' (dm_captured_at d) ''captured_at'' custom])"

section \<open>The semantic rules of the manifest\<close>

fun check_remaps ::
  "nat \<Rightarrow> string set \<Rightarrow> string set \<Rightarrow> string set \<Rightarrow> topic_remap list \<Rightarrow> dataset_error option" where
  "check_remaps index names sources targets [] = None"
| "check_remaps index names sources targets (r # rs) = first_error
     [require (tr_from r \<in> names) (Remap_source_not_recorded index),
      require (\<not> (tr_from r \<in> sources \<or> tr_to r \<in> targets)) Remaps_not_one_to_one,
      check_remaps (Suc index) names (insert (tr_from r) sources) (insert (tr_to r) targets) rs]"

definition validate_dataset :: "dataset \<Rightarrow> dataset_error option" where
  "validate_dataset d = first_error
     [validate_bag_structure d,
      require (unique_by dc_topic (dm_channels d)) Dataset_topics_not_unique,
      require (dm_start_ns d < dm_end_ns d) Dataset_end_not_after_start,
      each (\<lambda>index at_ns. require (dm_start_ns d \<le> at_ns \<and> at_ns \<le> dm_end_ns d) (Clock_jump_outside index))
        (dm_clock_jumps d),
      check_remaps 0 (dc_topic ` set (dm_channels d)) {} {} (dm_topic_remaps d)]"

section \<open>What acceptance means\<close>

definition member_uris :: "bag_member list \<Rightarrow> string list" where
  "member_uris ms = concat (map (\<lambda>m. [bm_recording_uri m, bm_summary_uri m]) ms)"

lemma member_uris_simps [simp]:
  "member_uris [] = []"
  "member_uris (m # ms) = bm_recording_uri m # bm_summary_uri m # member_uris ms"
  by (simp_all add: member_uris_def)

definition fresh :: "'a list \<Rightarrow> 'a set \<Rightarrow> bool" where
  "fresh xs seen \<longleftrightarrow> distinct xs \<and> set xs \<inter> seen = {}"

lemma fresh_simps [simp]:
  "fresh [] seen"
  "fresh (x # xs) seen \<longleftrightarrow> x \<notin> seen \<and> fresh xs (insert x seen)"
  by (auto simp: fresh_def)

fun numbered_from :: "int \<Rightarrow> bag_member list \<Rightarrow> bool" where
  "numbered_from i [] = True"
| "numbered_from i (m # ms) = (bm_segment_index m = i \<and> numbered_from (i + 1) ms)"

lemma numbered_from_nth:
  "numbered_from i ms \<longleftrightarrow> (\<forall>k < length ms. bm_segment_index (ms ! k) = i + int k)"
proof (induction ms arbitrary: i)
  case (Cons m ms)
  show ?case by (auto simp: Cons.IH less_Suc_eq_0_disj nth_Cons' algebra_simps)
qed simp

lemma check_members_accepts:
  "check_members i P R S U ms = None \<longleftrightarrow>
     (\<forall>m \<in> set ms. confined_path (bm_relative_path m)) \<and> numbered_from i ms \<and>
     fresh (map bm_relative_path ms) P \<and> fresh (map bm_recording_sha256 ms) R \<and>
     fresh (map bm_summary_sha256 ms) S \<and> fresh (member_uris ms) U"
proof (induction ms arbitrary: i P R S U)
  case (Cons m ms)
  show ?case by (simp only: check_members.simps first_error_Cons_None Cons.IH) auto
qed simp

definition bag_structure_sound :: "dataset \<Rightarrow> bool" where
  "bag_structure_sound d \<longleftrightarrow>
     (\<forall>m \<in> set (dm_members d). confined_path (bm_relative_path m)) \<and>
     (\<forall>k < length (dm_members d). bm_segment_index (dm_members d ! k) = int k) \<and>
     distinct (map bm_relative_path (dm_members d)) \<and>
     distinct (map bm_recording_sha256 (dm_members d)) \<and>
     distinct (map bm_summary_sha256 (dm_members d)) \<and>
     distinct (dm_metadata_uri d # member_uris (dm_members d))"

lemma bag_structure_iff: "validate_bag_structure d = None \<longleftrightarrow> bag_structure_sound d"
  by (auto simp: validate_bag_structure_def bag_structure_sound_def check_members_accepts fresh_def
      numbered_from_nth)

interpretation bag_validator: validator validate_bag_structure bag_structure_sound
  by unfold_locales (rule bag_structure_iff)

lemma check_remaps_accepts:
  "check_remaps i names A B rs = None \<longleftrightarrow>
     tr_from ` set rs \<subseteq> names \<and> fresh (map tr_from rs) A \<and> fresh (map tr_to rs) B"
proof (induction rs arbitrary: i A B)
  case (Cons r rs)
  show ?case by (simp only: check_remaps.simps first_error_Cons_None Cons.IH) auto
qed simp

text \<open>
  A dataset manifest is accepted exactly when its members are confined relative MCAP
  paths numbered in order, with distinct paths, recordings, summaries and references (the
  metadata included), its topics are distinct, its interval is positive and contains every
  clock jump, and its remaps are one-to-one from recorded topics.
\<close>

theorem dataset_accepts_iff:
  "validate_dataset d = None \<longleftrightarrow>
     bag_structure_sound d \<and> distinct (map dc_topic (dm_channels d)) \<and>
     dm_start_ns d < dm_end_ns d \<and>
     set (dm_clock_jumps d) \<subseteq> {dm_start_ns d..dm_end_ns d} \<and>
     tr_from ` set (dm_topic_remaps d) \<subseteq> dc_topic ` set (dm_channels d) \<and>
     distinct (map tr_from (dm_topic_remaps d)) \<and> distinct (map tr_to (dm_topic_remaps d))"
  by (auto simp: validate_dataset_def bag_structure_iff unique_by_distinct check_remaps_accepts
      fresh_def)

text \<open>A confined path stays below the bag directory: no component of it leads upwards.\<close>

lemma confined_path_components:
  "confined_path name \<Longrightarrow> part \<in> set (split_on (CHR ''/'') name) \<Longrightarrow>
     part \<noteq> '''' \<and> part \<noteq> ''.'' \<and> part \<noteq> ''..''"
  by (auto simp: confined_path_def)

lemma files_counted:
  "each_from i (\<lambda>_. check_native_file) (zip fs ss) = None \<Longrightarrow> length fs = length ss \<Longrightarrow>
     sum_list (map ms_message_count ss) = sum_list (map nf_message_count fs)"
proof (induction fs ss arbitrary: i rule: list_induct2')
  case (4 f fs s ss)
  then show ?case
    by (auto simp: check_native_file_def split: option.splits)
qed auto

lemma bag_metadata_parts:
  assumes "validate_bag_metadata d info summaries run = None"
  shows "validate_bag_summaries d summaries = None"
    and "map bm_relative_path (dm_members d) = map nf_path (bi_files info)"
    and "dm_message_count d = bi_message_count info"
    and "each (\<lambda>_. check_native_file) (zip (bi_files info) summaries) = None"
    and "native_counts_equal (dm_channels d) (bi_topics info)"
    and "dm_start_ns d = bi_start_ns info" and "dm_end_ns d - dm_start_ns d = bi_duration_ns info"
  using assms
  unfolding validate_bag_metadata_def Let_def first_error_Cons_None require_None require_equal_None
  by blast+

lemma bag_summaries_parts:
  assumes "validate_bag_summaries d summaries = None"
  shows "length (dm_members d) = length summaries"
    and "dm_message_count d = sum_list (map ms_message_count summaries)"
    and "counters_equal (dm_channels d) summaries"
    and "check_intervals d (recorded summaries) = None"
  using assms
  unfolding validate_bag_summaries_def first_error_Cons_None require_None require_equal_None
  by blast+

text \<open>The three accounts of a bag: manifest, member summaries and native metadata.\<close>

definition bag_conserved :: "dataset \<Rightarrow> bag_metadata \<Rightarrow> member_summary list \<Rightarrow> bool" where
  "bag_conserved d info summaries \<longleftrightarrow>
     dm_message_count d = sum_list (map ms_message_count summaries) \<and>
     dm_message_count d = sum_list (map nf_message_count (bi_files info)) \<and>
     (\<forall>c \<in> set (dm_channels d).
        dc_message_count c = channel_counter summaries (channel_key c) \<and>
        (\<exists>t \<in> set (bi_topics info). topic_key t = channel_key c \<and>
           nt_message_count t = dc_message_count c)) \<and>
     (\<forall>s \<in> set summaries. ms_message_count s \<noteq> 0 \<longrightarrow>
        dm_start_ns d \<le> ms_start_ns s \<and> ms_end_ns s \<le> bi_start_ns info + bi_duration_ns info)"

lemma distinct_channel_key:
  "distinct (map dc_topic cs) \<Longrightarrow> unique_by channel_key cs"
  by (auto simp: unique_by_distinct distinct_map channel_key_def inj_on_def)

text \<open>
  C19: When a manifest with distinct topics and the native metadata of its bag are accepted
  together, no message is lost or invented between the three accounts: the declared total is
  the sum over the member summaries and over the native files, every channel's count is the
  sum of its counts in the summaries and its native count, and every recorded member lies in
  the declared interval, which is the native one.
\<close>

theorem accepted_bag_conserved:
  assumes "validate_dataset d = None" and "validate_bag_metadata d info summaries run = None"
  shows "bag_conserved d info summaries"
proof -
  note parts = bag_metadata_parts [OF assms(2)]
  note sums = bag_summaries_parts [OF parts(1)]
  have u: "unique_by channel_key (dm_channels d)"
    using assms(1) by (intro distinct_channel_key) (simp add: validate_dataset_def unique_by_distinct)
  have len: "length (bi_files info) = length summaries"
    using arg_cong [OF parts(2), of length] sums(1) by simp
  have chan: "dc_message_count c = channel_counter summaries (channel_key c) \<and>
      (\<exists>t \<in> set (bi_topics info). topic_key t = channel_key c \<and> nt_message_count t = dc_message_count c)"
    if c: "c \<in> set (dm_channels d)" for c
  proof -
    have look: "dict_by channel_key (dm_channels d) (channel_key c) = Some c"
      using dict_by_unique [OF u] c by simp
    have "expected_counter (dm_channels d) (channel_key c) = channel_counter summaries (channel_key c)"
      using sums(3) c unfolding counters_equal_def by blast
    with look have "dc_message_count c = channel_counter summaries (channel_key c)"
      by (simp add: expected_counter_def)
    moreover have "Some (dc_message_count c) =
        map_option nt_message_count (dict_by topic_key (bi_topics info) (channel_key c))"
      using parts(5) c look by (metis imageI native_counts_equal_def option.simps(9))
    ultimately show ?thesis
      by (cases "dict_by topic_key (bi_topics info) (channel_key c)") (auto dest: dict_by_SomeD)
  qed
  have inside: "dm_start_ns d \<le> ms_start_ns s \<and> ms_end_ns s \<le> bi_start_ns info + bi_duration_ns info"
    if "s \<in> set summaries" "ms_message_count s \<noteq> 0" for s
  proof -
    from that have "s \<in> set (recorded summaries)" by (simp add: recorded_def)
    with sums(4) have "dm_start_ns d \<le> ms_start_ns s \<and> ms_end_ns s \<le> dm_end_ns d"
      by (auto simp: check_intervals_def)
    with parts(6,7) show ?thesis by simp
  qed
  show ?thesis
    unfolding bag_conserved_def
  proof (intro conjI)
    show "dm_message_count d = sum_list (map ms_message_count summaries)" by (rule sums(2))
    show "dm_message_count d = sum_list (map nf_message_count (bi_files info))"
      using sums(2) files_counted [OF parts(4) len] by simp
  qed (use chan inside in blast)+
qed

definition example_dataset :: dataset where
  "example_dataset =
     \<lparr>dm_metadata_uri = ''u'', dm_metadata_sha256 = ''q'',
      dm_members = [\<lparr>bm_relative_path = ''a.mcap'', bm_segment_index = 0, bm_recording_uri = ''r'',
        bm_recording_sha256 = ''rs'', bm_summary_uri = ''s'', bm_summary_sha256 = ''ss''\<rparr>],
      dm_message_count = 2,
      dm_channels = [\<lparr>dc_topic = ''t'', dc_type = ''y'', dc_type_hash = ''h'', dc_message_count = 2,
        dc_qos_profile = ''custom'', dc_qos_profile_sha256 = Some ''q''\<rparr>],
      dm_start_ns = 5, dm_end_ns = 9, dm_time_basis = ''ros_time'', dm_clock_jumps = [6],
      dm_topic_remaps = [\<lparr>tr_from = ''t'', tr_to = ''t2''\<rparr>], dm_license = ''l'',
      dm_data_classification = ''public'', dm_retention_class = ''rc'', dm_captured_at = ''c''\<rparr>"

definition example_summaries :: "member_summary list" where
  "example_summaries =
     [\<lparr>ms_source_sha256 = ''rs'', ms_message_count = 2, ms_start_ns = 5, ms_end_ns = 9,
       ms_channels = [\<lparr>sm_topic = ''t'', sm_schema_name = ''y'', sm_message_count = 2\<rparr>]\<rparr>]"

definition example_metadata :: bag_metadata where
  "example_metadata =
     \<lparr>bi_storage_identifier = ''mcap'', bi_relative_file_paths = [''a.mcap''],
      bi_files = [\<lparr>nf_path = ''a.mcap'', nf_message_count = 2, nf_start_ns = 5, nf_duration_ns = 4\<rparr>],
      bi_message_count = 2, bi_start_ns = 5, bi_duration_ns = 4,
      bi_topics = [\<lparr>nt_name = ''t'', nt_type = ''y'', nt_type_hash = ''h'',
        nt_offered_qos_profiles = [''p''], nt_message_count = 2\<rparr>],
      bi_custom_data = [(''run_id'', ''run''), (''record_timestamp_basis'', ''ros_time''),
        (''dataset_license'', ''l''), (''data_classification'', ''public''),
        (''retention_class'', ''rc''), (''captured_at'', ''c'')]\<rparr>"

lemma confined_example: "confined_path ''a.mcap''"
  by (simp add: confined_path_def has_mcap_suffix_def is_control_def suffix_def Let_def)

lemmas dataset_defs =
  validate_dataset_def validate_bag_structure_def validate_bag_summaries_def
  validate_bag_metadata_def check_native_file_def check_native_channel_def
  native_counts_equal_def counters_equal_def expected_counter_def channel_counter_def
  summary_rows_def recorded_def check_intervals_def channel_key_def topic_key_def
  require_custom_def dict_by_def unique_by_distinct Let_def

lemma example_bag_accepted:
  "validate_dataset example_dataset = None"
  "validate_bag_metadata example_dataset example_metadata example_summaries (Some ''run'') = None"
  by (simp_all add: dataset_defs example_dataset_def example_metadata_def example_summaries_def
      confined_example)

theorem accepted_bag_conserved_witness:
  "bag_conserved example_dataset example_metadata example_summaries"
  by (rule accepted_bag_conserved [OF example_bag_accepted])

end
