(* ===== verification/Bindings.thy ===== *)
theory Bindings
  imports Json Vocabulary Timestamps
begin

text \<open>
  Bindings between documents of the contracts: provider requirements (contracts/providers.py),
  artifact receipts (contracts/receipts.py) and the robot description of a workload
  (contracts/workloads.py).
\<close>

section \<open>Provider requirements\<close>

text \<open>Scalars compare strictly on bool: True and 1 differ.\<close>

fun is_bool :: "attribute \<Rightarrow> bool" where
  "is_bool (ABool _) = True"
| "is_bool _ = False"

definition json_scalar_equal :: "attribute option \<Rightarrow> attribute \<Rightarrow> bool" where
  "json_scalar_equal left right =
     (case left of None \<Rightarrow> False
      | Some l \<Rightarrow> if is_bool l \<or> is_bool right then is_bool l = is_bool right \<and> attribute_eq l right
                 else attribute_eq l right)"

record scene =
  sn_semantic_scene_id :: string
  sn_entities :: "string list"
  sn_interfaces :: "string list"
  sn_physical_parameters :: attributes

record scene_requirement =
  sq_semantic_scene_id :: string
  sq_required_entities :: "string list"
  sq_required_interfaces :: "string list"
  sq_physical_parameters :: attributes

record provider_requirements =
  pr_capabilities :: "string list"
  pr_scene :: "scene_requirement option"

record capability_binding =
  cb_capabilities :: "string list"
  cb_scene :: "scene option"

datatype provider_error = Capabilities_missing | Scene_not_satisfied

definition scene_satisfies :: "scene_requirement \<Rightarrow> scene \<Rightarrow> bool" where
  "scene_satisfies requirement scene \<longleftrightarrow>
     sn_semantic_scene_id scene = sq_semantic_scene_id requirement
     \<and> set (sq_required_entities requirement) \<subseteq> set (sn_entities scene)
     \<and> set (sq_required_interfaces requirement) \<subseteq> set (sn_interfaces scene)
     \<and> list_all (\<lambda>(key, v). json_scalar_equal (map_of (sn_physical_parameters scene) key) v)
          (sq_physical_parameters requirement)"

definition scene_met :: "scene_requirement \<Rightarrow> capability_binding \<Rightarrow> bool" where
  "scene_met requirement binding =
     (case cb_scene binding of None \<Rightarrow> False | Some scene \<Rightarrow> scene_satisfies requirement scene)"

definition validate_provider_requirements ::
  "provider_requirements \<Rightarrow> capability_binding list \<Rightarrow> provider_error option" where
  "validate_provider_requirements requirements bindings =
     (let capabilities = (\<Union>b \<in> set bindings. set (cb_capabilities b)) in first_error
      [require (set (pr_capabilities requirements) - capabilities = {}) Capabilities_missing,
       (case pr_scene requirements of None \<Rightarrow> None
        | Some scene_requirement \<Rightarrow>
            require (\<exists>b \<in> set bindings. scene_met scene_requirement b) Scene_not_satisfied)])"

definition providers_suffice :: "provider_requirements \<Rightarrow> capability_binding list \<Rightarrow> bool" where
  "providers_suffice requirements bindings \<longleftrightarrow>
     (\<forall>c \<in> set (pr_capabilities requirements). \<exists>b \<in> set bindings. c \<in> set (cb_capabilities b)) \<and>
     (\<forall>q. pr_scene requirements = Some q \<longrightarrow>
        (\<exists>b \<in> set bindings. \<exists>s. cb_scene b = Some s \<and> scene_satisfies q s))"

lemma provider_requirements_accept:
  "(case requirements_bindings of (r, bs) \<Rightarrow> validate_provider_requirements r bs) = None \<longleftrightarrow>
     (case requirements_bindings of (r, bs) \<Rightarrow> providers_suffice r bs)"
  by (auto simp: validate_provider_requirements_def providers_suffice_def scene_met_def Let_def
      split: option.splits prod.splits)

interpretation provider_validator:
  validator "\<lambda>(r, bs). validate_provider_requirements r bs" "\<lambda>(r, bs). providers_suffice r bs"
  by unfold_locales (rule provider_requirements_accept)

lemma scene_satisfies_mono:
  "scene_satisfies q s \<Longrightarrow> set (sn_entities s) \<subseteq> set (sn_entities s') \<Longrightarrow>
     set (sn_interfaces s) \<subseteq> set (sn_interfaces s') \<Longrightarrow>
     sn_semantic_scene_id s' = sn_semantic_scene_id s \<Longrightarrow>
     sn_physical_parameters s' = sn_physical_parameters s \<Longrightarrow> scene_satisfies q s'"
  by (auto simp: scene_satisfies_def)

text \<open>
  Provider requirements are met exactly when every capability is offered by some binding
  and one single scene satisfies the whole scene requirement.
\<close>

theorem provider_requirements_iff:
  "validate_provider_requirements r bs = None \<longleftrightarrow> providers_suffice r bs"
  using provider_requirements_accept [of "(r, bs)"] by simp

text \<open>Adding bindings never breaks requirements that are met.\<close>

lemma providers_suffice_mono: "providers_suffice r bs \<Longrightarrow> providers_suffice r (bs @ cs)"
  unfolding providers_suffice_def set_append by blast

section \<open>Artifact receipts\<close>

record receipt =
  rc_statement_sha256 :: string
  rc_artifact :: json
  rc_producer_identity :: json
  rc_producer_implementation :: json
  rc_created_at :: string

record verification =
  vf_statement_sha256 :: string
  vf_artifact :: json
  vf_producer_identity :: json
  vf_producer_implementation :: json
  vf_verified_at :: string
  vf_trust_policy_sha256 :: string
  vf_verification_evidence_sha256 :: string
  vf_content_manifest_sha256 :: "string option"

datatype receipt_error =
    Statement_mismatch
  | Artifact_descriptor_mismatch
  | Producer_mismatch
  | Producer_implementation_mismatch
  | Receipt_bad_timestamp string
  | Receipt_before_verification
  | Dependencies_missing

definition receipt_dependencies :: "receipt \<Rightarrow> verification \<Rightarrow> string list" where
  "receipt_dependencies r v =
     [rc_statement_sha256 r, vf_trust_policy_sha256 v, vf_verification_evidence_sha256 v]
     @ (case vf_content_manifest_sha256 v of None \<Rightarrow> [] | Some digest \<Rightarrow> [digest])"

definition validate_artifact_receipt ::
  "receipt \<Rightarrow> verification \<Rightarrow> string list \<Rightarrow> receipt_error + string set" where
  "validate_artifact_receipt r v dependency_digests = checked
     (first_error
       [require (vf_statement_sha256 v = rc_statement_sha256 r) Statement_mismatch,
        require (py_eq (vf_artifact v) (rc_artifact r)) Artifact_descriptor_mismatch,
        require (py_eq (vf_producer_identity v) (rc_producer_identity r)) Producer_mismatch,
        require (py_eq (vf_producer_implementation v) (rc_producer_implementation r))
          Producer_implementation_mismatch,
        with_key (Receipt_bad_timestamp ''$.verified_at'') (parse_timestamp (vf_verified_at v))
          (\<lambda>verified_at.
        with_key (Receipt_bad_timestamp ''$.created_at'') (parse_timestamp (rc_created_at r))
          (\<lambda>created_at. require (verified_at \<le> created_at) Receipt_before_verification)),
        require (set (receipt_dependencies r v) - set dependency_digests = {})
          Dependencies_missing])
     (Inr (set (receipt_dependencies r v)))"

text \<open>
  An accepted receipt returns exactly the digests of its statement, trust policy,
  verification evidence and content manifest, all of which are retained, for a verification
  of the same statement, artifact and producer that is not later than the receipt.
\<close>

theorem accepted_receipt_is_grounded:
  "validate_artifact_receipt r v digests = Inr used \<longleftrightarrow>
     vf_statement_sha256 v = rc_statement_sha256 r \<and> py_eq (vf_artifact v) (rc_artifact r) \<and>
     py_eq (vf_producer_identity v) (rc_producer_identity r) \<and>
     py_eq (vf_producer_implementation v) (rc_producer_implementation r) \<and>
     (\<exists>verified_at created_at. parse_timestamp (vf_verified_at v) = Some verified_at \<and>
        parse_timestamp (rc_created_at r) = Some created_at \<and> verified_at \<le> created_at) \<and>
     used = {rc_statement_sha256 r, vf_trust_policy_sha256 v, vf_verification_evidence_sha256 v}
              \<union> set_option (vf_content_manifest_sha256 v) \<and>
     used \<subseteq> set digests"
proof -
  have deps: "set (receipt_dependencies r v) =
      {rc_statement_sha256 r, vf_trust_policy_sha256 v, vf_verification_evidence_sha256 v}
        \<union> set_option (vf_content_manifest_sha256 v)"
    by (cases "vf_content_manifest_sha256 v") (auto simp: receipt_dependencies_def)
  show ?thesis
    unfolding validate_artifact_receipt_def checked_Inr first_error_Cons_None require_None
      with_key_None first_error.simps(1) Diff_eq_empty_iff sum.inject deps [symmetric]
    by blast
qed

section \<open>Robot descriptions\<close>

definition validate_robot_description_binding ::
  "string option \<Rightarrow> string option \<Rightarrow> (string \<times> string option) option" where
  "validate_robot_description_binding expected observed =
     (case expected of None \<Rightarrow> None
      | Some digest \<Rightarrow> require (observed = Some digest) (digest, observed))"

lemma robot_description_accepts:
  "validate_robot_description_binding expected observed = None \<longleftrightarrow>
     expected = None \<or> observed = expected"
  by (auto simp: validate_robot_description_binding_def split: option.splits)

end
