(* ===== verification/Metric_Points.thy ===== *)
theory Metric_Points
  imports Vocabulary Float64 "HOL-Library.List_Lexorder" "HOL-Library.Char_ord"
    "HOL-Library.Product_Lexorder"
begin

text \<open>
  Metric points (harness/metrics.py): scalar and histogram samples with the checks of their
  constructors, the series key of a point, and the order on which interval coverage is sorted.
  Values, bounds and summary values are finite floats, so they are rationals here and the
  finiteness checks of the constructors hold by type.
\<close>

section \<open>Order of attribute values\<close>

text \<open>
  A series key holds (key, type name, value) triples. Within one key, values compare first by
  the type name ("bool", "float", "int", "str") and then by value.
\<close>

instantiation attribute :: linorder
begin

fun less_eq_attribute :: "attribute \<Rightarrow> attribute \<Rightarrow> bool" where
  "less_eq_attribute (ABool a) b = (case b of ABool b \<Rightarrow> a \<le> b | _ \<Rightarrow> True)"
| "less_eq_attribute (AFloat a) b = (case b of ABool _ \<Rightarrow> False | AFloat b \<Rightarrow> a \<le> b | _ \<Rightarrow> True)"
| "less_eq_attribute (AInt a) b = (case b of AInt b \<Rightarrow> a \<le> b | AStr _ \<Rightarrow> True | _ \<Rightarrow> False)"
| "less_eq_attribute (AStr a) b = (case b of AStr b \<Rightarrow> a \<le> b | _ \<Rightarrow> False)"

definition less_attribute :: "attribute \<Rightarrow> attribute \<Rightarrow> bool" where
  "less_attribute a b \<longleftrightarrow> a \<le> b \<and> \<not> b \<le> a"

instance
proof
  fix x y z :: attribute
  show "x < y \<longleftrightarrow> x \<le> y \<and> \<not> y \<le> x" by (simp add: less_attribute_def)
  show "x \<le> x" by (cases x) simp_all
  show "x \<le> y \<Longrightarrow> y \<le> z \<Longrightarrow> x \<le> z"
    by (cases x; cases y; cases z) (auto split: attribute.splits)
  show "x \<le> y \<Longrightarrow> y \<le> x \<Longrightarrow> x = y" by (cases x; cases y) (auto split: attribute.splits)
  show "x \<le> y \<or> y \<le> x" by (cases x; cases y) (auto split: attribute.splits)
qed

end

section \<open>Samples\<close>

record metric_sample =
  sa_name :: string
  sa_value :: rat
  sa_unit :: string
  sa_observed_at_ns :: int
  sa_attributes :: attributes
  sa_instrument_kind :: instrument_kind
  sa_temporality :: "temporality option"
  sa_start_time_ns :: int
  sa_monotonic :: bool

record histogram_sample =
  hs_name :: string
  hs_unit :: string
  hs_observed_at_ns :: int
  hs_count :: int
  hs_bucket_counts :: "int list"
  hs_explicit_bounds :: "rat list"
  hs_attributes :: attributes
  hs_temporality :: temporality
  hs_start_time_ns :: int
  hs_sum :: "rat option"
  hs_min :: "rat option"
  hs_max :: "rat option"

datatype point_error =
    Scalar_kind_unsupported
  | Scalar_temporality_unsupported
  | Gauge_with_temporality
  | Sum_without_temporality
  | Negative_timestamp
  | Start_after_observation
  | Histogram_temporality_unsupported
  | Negative_histogram_count
  | Bucket_count_mismatch
  | Bucket_counts_do_not_add_up
  | Bounds_not_increasing
  | Histogram_min_exceeds_max

definition validate_metric_sample :: "metric_sample \<Rightarrow> point_error option" where
  "validate_metric_sample s = first_error
     [require (sa_instrument_kind s \<in> {Gauge, Sum}) Scalar_kind_unsupported,
      require (sa_temporality s \<in> {None, Some Delta, Some Cumulative, Some Unspecified})
        Scalar_temporality_unsupported,
      require (\<not> (sa_instrument_kind s = Gauge \<and> sa_temporality s \<noteq> None)) Gauge_with_temporality,
      require (\<not> (sa_instrument_kind s = Sum \<and> sa_temporality s = None)) Sum_without_temporality,
      require (\<not> (sa_start_time_ns s < 0 \<or> sa_observed_at_ns s < 0)) Negative_timestamp,
      require (\<not> (sa_start_time_ns s \<noteq> 0 \<and> sa_observed_at_ns s < sa_start_time_ns s))
        Start_after_observation]"

text \<open>\<open>pairwise(xs)\<close>\<close>

definition pairwise_of :: "'a list \<Rightarrow> ('a \<times> 'a) list" where
  "pairwise_of xs = zip xs (tl xs)"

lemma pairwise_of_simps [simp]:
  "pairwise_of [] = []"
  "pairwise_of [x] = []"
  "pairwise_of (x # y # zs) = (x, y) # pairwise_of (y # zs)"
  by (simp_all add: pairwise_of_def)

lemma pairwise_strictly_sorted:
  "(\<forall>(a, b) \<in> set (pairwise_of xs). a < (b::'a::linorder)) \<longleftrightarrow> sorted_wrt (<) xs"
  by (induction xs rule: induct_list012) (auto intro: less_trans)

definition validate_histogram_sample :: "histogram_sample \<Rightarrow> point_error option" where
  "validate_histogram_sample h = first_error
     [require (hs_temporality h \<in> {Delta, Cumulative, Unspecified}) Histogram_temporality_unsupported,
      require (\<not> (hs_start_time_ns h < 0 \<or> hs_observed_at_ns h < 0)) Negative_timestamp,
      require (\<not> (hs_start_time_ns h \<noteq> 0 \<and> hs_observed_at_ns h < hs_start_time_ns h))
        Start_after_observation,
      require (\<not> (hs_count h < 0 \<or> (\<exists>c \<in> set (hs_bucket_counts h). c < 0)))
        Negative_histogram_count,
      require (length (hs_bucket_counts h) = length (hs_explicit_bounds h) + 1)
        Bucket_count_mismatch,
      require (sum_list (hs_bucket_counts h) = hs_count h) Bucket_counts_do_not_add_up,
      require (\<not> (\<exists>(current, following) \<in> set (pairwise_of (hs_explicit_bounds h)).
                   following \<le> current)) Bounds_not_increasing,
      require (case (hs_min h, hs_max h) of (Some lo, Some hi) \<Rightarrow> \<not> hi < lo | _ \<Rightarrow> True)
        Histogram_min_exceeds_max]"

text \<open>What a histogram that was constructed satisfies.\<close>

definition wf_histogram :: "histogram_sample \<Rightarrow> bool" where
  "wf_histogram h \<longleftrightarrow>
     length (hs_bucket_counts h) = length (hs_explicit_bounds h) + 1 \<and>
     (\<forall>c \<in> set (hs_bucket_counts h). 0 \<le> c) \<and> sum_list (hs_bucket_counts h) = hs_count h \<and>
     sorted_wrt (<) (hs_explicit_bounds h) \<and>
     (\<forall>lo hi. hs_min h = Some lo \<longrightarrow> hs_max h = Some hi \<longrightarrow> lo \<le> hi)"

lemma bounds_increasing_iff:
  "\<not> (\<exists>(a, b) \<in> set (pairwise_of xs). b \<le> (a::'a::linorder)) \<longleftrightarrow> sorted_wrt (<) xs"
  unfolding pairwise_strictly_sorted [symmetric] by (auto simp: not_le)

lemma validate_histogram_wf:
  "validate_histogram_sample h = None \<Longrightarrow> wf_histogram h"
  unfolding validate_histogram_sample_def first_error_Cons_None require_None bounds_increasing_iff
    wf_histogram_def
  by (auto simp: not_less)

section \<open>Points and series\<close>

datatype metric_point = Scalar metric_sample | Hist histogram_sample

fun pt_name :: "metric_point \<Rightarrow> string" where
  "pt_name (Scalar s) = sa_name s"
| "pt_name (Hist h) = hs_name h"

fun pt_unit :: "metric_point \<Rightarrow> string" where
  "pt_unit (Scalar s) = sa_unit s"
| "pt_unit (Hist h) = hs_unit h"

fun pt_observed_at_ns :: "metric_point \<Rightarrow> int" where
  "pt_observed_at_ns (Scalar s) = sa_observed_at_ns s"
| "pt_observed_at_ns (Hist h) = hs_observed_at_ns h"

fun pt_start_time_ns :: "metric_point \<Rightarrow> int" where
  "pt_start_time_ns (Scalar s) = sa_start_time_ns s"
| "pt_start_time_ns (Hist h) = hs_start_time_ns h"

fun pt_attributes :: "metric_point \<Rightarrow> attributes" where
  "pt_attributes (Scalar s) = sa_attributes s"
| "pt_attributes (Hist h) = hs_attributes h"

fun as_scalar :: "metric_point \<Rightarrow> metric_sample option" where
  "as_scalar (Scalar s) = Some s"
| "as_scalar (Hist h) = None"

fun as_hist :: "metric_point \<Rightarrow> histogram_sample option" where
  "as_hist (Scalar s) = None"
| "as_hist (Hist h) = Some h"

type_synonym series = "(string \<times> attribute) list"
type_synonym coverage_interval = "series \<times> int \<times> int"

definition series_key :: "attributes \<Rightarrow> series" where
  "series_key attributes = sort_key fst attributes"

lemma series_key_set [simp]: "set (series_key a) = set a"
  by (simp add: series_key_def)

end
