(* ===== verification/Histogram_Estimates.thy ===== *)
theory Histogram_Estimates
  imports Metric_Points
begin

text \<open>
  Conservative statistics of explicit-bucket histograms (harness/_histogram_estimates.py). A
  histogram only counts events per bucket; \<open>estimate_statistic\<close> returns an interval for a
  statistic of the events, and \<open>compare_estimate\<close> decides a threshold only when the whole
  interval lies on one side of it. The theorems say that both are sound for every list of
  events the histogram describes.
\<close>

section \<open>Interval bounds\<close>

text \<open>The floats a bound can be: a finite one or an infinity.\<close>

datatype bound = NegInf | Fin rat | PosInf

instantiation bound :: linorder
begin

fun less_eq_bound :: "bound \<Rightarrow> bound \<Rightarrow> bool" where
  "less_eq_bound NegInf b = True"
| "less_eq_bound (Fin x) b = (case b of NegInf \<Rightarrow> False | Fin y \<Rightarrow> x \<le> y | PosInf \<Rightarrow> True)"
| "less_eq_bound PosInf b = (b = PosInf)"

definition less_bound :: "bound \<Rightarrow> bound \<Rightarrow> bool" where
  "less_bound a b \<longleftrightarrow> a \<le> b \<and> \<not> b \<le> a"

instance
proof
  fix x y z :: bound
  show "x < y \<longleftrightarrow> x \<le> y \<and> \<not> y \<le> x" by (simp add: less_bound_def)
  show "x \<le> x" by (cases x) simp_all
  show "x \<le> y \<Longrightarrow> y \<le> z \<Longrightarrow> x \<le> z" by (cases x; cases y; cases z) auto
  show "x \<le> y \<Longrightarrow> y \<le> x \<Longrightarrow> x = y" by (cases x; cases y) auto
  show "x \<le> y \<or> y \<le> x" by (cases x; cases y) auto
qed

end

declare less_eq_bound.simps [simp del]

lemma bound_order_simps [simp]:
  "Fin x \<le> Fin y \<longleftrightarrow> x \<le> y" "NegInf \<le> b" "b \<le> PosInf" "\<not> Fin x \<le> NegInf" "\<not> PosInf \<le> Fin x"
  "Fin x < Fin y \<longleftrightarrow> x < y" "NegInf < Fin x" "Fin x < PosInf" "\<not> b < NegInf" "\<not> PosInf < b"
  by (cases b; auto simp: less_bound_def less_eq_bound.simps)+

record estimate =
  es_lower :: bound
  es_upper :: bound
  es_lower_exclusive :: bool

text \<open>The values an estimate stands for.\<close>

definition contains :: "estimate \<Rightarrow> rat \<Rightarrow> bool" where
  "contains e x \<longleftrightarrow>
     (if es_lower_exclusive e then es_lower e < Fin x else es_lower e \<le> Fin x) \<and>
     Fin x \<le> es_upper e"

datatype estimate_error =
    Bounds_inconsistent
  | Min_contradicts_buckets
  | Max_contradicts_buckets
  | Rank_not_covered
  | No_recorded_events
  | Negative_in_nonnegative_domain
  | Mean_without_sum

definition make_estimate :: "bound \<Rightarrow> bound \<Rightarrow> bool \<Rightarrow> estimate_error + estimate" where
  "make_estimate lower upper lower_exclusive =
     (if upper < lower \<or> (lower_exclusive \<and> lower = upper) then Inl Bounds_inconsistent
      else Inr \<lparr>es_lower = lower, es_upper = upper, es_lower_exclusive = lower_exclusive\<rparr>)"

text \<open>\<open>Estimate.compare\<close>: (passed, failed) per operator; neither is skipped.\<close>

definition strictly_above :: "estimate \<Rightarrow> rat \<Rightarrow> bool" where
  "strictly_above e threshold \<longleftrightarrow>
     Fin threshold < es_lower e \<or> (es_lower_exclusive e \<and> es_lower e = Fin threshold)"

fun compare_outcomes :: "estimate \<Rightarrow> rat \<Rightarrow> comparison \<Rightarrow> bool \<times> bool" where
  "compare_outcomes e t Lt = (es_upper e < Fin t, Fin t \<le> es_lower e)"
| "compare_outcomes e t Lte = (es_upper e \<le> Fin t, strictly_above e t)"
| "compare_outcomes e t Gt = (strictly_above e t, es_upper e \<le> Fin t)"
| "compare_outcomes e t Gte = (Fin t \<le> es_lower e, es_upper e < Fin t)"
| "compare_outcomes e t Eq =
     (es_lower e = es_upper e \<and> es_upper e = Fin t, strictly_above e t \<or> es_upper e < Fin t)"

definition compare_estimate :: "estimate \<Rightarrow> comparison \<Rightarrow> rat \<Rightarrow> outcome" where
  "compare_estimate e operator threshold =
     (case compare_outcomes e threshold operator of
        (passed, failed) \<Rightarrow> if passed then Passed else if failed then Failed else Skipped)"

fun holds :: "comparison \<Rightarrow> rat \<Rightarrow> rat \<Rightarrow> bool" where
  "holds Lt x t = (x < t)"
| "holds Lte x t = (x \<le> t)"
| "holds Eq x t = (x = t)"
| "holds Gte x t = (t \<le> x)"
| "holds Gt x t = (t < x)"

lemma compare_estimate_sound:
  assumes "contains e x"
  shows "compare_estimate e op t = Passed \<Longrightarrow> holds op x t"
    and "compare_estimate e op t = Failed \<Longrightarrow> \<not> holds op x t"
    and "compare_estimate e op t \<in> {Passed, Failed, Skipped}"
proof -
  have up: "Fin x \<le> es_upper e" and lo: "es_lower e \<le> Fin x"
    and ex: "es_lower_exclusive e \<Longrightarrow> es_lower e < Fin x"
    using assms by (auto simp: contains_def split: if_splits)
  have above: "strictly_above e t \<Longrightarrow> t < x"
    using lo ex by (auto simp: strictly_above_def dest: less_le_trans)
  have below: "es_upper e < Fin t \<Longrightarrow> x < t" "es_upper e \<le> Fin t \<Longrightarrow> x \<le> t"
    using le_less_trans [OF up, of "Fin t"] order_trans [OF up, of "Fin t"] by simp_all
  have least: "Fin t \<le> es_lower e \<Longrightarrow> t \<le> x"
    using order_trans [OF _ lo, of "Fin t"] by simp
  show "compare_estimate e op t \<in> {Passed, Failed, Skipped}"
    by (simp add: compare_estimate_def split: prod.splits)
  have passed: "fst (compare_outcomes e t op) \<Longrightarrow> holds op x t"
    by (cases op) (use lo up in \<open>auto dest: above below least\<close>)
  have failed: "snd (compare_outcomes e t op) \<Longrightarrow> \<not> holds op x t"
    by (cases op) (auto dest: above below least)
  show "compare_estimate e op t = Passed \<Longrightarrow> holds op x t"
    "compare_estimate e op t = Failed \<Longrightarrow> \<not> holds op x t"
    using passed failed by (auto simp: compare_estimate_def split: prod.splits if_splits)
qed

section \<open>Estimates of a histogram\<close>

definition bucket_lower :: "histogram_sample \<Rightarrow> nat \<Rightarrow> bound" where
  "bucket_lower h index = (if index \<noteq> 0 then Fin (hs_explicit_bounds h ! (index - 1)) else NegInf)"

definition bucket_upper :: "histogram_sample \<Rightarrow> nat \<Rightarrow> bound" where
  "bucket_upper h index =
     (if index < length (hs_explicit_bounds h) then Fin (hs_explicit_bounds h ! index) else PosInf)"

definition clamp_lower :: "histogram_sample \<Rightarrow> bool \<Rightarrow> bound \<Rightarrow> bound" where
  "clamp_lower h nonnegative lower =
     (let lower = (if nonnegative then max (Fin 0) lower else lower) in
      case hs_min h of None \<Rightarrow> lower | Some m \<Rightarrow> max (Fin m) lower)"

definition clamp_upper :: "histogram_sample \<Rightarrow> bound \<Rightarrow> bound" where
  "clamp_upper h upper = (case hs_max h of None \<Rightarrow> upper | Some m \<Rightarrow> min (Fin m) upper)"

definition bucket_estimate :: "histogram_sample \<Rightarrow> nat \<Rightarrow> bool \<Rightarrow> estimate_error + estimate" where
  "bucket_estimate h index nonnegative =
     (let lower = clamp_lower h nonnegative (bucket_lower h index);
          upper = clamp_upper h (bucket_upper h index)
      in make_estimate lower upper (index \<noteq> 0 \<and> lower = bucket_lower h index))"

text \<open>\<open>bisect_left\<close> on increasing bounds: the bucket a value falls into.\<close>

definition bisect_left :: "rat list \<Rightarrow> rat \<Rightarrow> nat" where
  "bisect_left bounds x = length (takeWhile (\<lambda>b. b < x) bounds)"

definition occupied :: "histogram_sample \<Rightarrow> nat list" where
  "occupied h = filter (\<lambda>i. hs_bucket_counts h ! i \<noteq> 0) [0..<length (hs_bucket_counts h)]"

definition check_extremum ::
  "histogram_sample \<Rightarrow> rat option \<Rightarrow> nat \<Rightarrow> estimate_error \<Rightarrow> estimate_error option" where
  "check_extremum h extremum bucket e =
     (case extremum of None \<Rightarrow> None
      | Some v \<Rightarrow> require (bisect_left (hs_explicit_bounds h) v = bucket) e)"

definition validate_extrema :: "histogram_sample \<Rightarrow> estimate_error option" where
  "validate_extrema h =
     (if hs_min h = None \<and> hs_max h = None then None
      else first_error
        [check_extremum h (hs_min h) (hd (occupied h)) Min_contradicts_buckets,
         check_extremum h (hs_max h) (last (occupied h)) Max_contradicts_buckets])"

fun rank_bucket_from :: "nat \<Rightarrow> int \<Rightarrow> int \<Rightarrow> int list \<Rightarrow> estimate_error + nat" where
  "rank_bucket_from index cumulative rank [] = Inl Rank_not_covered"
| "rank_bucket_from index cumulative rank (c # cs) =
     (if rank \<le> cumulative + c then Inr index
      else rank_bucket_from (Suc index) (cumulative + c) rank cs)"

definition rank_bucket :: "histogram_sample \<Rightarrow> int \<Rightarrow> estimate_error + nat" where
  "rank_bucket h rank = rank_bucket_from 0 0 rank (hs_bucket_counts h)"

definition has_negative_event :: "histogram_sample \<Rightarrow> bool" where
  "has_negative_event h \<longleftrightarrow>
     (case hs_min h of None \<Rightarrow> False | Some m \<Rightarrow> m < 0)
     \<or> (case hs_sum h of None \<Rightarrow> False | Some s \<Rightarrow> s < 0)
     \<or> (\<exists>(upper, count) \<in> set (zip (hs_explicit_bounds h) (hs_bucket_counts h)).
          upper < 0 \<and> 0 < count)"

text \<open>\<open>Fraction\<close> numerators and denominators of the quantiles.\<close>

fun quantile :: "aggregation \<Rightarrow> (int \<times> int) option" where
  "quantile Agg_p50 = Some (1, 2)"
| "quantile Agg_p95 = Some (19, 20)"
| "quantile Agg_p99 = Some (99, 100)"
| "quantile _ = None"

definition quantile_rank :: "int \<Rightarrow> int \<times> int \<Rightarrow> int" where
  "quantile_rank count q = (count * fst q + snd q - 1) div snd q"

definition rank_of :: "int \<Rightarrow> aggregation \<Rightarrow> int" where
  "rank_of count aggregation =
     (if aggregation = Agg_min then 1
      else if aggregation = Agg_max then count
      else (case quantile aggregation of None \<Rightarrow> 1 | Some q \<Rightarrow> quantile_rank (count) q))"

definition recorded_extremum :: "histogram_sample \<Rightarrow> aggregation \<Rightarrow> rat option" where
  "recorded_extremum h aggregation =
     (if aggregation = Agg_min then hs_min h
      else if aggregation = Agg_max then hs_max h else None)"

definition rank_estimate ::
  "histogram_sample \<Rightarrow> aggregation \<Rightarrow> bool \<Rightarrow> estimate_error + estimate" where
  "rank_estimate h aggregation nonnegative =
     (case recorded_extremum h aggregation of
        Some v \<Rightarrow> make_estimate (Fin v) (Fin v) False
      | None \<Rightarrow> and_then (rank_bucket h (rank_of (hs_count h) aggregation))
                 (\<lambda>index. bucket_estimate h index nonnegative))"

definition estimate_statistic ::
  "histogram_sample \<Rightarrow> aggregation \<Rightarrow> bool \<Rightarrow> estimate_error + estimate" where
  "estimate_statistic h aggregation nonnegative =
     checked (when_check (hs_count h \<noteq> 0) (validate_extrema h))
       (if aggregation = Agg_count
        then make_estimate (Fin (of_int (hs_count h))) (Fin (of_int (hs_count h))) False
        else if hs_count h = 0 then Inl No_recorded_events
        else if nonnegative \<and> has_negative_event h then Inl Negative_in_nonnegative_domain
        else if aggregation = Agg_mean
        then (case hs_sum h of None \<Rightarrow> Inl Mean_without_sum
              | Some s \<Rightarrow> (let mean = fl (s / fl (of_int (hs_count h)))
                          in make_estimate (Fin mean) (Fin mean) False))
        else rank_estimate h aggregation nonnegative)"

section \<open>Order statistics\<close>

text \<open>
  The rank is the ceiling of the quantile times the count, computed in integers.
\<close>

lemma quantile_rank_ceiling:
  assumes "0 < d"
  shows "quantile_rank n (p, d) = \<lceil>of_int (n * p) / (of_int d :: rat)\<rceil>"
proof -
  define k where "k = (n * p + d - 1) div d"
  have "d * k \<le> n * p + d - 1" "n * p + d - 1 < d * k + d"
    unfolding k_def
    using pos_mod_sign [OF assms, of "n * p + d - 1"] pos_mod_bound [OF assms, of "n * p + d - 1"]
      mult_div_mod_eq [of d "n * p + d - 1"] by linarith+
  then have "d * (k - 1) < n * p" "n * p \<le> d * k" by (simp_all add: algebra_simps)
  then have "(of_int (d * (k - 1)) :: rat) < of_int (n * p)" "(of_int (n * p) :: rat) \<le> of_int (d * k)"
    by (simp_all only: of_int_less_iff of_int_le_iff)
  then have "\<lceil>of_int (n * p) / (of_int d :: rat)\<rceil> = k"
    using assms by (intro ceiling_unique) (simp_all add: field_simps)
  then show ?thesis by (simp add: quantile_rank_def k_def)
qed

lemma quantile_rank_bounds:
  assumes "0 < n" "quantile a = Some q"
  shows "1 \<le> quantile_rank n q" "quantile_rank n q \<le> n"
  using assms by (cases a; auto simp: quantile_rank_def)+

lemma rank_of_bounds: "0 < n \<Longrightarrow> 1 \<le> rank_of n a \<and> rank_of n a \<le> n"
  by (auto simp: rank_of_def quantile_rank_bounds split: option.splits)

text \<open>On a sorted list a downward closed predicate holds exactly on a front segment.\<close>

lemma sorted_filter_index:
  assumes "sorted (xs :: 'a::linorder list)" and down: "\<And>x y. x \<le> y \<Longrightarrow> P y \<Longrightarrow> P x"
    and "k < length xs"
  shows "P (xs ! k) \<longleftrightarrow> k < length (filter P xs)"
  using assms(1,3)
proof (induction xs arbitrary: k)
  case (Cons x xs)
  show ?case
  proof (cases "P x")
    case True
    with Cons show ?thesis by (cases k) auto
  next
    case False
    have "\<not> P ((x # xs) ! k)"
    proof
      assume "P ((x # xs) ! k)"
      moreover have "x \<le> (x # xs) ! k" using Cons.prems by (cases k) auto
      ultimately show False using down False by blast
    qed
    moreover have "filter P xs = []"
      using False down Cons.prems by (auto simp: filter_empty_conv)
    ultimately show ?thesis using False by simp
  qed
qed simp

section \<open>The events a histogram describes\<close>

text \<open>
  A histogram describes a list of events when every bucket counts the events that fall into
  it and the recorded extrema are those of the events.
\<close>

definition bucket_events :: "histogram_sample \<Rightarrow> nat \<Rightarrow> rat list \<Rightarrow> rat list" where
  "bucket_events h i es = filter (\<lambda>x. bisect_left (hs_explicit_bounds h) x = i) es"

definition describes :: "histogram_sample \<Rightarrow> rat list \<Rightarrow> bool" where
  "describes h es \<longleftrightarrow>
     wf_histogram h \<and>
     (\<forall>i < length (hs_bucket_counts h).
        hs_bucket_counts h ! i = int (length (bucket_events h i es))) \<and>
     (\<forall>m. hs_min h = Some m \<longrightarrow> es \<noteq> [] \<longrightarrow> m = Min (set es)) \<and>
     (\<forall>m. hs_max h = Some m \<longrightarrow> es \<noteq> [] \<longrightarrow> m = Max (set es))"

text \<open>The statistics of the events themselves; quantiles invert the empirical distribution.\<close>

definition rank_statistic :: "nat \<Rightarrow> rat list \<Rightarrow> rat" where
  "rank_statistic k es = sort es ! k"

definition true_statistic :: "aggregation \<Rightarrow> rat list \<Rightarrow> rat" where
  "true_statistic a es =
     (if a = Agg_count then of_nat (length es) else rank_statistic (nat (rank_of (int (length es)) a) - 1) es)"

lemma bisect_left_le: "bisect_left bs x \<le> length bs"
  by (simp add: bisect_left_def length_takeWhile_le)

lemma bisect_left_mono: "x \<le> y \<Longrightarrow> bisect_left bs x \<le> bisect_left bs y"
  unfolding bisect_left_def by (induction bs) auto

lemma bisect_left_lower:
  "0 < bisect_left bs x \<Longrightarrow> bs ! (bisect_left bs x - 1) < x"
  using set_takeWhileD [of _ "\<lambda>b. b < x" bs]
  by (metis One_nat_def bisect_left_def diff_less nth_mem takeWhile_nth zero_less_one)

lemma bisect_left_upper:
  "bisect_left bs x < length bs \<Longrightarrow> x \<le> bs ! bisect_left bs x"
  unfolding bisect_left_def using nth_length_takeWhile [of "\<lambda>b. b < x" bs] by simp

lemma sum_take_counts:
  assumes "describes h es" and "k \<le> length (hs_bucket_counts h)"
  shows "sum_list (take k (hs_bucket_counts h)) =
     int (length (filter (\<lambda>x. bisect_left (hs_explicit_bounds h) x < k) es))"
  using assms(2)
proof (induction k)
  case (Suc k)
  have "filter (\<lambda>x. bisect_left (hs_explicit_bounds h) x < Suc k) es =
      filter (\<lambda>x. bisect_left (hs_explicit_bounds h) x < k \<or> bisect_left (hs_explicit_bounds h) x = k) es"
    by (intro filter_cong) auto
  moreover have "length (filter (\<lambda>x. bisect_left (hs_explicit_bounds h) x < k \<or>
        bisect_left (hs_explicit_bounds h) x = k) es) =
      length (filter (\<lambda>x. bisect_left (hs_explicit_bounds h) x < k) es) + length (bucket_events h k es)"
    unfolding bucket_events_def by (induction es) auto
  moreover have "hs_bucket_counts h ! k = int (length (bucket_events h k es))"
    using assms(1) Suc.prems by (simp add: describes_def)
  ultimately show ?case using Suc by (simp add: take_Suc_conv_app_nth)
qed simp

lemma describes_count: "describes h es \<Longrightarrow> hs_count h = int (length es)"
proof -
  assume d: "describes h es"
  then have len: "length (hs_bucket_counts h) = length (hs_explicit_bounds h) + 1"
    and sum: "sum_list (hs_bucket_counts h) = hs_count h"
    by (simp_all add: describes_def wf_histogram_def)
  have "filter (\<lambda>x. bisect_left (hs_explicit_bounds h) x < length (hs_bucket_counts h)) es = es"
    using bisect_left_le len by (simp add: filter_id_conv less_Suc_eq_le)
  then show ?thesis
    using sum_take_counts [OF d, of "length (hs_bucket_counts h)"] sum by simp
qed

text \<open>The rank search finds the bucket of the event with that rank.\<close>

lemma rank_bucket_from_found:
  assumes "rank \<le> c + sum_list cs" "c < rank"
  shows "\<exists>i < length cs. rank_bucket_from n c rank cs = Inr (n + i) \<and>
     c + sum_list (take i cs) < rank \<and> rank \<le> c + sum_list (take (Suc i) cs)"
  using assms
proof (induction cs arbitrary: n c)
  case (Cons x cs)
  show ?case
  proof (cases "rank \<le> c + x")
    case True
    with Cons.prems show ?thesis by (intro exI [of _ 0]) simp
  next
    case False
    with Cons.prems Cons.IH [of "c + x" "Suc n"] obtain i where "i < length cs"
      "rank_bucket_from (Suc n) (c + x) rank cs = Inr (Suc n + i)"
      "c + x + sum_list (take i cs) < rank" "rank \<le> c + x + sum_list (take (Suc i) cs)"
      by (auto simp: algebra_simps)
    with False show ?thesis by (intro exI [of _ "Suc i"]) (simp add: add.assoc)
  qed
qed simp

lemma rank_bucket_correct:
  assumes d: "describes h es" and r: "1 \<le> rank" "rank \<le> hs_count h"
  shows "rank_bucket h rank = Inr (bisect_left (hs_explicit_bounds h) (rank_statistic (nat rank - 1) es))"
proof -
  let ?cs = "hs_bucket_counts h" and ?b = "\<lambda>x. bisect_left (hs_explicit_bounds h) x"
  have "rank \<le> 0 + sum_list ?cs" using r d by (simp add: describes_def wf_histogram_def)
  from rank_bucket_from_found [OF this, of 0] r obtain i where i: "i < length ?cs"
    "rank_bucket h rank = Inr i" "sum_list (take i ?cs) < rank" "rank \<le> sum_list (take (Suc i) ?cs)"
    unfolding rank_bucket_def by auto
  define k where "k = nat rank - 1"
  have k: "k < length (sort es)" "rank = int k + 1"
    using r describes_count [OF d] by (simp_all add: k_def)
  have sorted_cut: "?b (sort es ! k) < j \<longleftrightarrow> rank \<le> sum_list (take j ?cs)" if "j \<le> length ?cs" for j
  proof -
    have "?b (sort es ! k) < j \<longleftrightarrow> k < length (filter (\<lambda>x. ?b x < j) (sort es))"
      using k(1) by (intro sorted_filter_index) (auto dest: bisect_left_mono le_less_trans)
    also have "length (filter (\<lambda>x. ?b x < j) (sort es)) = length (filter (\<lambda>x. ?b x < j) es)"
      by (metis filter_sort length_sort)
    finally show ?thesis using sum_take_counts [OF d that] k(2) by auto
  qed
  have "?b (sort es ! k) = i"
    using sorted_cut [of i] sorted_cut [of "Suc i"] i by auto
  with i(2) show ?thesis by (simp add: rank_statistic_def k_def)
qed

section \<open>Soundness of the estimates\<close>

lemma describes_extrema:
  assumes "describes h es" "x \<in> set es"
  shows "hs_min h = Some m \<Longrightarrow> m \<le> x" "hs_max h = Some m \<Longrightarrow> x \<le> m"
  using assms by (auto simp: describes_def)

text \<open>An event lies in the estimate of its own bucket, whatever extrema are recorded.\<close>

lemma bucket_estimate_sound:
  assumes d: "describes h es" and x: "x \<in> set es"
    and i: "i = bisect_left (hs_explicit_bounds h) x" and nn: "nonnegative \<Longrightarrow> 0 \<le> x"
  shows "\<exists>e. bucket_estimate h i nonnegative = Inr e \<and> contains e x"
proof -
  let ?low = "clamp_lower h nonnegative (bucket_lower h i)"
  let ?up = "clamp_upper h (bucket_upper h i)"
  have bl: "i = 0 \<or> bucket_lower h i < Fin x"
    using bisect_left_lower [of "hs_explicit_bounds h" x] i by (auto simp: bucket_lower_def)
  then have "bucket_lower h i \<le> Fin x" by (auto simp: bucket_lower_def)
  with nn have low: "?low \<le> Fin x"
    using describes_extrema(1) [OF d x] by (auto simp: clamp_lower_def Let_def split: option.splits)
  have "Fin x \<le> bucket_upper h i"
    using bisect_left_upper [of "hs_explicit_bounds h" x] i by (auto simp: bucket_upper_def)
  then have up: "Fin x \<le> ?up"
    using describes_extrema(2) [OF d x] by (auto simp: clamp_upper_def split: option.splits)
  define excl where "excl \<longleftrightarrow> i \<noteq> 0 \<and> ?low = bucket_lower h i"
  have strict: "excl \<Longrightarrow> ?low < Fin x" using bl by (auto simp: excl_def)
  have "bucket_estimate h i nonnegative =
      Inr \<lparr>es_lower = ?low, es_upper = ?up, es_lower_exclusive = excl\<rparr>"
    using low up strict unfolding bucket_estimate_def make_estimate_def Let_def excl_def [symmetric]
    by (auto dest: order_trans less_le_trans)
  with low up strict show ?thesis by (simp add: contains_def)
qed

lemma occupied_iff:
  assumes "describes h es"
  shows "i \<in> set (occupied h) \<longleftrightarrow> (\<exists>x \<in> set es. bisect_left (hs_explicit_bounds h) x = i)"
proof -
  have len: "length (hs_bucket_counts h) = length (hs_explicit_bounds h) + 1"
    using assms by (simp add: describes_def wf_histogram_def)
  show ?thesis
  proof (cases "i < length (hs_bucket_counts h)")
    case True
    then have "hs_bucket_counts h ! i = int (length (bucket_events h i es))"
      using assms by (simp add: describes_def)
    with True show ?thesis by (auto simp: occupied_def bucket_events_def filter_empty_conv)
  next
    case False
    then show ?thesis
      using len bisect_left_le [of "hs_explicit_bounds h"] by (auto simp: occupied_def not_less Suc_le_eq dest: leD)
  qed
qed

lemma sorted_occupied: "sorted (occupied h)"
  unfolding occupied_def using sorted_wrt_filter [OF sorted_upt] by blast

lemma sorted_hd_last:
  assumes "sorted (xs :: nat list)" "i \<in> set xs"
  shows "hd xs \<le> i" "i \<le> last xs"
  using assms by (induction xs) (auto split: if_splits)

text \<open>The recorded extrema of described events pass the check against the buckets.\<close>

lemma validate_extrema_describes:
  assumes d: "describes h es" and ne: "es \<noteq> []"
  shows "validate_extrema h = None"
proof -
  let ?b = "bisect_left (hs_explicit_bounds h)"
  have ends: "hd (occupied h) = ?b (Min (set es)) \<and> last (occupied h) = ?b (Max (set es))"
  proof -
    have mem: "?b (Min (set es)) \<in> set (occupied h)" "?b (Max (set es)) \<in> set (occupied h)"
      using ne occupied_iff [OF d] by auto
    then have nonempty: "occupied h \<noteq> []" by auto
    have "?b (Min (set es)) \<le> i \<and> i \<le> ?b (Max (set es))" if "i \<in> set (occupied h)" for i
      using that occupied_iff [OF d] by (auto intro!: bisect_left_mono)
    with nonempty mem show ?thesis
      using sorted_hd_last [OF sorted_occupied] by (meson hd_in_set last_in_set order.antisym)
  qed
  have "hs_min h = Some m \<Longrightarrow> m = Min (set es)" "hs_max h = Some m \<Longrightarrow> m = Max (set es)" for m
    using d ne by (simp_all add: describes_def)
  with ends show ?thesis
    by (auto simp: validate_extrema_def check_extremum_def split: option.splits)
qed

lemma no_negative_event:
  assumes d: "describes h es" and nn: "\<forall>e \<in> set es. 0 \<le> e" and ne: "es \<noteq> []"
    and sum: "\<forall>s. hs_sum h = Some s \<longrightarrow> 0 \<le> s"
  shows "\<not> has_negative_event h"
proof -
  have len: "length (hs_bucket_counts h) = length (hs_explicit_bounds h) + 1"
    using d by (simp add: describes_def wf_histogram_def)
  have "\<not> 0 < c" if "(u, c) \<in> set (zip (hs_explicit_bounds h) (hs_bucket_counts h))" "u < 0" for u c
  proof -
    from that obtain i where i: "i < length (hs_explicit_bounds h)" "u = hs_explicit_bounds h ! i"
      "c = hs_bucket_counts h ! i" by (auto simp: set_zip)
    have "bucket_events h i es = []"
    proof (rule ccontr)
      assume "bucket_events h i es \<noteq> []"
      then obtain x where "x \<in> set es" "bisect_left (hs_explicit_bounds h) x = i"
        by (auto simp: bucket_events_def filter_empty_conv)
      with i nn that(2) bisect_left_upper [of "hs_explicit_bounds h" x] show False by force
    qed
    then have "c = 0" using d i len by (simp add: describes_def)
    then show ?thesis by simp
  qed
  moreover have "0 \<le> m" if "hs_min h = Some m" for m
    using d nn ne that by (simp add: describes_def)
  moreover have "0 \<le> s" if "hs_sum h = Some s" for s
    using sum that by simp
  ultimately show ?thesis
    by (fastforce simp: has_negative_event_def not_less split: option.splits)
qed

lemma rank_statistic_mem: "k < length es \<Longrightarrow> rank_statistic k es \<in> set es"
  by (metis length_sort nth_mem rank_statistic_def set_sort)

lemma rank_statistic_ends:
  assumes "es \<noteq> []"
  shows "rank_statistic 0 es = Min (set es)" "rank_statistic (length es - 1) es = Max (set es)"
proof -
  have s: "sort es \<noteq> []" using assms by (metis length_0_conv length_sort)
  have lo: "sort es ! 0 \<le> x" and hi: "x \<le> sort es ! (length es - 1)" if x: "x \<in> set es" for x
  proof -
    from x obtain k where "k < length es" "x = sort es ! k"
      by (metis in_set_conv_nth length_sort set_sort)
    then show "sort es ! 0 \<le> x" "x \<le> sort es ! (length es - 1)"
      by (auto intro!: sorted_nth_mono)
  qed
  have "sort es ! 0 \<in> set es" "sort es ! (length es - 1) \<in> set es"
    using rank_statistic_mem [of 0 es] rank_statistic_mem [of "length es - 1" es] assms
    by (simp_all add: rank_statistic_def)
  with lo hi show "rank_statistic 0 es = Min (set es)" "rank_statistic (length es - 1) es = Max (set es)"
    unfolding rank_statistic_def by (auto intro!: Min_eqI [symmetric] Max_eqI [symmetric])
qed

lemma rank_estimate_sound:
  assumes d: "describes h es" and ne: "es \<noteq> []" and nn: "nonnegative \<Longrightarrow> \<forall>e \<in> set es. 0 \<le> e"
  shows "\<exists>e. rank_estimate h a nonnegative = Inr e \<and>
     contains e (rank_statistic (nat (rank_of (int (length es)) a) - 1) es)"
proof -
  let ?k = "nat (rank_of (int (length es)) a) - 1"
  note cnt = describes_count [OF d]
  have n: "0 < int (length es)" using ne by simp
  note r = rank_of_bounds [OF n, of a]
  have mem: "rank_statistic ?k es \<in> set es"
    using r by (intro rank_statistic_mem) linarith
  show ?thesis
  proof (cases "recorded_extremum h a")
    case None
    have "rank_bucket h (rank_of (int (length es)) a) = Inr (bisect_left (hs_explicit_bounds h) (rank_statistic ?k es))"
      using rank_bucket_correct [OF d] r cnt by simp
    with None bucket_estimate_sound [OF d mem refl] nn mem show ?thesis
      by (simp add: rank_estimate_def cnt)
  next
    case (Some v)
    then have "v = rank_statistic ?k es"
      using d ne rank_statistic_ends [OF ne] describes_count [OF d]
      by (auto simp: recorded_extremum_def rank_of_def describes_def split: if_splits)
    with Some show ?thesis by (simp add: rank_estimate_def make_estimate_def contains_def)
  qed
qed

lemma estimate_contains_statistic:
  assumes "describes h es" and "es \<noteq> []" and "a \<noteq> Agg_mean"
    and nn: "nonnegative \<Longrightarrow> \<forall>e \<in> set es. 0 \<le> e"
    and sum: "nonnegative \<Longrightarrow> \<forall>s. hs_sum h = Some s \<longrightarrow> 0 \<le> s"
  shows "\<exists>e. estimate_statistic h a nonnegative = Inr e \<and> contains e (true_statistic a es)"
proof -
  have n: "hs_count h = int (length es)" using assms(1) by (rule describes_count)
  have ok: "validate_extrema h = None" using assms(1,2) by (rule validate_extrema_describes)
  have neg: "\<not> (nonnegative \<and> has_negative_event h)"
    using no_negative_event [OF assms(1) nn assms(2) sum] by blast
  show ?thesis
  proof (cases "a = Agg_count")
    case True
    then have "estimate_statistic h a nonnegative = make_estimate
        (Fin (of_nat (length es))) (Fin (of_nat (length es))) False"
      using ok n by (simp add: estimate_statistic_def when_check_def)
    with True show ?thesis by (auto simp: make_estimate_def contains_def true_statistic_def)
  next
    case False
    then have "estimate_statistic h a nonnegative = rank_estimate h a nonnegative"
      using ok neg n assms(2,3) by (auto simp: estimate_statistic_def when_check_def)
    with False rank_estimate_sound [OF assms(1,2) nn] show ?thesis by (simp add: true_statistic_def)
  qed
qed

text \<open>
  C20: For every list of events a histogram describes, the estimate of a count, an extremum or
  a quantile exists and contains the true statistic of those events, so a threshold the
  comparison passes or fails is passed or failed by the events themselves. The domain may
  only be declared nonnegative when the events and the recorded sum are.
\<close>

theorem histogram_verdict_sound:
  assumes "describes h es" and "es \<noteq> []" and "a \<noteq> Agg_mean"
    and "nonnegative \<Longrightarrow> \<forall>e \<in> set es. 0 \<le> e"
    and "nonnegative \<Longrightarrow> \<forall>s. hs_sum h = Some s \<longrightarrow> 0 \<le> s"
  shows "\<exists>e. estimate_statistic h a nonnegative = Inr e \<and> contains e (true_statistic a es) \<and>
     (compare_estimate e op t = Passed \<longrightarrow> holds op (true_statistic a es) t) \<and>
     (compare_estimate e op t = Failed \<longrightarrow> \<not> holds op (true_statistic a es) t)"
  using estimate_contains_statistic [OF assms] compare_estimate_sound by blast

text \<open>Four latencies in three buckets, with the recorded minimum.\<close>

definition example_histogram :: histogram_sample where
  "example_histogram =
     \<lparr>hs_name = ''latency'', hs_unit = ''ms'', hs_observed_at_ns = 9, hs_count = 4,
      hs_bucket_counts = [1, 2, 1], hs_explicit_bounds = [5, 10], hs_attributes = [],
      hs_temporality = Delta, hs_start_time_ns = 1, hs_sum = Some 33, hs_min = Some 2,
      hs_max = None\<rparr>"

lemma example_histogram_describes: "describes example_histogram [7, 2, 10, 14]"
  by (simp add: describes_def wf_histogram_def example_histogram_def bucket_events_def
      bisect_left_def less_Suc_eq nth_Cons')

theorem histogram_verdict_sound_witness:
  "\<exists>e. estimate_statistic example_histogram Agg_p50 True = Inr e \<and>
     contains e (true_statistic Agg_p50 [7, 2, 10, 14])"
  using histogram_verdict_sound [OF example_histogram_describes, of Agg_p50 True Lt 1]
  by (auto simp: example_histogram_def)

end
