(* ===== verification/Metric_Windows.thy ===== *)
theory Metric_Windows
  imports Histogram_Estimates "HOL-Library.Multiset"
begin

text \<open>
  Evaluation windows of metric points (harness/metrics.py): the delta points inside a window,
  the intervals the points cover, and the rule that every series leaves at most a small part
  of the window uncovered. The errors of the whole metrics module are declared here.
\<close>

section \<open>Errors\<close>

text \<open>One constructor per \<open>raise\<close>; the exception class is the outer constructor.\<close>

datatype metric_site =
    Delta_interval_empty | Delta_intervals_overlap
  | Coverage_interval_empty | Coverage_intervals_overlap | Coverage_intervals_gapped
  | Tolerance_negative | Window_duration_not_positive | No_interval_coverage
  | Starts_outside_tolerance | Ends_outside_tolerance | Window_not_covered
  | No_histogram_samples | Histogram_identity_changed | Boundaries_changed | Counters_backwards
  | Sum_availability_changed | Series_identity_changed | Duplicate_observations
  | Reset_without_start | No_baseline | Baseline_precedes_window
  | Mixed_temporalities | Temporality_unspecified | No_histogram_events
  | Incompatible_identities | Incompatible_boundaries
  | Histogram_without_events | Mean_needs_sum | Estimate_rejected estimate_error
  | No_metric_samples | No_scalar_in_window | Mixed_scalar_kinds | Sum_needs_counter_delta
  | Mixed_point_kinds | Only_bounded
  | No_counter_points | Counter_unit_mismatch | Not_monotonic_sum | Negative_counter
  | No_delta_points | Cumulative_backwards | Cumulative_interval_empty
  | No_cumulative_points | Cumulative_intervals_overlap
  | Duration_needs_gauges | Duration_needs_one_series | Sample_gap
  | Window_half_given | Window_reversed
  | No_delivery_latency | Delivery_latency_kind

datatype metric_error =
    Aggregation metric_site
  | Insufficient metric_site
  | Input metric_site
  | Invalid_point point_error

definition METRIC_WINDOW_COVERAGE_TOLERANCE_NS :: int where
  "METRIC_WINDOW_COVERAGE_TOLERANCE_NS = 1000000000"

definition METRIC_WINDOW_MAX_UNCOVERED_FRACTION :: rat where
  "METRIC_WINDOW_MAX_UNCOVERED_FRACTION = fl (1 / 20)"

text \<open>Python's \<open>int()\<close> on a float truncates towards zero.\<close>

definition py_int :: "rat \<Rightarrow> int" where
  "py_int x = (if 0 \<le> x then \<lfloor>x\<rfloor> else \<lceil>x\<rceil>)"

lemma py_int_le: "0 \<le> x \<Longrightarrow> of_int (py_int x) \<le> x"
  by (simp add: py_int_def)

lemma py_int_nonneg: "0 \<le> x \<Longrightarrow> 0 \<le> py_int x"
  by (simp add: py_int_def)

section \<open>Delta points\<close>

text \<open>The loop over one series; the previous end is None before the first point.\<close>

fun no_overlap :: "int option \<Rightarrow> metric_point list \<Rightarrow> metric_error option" where
  "no_overlap previous_end [] = None"
| "no_overlap previous_end (p # ps) = first_error
     [require (case previous_end of None \<Rightarrow> True | Some e \<Rightarrow> e \<le> pt_start_time_ns p)
        (Aggregation Delta_intervals_overlap),
      no_overlap (Some (pt_observed_at_ns p)) ps]"

definition point_series :: "metric_point \<Rightarrow> series" where
  "point_series p = series_key (pt_attributes p)"

definition delta_selected :: "int \<Rightarrow> int \<Rightarrow> metric_point list \<Rightarrow> metric_point list" where
  "delta_selected window_start window_end samples =
     filter (\<lambda>p. window_start \<le> pt_observed_at_ns p \<and> pt_observed_at_ns p \<le> window_end
                 \<and> window_start \<le> pt_start_time_ns p) samples"

definition validated_delta_points ::
  "int \<Rightarrow> int \<Rightarrow> metric_point list \<Rightarrow> metric_error + metric_point list" where
  "validated_delta_points window_start window_end samples =
     (let selected = delta_selected window_start window_end samples in
      checked (first_error
        [each (\<lambda>_ p. require (pt_start_time_ns p < pt_observed_at_ns p)
                 (Aggregation Delta_interval_empty)) selected,
         each (\<lambda>_ (_, points). no_overlap None
                 (sort_key (\<lambda>p. (pt_start_time_ns p, pt_observed_at_ns p)) points))
           (group_by point_series selected)])
        (Inr selected))"

definition interval_coverage :: "metric_point list \<Rightarrow> coverage_interval list" where
  "interval_coverage samples =
     sort (map (\<lambda>p. (point_series p, pt_start_time_ns p, pt_observed_at_ns p)) samples)"

lemma no_overlap_sorted:
  assumes "no_overlap prev ps = None" "\<forall>p \<in> set ps. pt_start_time_ns p < pt_observed_at_ns p"
  shows "sorted_wrt (\<lambda>p q. pt_observed_at_ns p \<le> pt_start_time_ns q) ps \<and>
     (\<forall>e. prev = Some e \<longrightarrow> (\<forall>p \<in> set ps. e \<le> pt_start_time_ns p))"
  using assms
proof (induction ps arbitrary: prev)
  case (Cons p ps)
  from Cons.prems have "no_overlap (Some (pt_observed_at_ns p)) ps = None" by simp
  with Cons.IH [of "Some (pt_observed_at_ns p)"] Cons.prems
  have s: "sorted_wrt (\<lambda>p q. pt_observed_at_ns p \<le> pt_start_time_ns q) ps"
    and o: "\<forall>q \<in> set ps. pt_observed_at_ns p \<le> pt_start_time_ns q" by auto
  have "\<forall>q \<in> set (p # ps). e \<le> pt_start_time_ns q" if "prev = Some e" for e
    using that Cons.prems o by (auto intro: order_trans less_imp_le)
  with s o show ?case by simp
qed simp

text \<open>Two intervals share no instant.\<close>

definition disjoint_intervals :: "int \<times> int \<Rightarrow> int \<times> int \<Rightarrow> bool" where
  "disjoint_intervals i j \<longleftrightarrow> snd i \<le> fst j \<or> snd j \<le> fst i"

definition point_interval :: "metric_point \<Rightarrow> int \<times> int" where
  "point_interval p = (pt_start_time_ns p, pt_observed_at_ns p)"

text \<open>Pairwise relations that are symmetric do not depend on the order of a list.\<close>

lemma sorted_wrt_perm:
  assumes "mset xs = mset ys" and sym: "\<And>x y. R x y \<Longrightarrow> R y x" and "sorted_wrt R xs"
  shows "sorted_wrt R ys"
  using assms(1,3)
proof (induction ys arbitrary: xs)
  case (Cons y ys)
  then have "y \<in> set xs" by (metis list.set_intros(1) set_mset_mset)
  then obtain as bs where xs: "xs = as @ y # bs" by (meson split_list)
  with Cons.prems have m: "mset (as @ bs) = mset ys" by simp
  have "sorted_wrt R (as @ bs)" using Cons.prems(2) xs by (simp add: sorted_wrt_append)
  with Cons.IH m have "sorted_wrt R ys" by blast
  moreover have "R y z" if "z \<in> set ys" for z
  proof -
    have "z \<in> set as \<or> z \<in> set bs" using that mset_eq_setD [OF m] by auto
    with Cons.prems(2) xs sym show ?thesis by (auto simp: sorted_wrt_append)
  qed
  ultimately show ?case by simp
qed simp

lemma validated_delta_disjoint:
  assumes "validated_delta_points ws we samples = Inr selected"
  shows "selected = delta_selected ws we samples"
    and "\<forall>p \<in> set selected. ws \<le> pt_start_time_ns p \<and> pt_start_time_ns p < pt_observed_at_ns p \<and>
           pt_observed_at_ns p \<le> we"
    and "sorted_wrt (\<lambda>p q. disjoint_intervals (point_interval p) (point_interval q))
           (filter (\<lambda>p. point_series p = k) selected)"
proof -
  show sel: "selected = delta_selected ws we samples"
    using assms by (simp add: validated_delta_points_def Let_def checked_Inr)
  have pos: "\<forall>p \<in> set selected. pt_start_time_ns p < pt_observed_at_ns p"
    using assms by (simp add: validated_delta_points_def Let_def checked_Inr)
  then show "\<forall>p \<in> set selected. ws \<le> pt_start_time_ns p \<and> pt_start_time_ns p < pt_observed_at_ns p \<and>
           pt_observed_at_ns p \<le> we"
    using sel by (auto simp: delta_selected_def)
  let ?g = "filter (\<lambda>p. point_series p = k) selected"
  let ?s = "sort_key (\<lambda>p. (pt_start_time_ns p, pt_observed_at_ns p)) ?g"
  show "sorted_wrt (\<lambda>p q. disjoint_intervals (point_interval p) (point_interval q)) ?g"
  proof (cases "k \<in> point_series ` set selected")
    case True
    then have "(k, ?g) \<in> set (group_by point_series selected)" by (simp add: group_by_in)
    moreover have "\<forall>(_, points) \<in> set (group_by point_series selected). no_overlap None
        (sort_key (\<lambda>p. (pt_start_time_ns p, pt_observed_at_ns p)) points) = None"
      using assms sel by (auto simp: validated_delta_points_def Let_def checked_Inr each_from_None_all)
    ultimately have "no_overlap None ?s = None" by blast
    with no_overlap_sorted [of None ?s] pos
    have "sorted_wrt (\<lambda>p q. pt_observed_at_ns p \<le> pt_start_time_ns q) ?s" by simp
    then have "sorted_wrt (\<lambda>p q. disjoint_intervals (point_interval p) (point_interval q)) ?s"
      by (rule sorted_wrt_mono_rel [rotated]) (simp add: disjoint_intervals_def point_interval_def)
    then show ?thesis
      by (rule sorted_wrt_perm [rotated 2]) (auto simp: disjoint_intervals_def)
  next
    case False
    then have "?g = []" by (auto simp: filter_empty_conv)
    then show ?thesis by simp
  qed
qed

section \<open>Window coverage\<close>

fun interior_gap ::
  "temporality option \<Rightarrow> int \<Rightarrow> int \<Rightarrow> int option \<Rightarrow> int \<Rightarrow> (int \<times> int) list \<Rightarrow> metric_error + int"
where
  "interior_gap temporality window_start window_end previous_end uncovered [] = Inr uncovered"
| "interior_gap temporality window_start window_end previous_end uncovered ((s, e) # rest) =
     (if e \<le> s then Inl (Aggregation Coverage_interval_empty)
      else (case previous_end of
              None \<Rightarrow> interior_gap temporality window_start window_end (Some e) uncovered rest
            | Some p \<Rightarrow>
                if s < p then Inl (Aggregation Coverage_intervals_overlap)
                else if p < s \<and> temporality \<noteq> Some Delta
                then Inl (Aggregation Coverage_intervals_gapped)
                else interior_gap temporality window_start window_end (Some e)
                       (uncovered + max 0 (min s window_end - max p window_start)) rest))"

definition effective_tolerance :: "int \<Rightarrow> int \<Rightarrow> int" where
  "effective_tolerance tolerance window_duration =
     min tolerance
       (py_int (fl (fl (of_int window_duration) * METRIC_WINDOW_MAX_UNCOVERED_FRACTION)))"

definition check_series_coverage ::
  "temporality option \<Rightarrow> int \<Rightarrow> int \<Rightarrow> int \<Rightarrow> (int \<times> int) list \<Rightarrow> metric_error option" where
  "check_series_coverage temporality window_start window_end tolerance intervals =
     (let ordered = sort intervals in
      case interior_gap temporality window_start window_end None 0 ordered of
        Inl e \<Rightarrow> Some e
      | Inr gap \<Rightarrow>
          (let first_start = fst (hd ordered); last_end = snd (last ordered) in first_error
            [require (\<bar>first_start - window_start\<bar> \<le> tolerance) (Aggregation Starts_outside_tolerance),
             require (\<bar>last_end - window_end\<bar> \<le> tolerance) (Aggregation Ends_outside_tolerance),
             require (max 0 (first_start - window_start) + gap + max 0 (window_end - last_end)
                        \<le> tolerance) (Aggregation Window_not_covered)]))"

definition require_window_coverage ::
  "coverage_interval list \<Rightarrow> temporality option \<Rightarrow> int \<Rightarrow> int \<Rightarrow> int \<Rightarrow> metric_error option" where
  "require_window_coverage coverage temporality window_start window_end tolerance = first_error
     [require (0 \<le> tolerance) (Input Tolerance_negative),
      require (0 < window_end - window_start) (Input Window_duration_not_positive),
      require (coverage \<noteq> []) (Aggregation No_interval_coverage),
      each (\<lambda>_ (_, rows). check_series_coverage temporality window_start window_end
              (effective_tolerance tolerance (window_end - window_start)) (map snd rows))
        (group_by fst coverage)]"

text \<open>The instants of the window that no interval of the list covers.\<close>

definition uncovered :: "int \<Rightarrow> int \<Rightarrow> (int \<times> int) list \<Rightarrow> int set" where
  "uncovered window_start window_end intervals =
     {t. window_start \<le> t \<and> t < window_end \<and> (\<forall>(s, e) \<in> set intervals. \<not> (s \<le> t \<and> t < e))}"

lemma card_between: "int (card {a..<b}) = max 0 (b - a)" for a b :: int
  by simp

lemma finite_uncovered [simp]: "finite (uncovered ws we is)"
  by (rule finite_subset [of _ "{ws..<we}"]) (auto simp: uncovered_def)

text \<open>
  The accumulated gap counts every uncovered instant between the previous end and the last
  end of the list.
\<close>

lemma interior_gap_counts:
  assumes "interior_gap t ws we (Some p) acc is = Inr gap"
  shows "acc + int (card {x. p \<le> x \<and> x < (if is = [] then p else snd (last is)) \<and> ws \<le> x \<and> x < we \<and>
            (\<forall>(s, e) \<in> set is. \<not> (s \<le> x \<and> x < e))}) \<le> gap
     \<and> (\<forall>(s, e) \<in> set is. p \<le> s \<and> s < e \<and> e \<le> snd (last is))"
  using assms
proof (induction "is" arbitrary: p acc)
  case (Cons i rest)
  obtain s e where i: "i = (s, e)" by (cases i)
  from Cons.prems i have se: "s < e" "p \<le> s"
    and rec: "interior_gap t ws we (Some e) (acc + max 0 (min s we - max p ws)) rest = Inr gap"
    by (auto split: if_splits)
  define tail where "tail = {x. e \<le> x \<and> x < (if rest = [] then e else snd (last rest)) \<and> ws \<le> x \<and> x < we \<and>
            (\<forall>(s, e) \<in> set rest. \<not> (s \<le> x \<and> x < e))}"
  note IH = Cons.IH [OF rec, folded tail_def]
  let ?all = "{x. p \<le> x \<and> x < (if i # rest = [] then p else snd (last (i # rest))) \<and> ws \<le> x \<and> x < we \<and>
            (\<forall>(s, e) \<in> set (i # rest). \<not> (s \<le> x \<and> x < e))}"
  have sub: "?all \<subseteq> {max p ws..<min s we} \<union> tail"
    using i by (auto simp: tail_def split: if_splits)
  have "finite tail" by (rule finite_subset [of _ "{ws..<we}"]) (auto simp: tail_def)
  then have "card ?all \<le> card ({max p ws..<min s we} \<union> tail)"
    using sub by (intro card_mono) auto
  also have "\<dots> \<le> card {max p ws..<min s we} + card tail" by (rule card_Un_le)
  finally have "int (card ?all) \<le> max 0 (min s we - max p ws) + int (card tail)"
    using card_between [of "max p ws" "min s we"] by linarith
  with IH have "acc + int (card ?all) \<le> gap" by linarith
  moreover have "\<forall>(a, b) \<in> set (i # rest). p \<le> a \<and> a < b \<and> b \<le> snd (last (i # rest))"
    using IH i se by (cases rest) fastforce+
  ultimately show ?case by blast
qed simp

lemma check_series_coverage_sound:
  assumes "check_series_coverage t ws we tol intervals = None" and "intervals \<noteq> []"
  shows "int (card (uncovered ws we intervals)) \<le> tol"
proof -
  define xs where "xs = sort intervals"
  obtain s e rest where xs: "xs = (s, e) # rest"
    using assms(2) unfolding xs_def by (metis length_0_conv length_sort list.exhaust prod.exhaust)
  have set: "set intervals = set xs" by (simp add: xs_def)
  from assms(1) obtain gap where gap: "interior_gap t ws we None 0 xs = Inr gap"
    and whole: "max 0 (fst (hd xs) - ws) + gap + max 0 (we - snd (last xs)) \<le> tol"
    by (cases "interior_gap t ws we None 0 xs")
      (auto simp: check_series_coverage_def Let_def xs_def [symmetric])
  have le: "max 0 (s - ws) + gap + max 0 (we - snd (last xs)) \<le> tol"
    using whole xs by simp
  from gap xs have rec: "interior_gap t ws we (Some e) 0 rest = Inr gap" by (simp split: if_splits)
  define mid where "mid = {x. e \<le> x \<and> x < (if rest = [] then e else snd (last rest)) \<and> ws \<le> x \<and> x < we \<and>
            (\<forall>(s, e) \<in> set rest. \<not> (s \<le> x \<and> x < e))}"
  have "int (card mid) \<le> gap" using interior_gap_counts [OF rec] by (simp add: mid_def)
  have sub: "uncovered ws we intervals \<subseteq> {ws..<s} \<union> mid \<union> {snd (last xs)..<we}"
    unfolding uncovered_def set xs mid_def by (auto split: if_splits)
  have fin: "finite mid" by (rule finite_subset [of _ "{ws..<we}"]) (auto simp: mid_def)
  have "card (uncovered ws we intervals) \<le> card ({ws..<s} \<union> mid \<union> {snd (last xs)..<we})"
    using sub fin by (intro card_mono) auto
  also have "\<dots> \<le> card {ws..<s} + card mid + card {snd (last xs)..<we}"
    by (meson add_le_mono1 card_Un_le order_trans)
  finally have "int (card (uncovered ws we intervals)) \<le>
      max 0 (s - ws) + int (card mid) + max 0 (we - snd (last xs))"
    using card_between [of ws s] card_between [of "snd (last xs)" we] by linarith
  with \<open>int (card mid) \<le> gap\<close> le show ?thesis by linarith
qed

text \<open>
  C24: Coverage that is accepted leaves at most one second and at most the tolerated fraction
  of the window uncovered in every series it lists: the instants of the window outside all
  intervals of the series, counted in nanoseconds, stay within both limits.
\<close>

theorem accepted_coverage_bounds_gaps:
  assumes "require_window_coverage coverage t ws we tolerance = None"
    and "k \<in> fst ` set coverage"
  shows "int (card (uncovered ws we (map snd (filter (\<lambda>c. fst c = k) coverage)))) \<le>
     min tolerance (py_int (fl (fl (of_int (we - ws)) * METRIC_WINDOW_MAX_UNCOVERED_FRACTION)))"
proof -
  let ?rows = "filter (\<lambda>c. fst c = k) coverage"
  have "(k, ?rows) \<in> set (group_by fst coverage)" using assms(2) by (simp add: group_by_in)
  moreover have "\<forall>(_, rows) \<in> set (group_by fst coverage). check_series_coverage t ws we
      (effective_tolerance tolerance (we - ws)) (map snd rows) = None"
    using assms(1) by (auto simp: require_window_coverage_def each_from_None_all)
  ultimately have "check_series_coverage t ws we (effective_tolerance tolerance (we - ws))
      (map snd ?rows) = None" by blast
  moreover have "map snd ?rows \<noteq> []" using assms(2) by (auto simp: filter_empty_conv)
  ultimately show ?thesis unfolding effective_tolerance_def by (rule check_series_coverage_sound)
qed

definition example_coverage :: "coverage_interval list" where
  "example_coverage = [([], 0, 60), ([], 60, 100)]"

lemma uncovered_fraction: "METRIC_WINDOW_MAX_UNCOVERED_FRACTION = 3602879701896397 / 72057594037927936"
  unfolding METRIC_WINDOW_MAX_UNCOVERED_FRACTION_def by code_simp

lemma example_product: "fl 100 = 100" "fl (100 * (3602879701896397 / 72057594037927936)) = 5"
  by code_simp+

lemma example_tolerance: "effective_tolerance 7 100 = 5"
  unfolding effective_tolerance_def uncovered_fraction of_int_numeral example_product
  by (simp add: py_int_def)

lemma example_coverage_accepted: "require_window_coverage example_coverage (Some Cumulative) 0 100 7 = None"
  by (simp add: require_window_coverage_def example_coverage_def group_by_def
      check_series_coverage_def example_tolerance Let_def)

theorem accepted_coverage_bounds_gaps_witness:
  "int (card (uncovered 0 100 (map snd (filter (\<lambda>c. fst c = []) example_coverage)))) \<le>
     min 7 (py_int (fl (fl (of_int (100 - 0)) * METRIC_WINDOW_MAX_UNCOVERED_FRACTION)))"
proof -
  have "[] \<in> fst ` set example_coverage" by (simp add: example_coverage_def)
  from accepted_coverage_bounds_gaps [OF example_coverage_accepted this] show ?thesis .
qed

end
