(* ===== verification/Metric_Histograms.thy ===== *)
theory Metric_Histograms
  imports Metric_Windows
begin

text \<open>
  Histogram aggregation over a window (harness/metrics.py): delta points and cumulative series
  become contributions, contributions merge into one histogram, and a statistic of it is an
  interval. The theorems say that subtracting a baseline and merging contributions keep the
  link between a histogram and the events it counts.
\<close>

section \<open>Constructing histograms\<close>

definition make_histogram :: "histogram_sample \<Rightarrow> metric_error + histogram_sample" where
  "make_histogram h =
     (case validate_histogram_sample h of None \<Rightarrow> Inr h | Some e \<Rightarrow> Inl (Invalid_point e))"

lemma make_histogram_Inr [simp]:
  "make_histogram h = Inr g \<longleftrightarrow> g = h \<and> validate_histogram_sample h = None"
  by (auto simp: make_histogram_def split: option.splits)

text \<open>Equality of two attribute dicts.\<close>

definition attributes_equal :: "attributes \<Rightarrow> attributes \<Rightarrow> bool" where
  "attributes_equal a b \<longleftrightarrow> fst ` set a = fst ` set b \<and> attributes_match a b"

text \<open>
  The builtin \<open>sum\<close> of floats, which compensates (Neumaier): the running total, the
  compensation, and the correction at the end. Its start value 0 is an int, so the first
  float is taken as it is, and an empty sum is 0.
\<close>

fun neumaier :: "rat \<Rightarrow> rat \<Rightarrow> rat list \<Rightarrow> rat \<times> rat" where
  "neumaier running c [] = (running, c)"
| "neumaier running c (x # xs) =
     (let t = fl (running + x) in
      if \<bar>x\<bar> \<le> \<bar>running\<bar> then neumaier t (fl (c + fl (fl (running - t) + x))) xs
      else neumaier t (fl (c + fl (fl (x - t) + running))) xs)"

definition py_sum :: "rat list \<Rightarrow> rat" where
  "py_sum xs = (case xs of [] \<Rightarrow> 0
     | x # rest \<Rightarrow> (case neumaier x 0 rest of (running, c) \<Rightarrow> if c \<noteq> 0 then fl (running + c) else running))"

section \<open>Cumulative series\<close>

definition difference_sum :: "histogram_sample \<Rightarrow> histogram_sample \<Rightarrow> rat option" where
  "difference_sum latest baseline =
     (case hs_sum latest of None \<Rightarrow> None
      | Some s \<Rightarrow> map_option (\<lambda>b. fl (s - b))
                   (if hs_count baseline = 0 then Some 0 else hs_sum baseline))"

definition subtract_histograms ::
  "histogram_sample \<Rightarrow> histogram_sample \<Rightarrow> metric_error + histogram_sample" where
  "subtract_histograms latest baseline =
     (let bucket_counts = map2 (-) (hs_bucket_counts latest) (hs_bucket_counts baseline);
          count = hs_count latest - hs_count baseline
      in checked (first_error
        [require (\<not> (hs_name latest \<noteq> hs_name baseline \<or> hs_unit latest \<noteq> hs_unit baseline
                      \<or> \<not> attributes_equal (hs_attributes latest) (hs_attributes baseline)))
           (Aggregation Histogram_identity_changed),
         require (hs_explicit_bounds latest = hs_explicit_bounds baseline)
           (Aggregation Boundaries_changed),
         require (\<not> (count < 0 \<or> (\<exists>v \<in> set bucket_counts. v < 0))) (Aggregation Counters_backwards),
         require (\<not> (hs_count baseline \<noteq> 0 \<and>
                      (hs_sum latest = None) \<noteq> (hs_sum baseline = None)))
           (Aggregation Sum_availability_changed)])
        (make_histogram
          \<lparr>hs_name = hs_name latest, hs_unit = hs_unit latest,
           hs_observed_at_ns = hs_observed_at_ns latest, hs_count = count,
           hs_bucket_counts = bucket_counts, hs_explicit_bounds = hs_explicit_bounds latest,
           hs_attributes = hs_attributes latest, hs_temporality = Delta,
           hs_start_time_ns = hs_observed_at_ns baseline,
           hs_sum = difference_sum latest baseline,
           hs_min = (if hs_count baseline = 0 then hs_min latest else None),
           hs_max = (if hs_count baseline = 0 then hs_max latest else None)\<rparr>))"

definition check_cumulative_pair :: "histogram_sample \<times> histogram_sample \<Rightarrow> metric_error option" where
  "check_cumulative_pair pc = (case pc of (previous, current) \<Rightarrow> first_error
     [require ((hs_name current, hs_unit current) = (hs_name previous, hs_unit previous))
        (Aggregation Series_identity_changed),
      require (hs_observed_at_ns current \<noteq> hs_observed_at_ns previous)
        (Aggregation Duplicate_observations),
      require (hs_explicit_bounds current = hs_explicit_bounds previous)
        (Aggregation Boundaries_changed),
      require (\<not> (\<exists>(left, right) \<in> set (zip (hs_bucket_counts previous) (hs_bucket_counts current)).
                   right < left)) (Insufficient Reset_without_start)])"

definition checked_cumulative_series ::
  "histogram_sample list \<Rightarrow> metric_error + histogram_sample list" where
  "checked_cumulative_series samples =
     (let ordered = sort_key hs_observed_at_ns samples in
      checked (each (\<lambda>_. check_cumulative_pair) (pairwise_of ordered)) (Inr ordered))"

definition subtracted ::
  "histogram_sample \<Rightarrow> histogram_sample \<Rightarrow> metric_error + histogram_sample option" where
  "subtracted latest baseline = and_then (subtract_histograms latest baseline) (\<lambda>h. Inr (Some h))"

definition baseline_contribution ::
  "histogram_sample list \<Rightarrow> histogram_sample \<Rightarrow> int \<Rightarrow> metric_error + histogram_sample option" where
  "baseline_contribution ordered latest window_start =
     (let baselines = filter (\<lambda>s. hs_observed_at_ns s \<le> window_start) ordered in
      if baselines = [] then Inl (Insufficient No_baseline)
      else (let baseline = last baselines in
        if hs_observed_at_ns baseline < window_start
        then (case filter (\<lambda>s. window_start < hs_observed_at_ns s) ordered of
                [] \<Rightarrow> Inl (Insufficient Baseline_precedes_window)
              | following # _ \<Rightarrow>
                  if hs_bucket_counts baseline \<noteq> hs_bucket_counts following
                  then Inl (Insufficient Baseline_precedes_window)
                  else and_then (make_histogram (baseline\<lparr>hs_observed_at_ns := window_start\<rparr>))
                         (subtracted latest))
        else subtracted latest baseline))"

definition cumulative_window_sample ::
  "histogram_sample list \<Rightarrow> int \<Rightarrow> metric_error + histogram_sample option" where
  "cumulative_window_sample samples window_start =
     and_then (checked_cumulative_series samples) (\<lambda>ordered.
      let latest = last ordered; first = hd ordered in
      if hs_observed_at_ns latest \<le> window_start then Inr None
      else if window_start \<le> hs_start_time_ns latest
      then (if hs_start_time_ns first = hs_observed_at_ns first then subtracted latest first
            else Inr (Some latest))
      else baseline_contribution ordered latest window_start)"

section \<open>Contributions and their merge\<close>

definition histogram_contributions ::
  "histogram_sample list \<Rightarrow> int \<Rightarrow> int \<Rightarrow> metric_error + histogram_sample list" where
  "histogram_contributions samples window_start window_end =
     (case samples of
        [] \<Rightarrow> Inl (Insufficient No_histogram_samples)
      | s # _ \<Rightarrow>
          if \<exists>x \<in> set samples. hs_temporality x \<noteq> hs_temporality s
          then Inl (Aggregation Mixed_temporalities)
          else if hs_temporality s = Unspecified then Inl (Aggregation Temporality_unspecified)
          else if hs_temporality s = Delta
          then and_then (validated_delta_points window_start window_end (map Hist samples))
                 (\<lambda>points. Inr (List.map_filter as_hist points))
          else and_then (map_res (\<lambda>(_, series). cumulative_window_sample series window_start)
                 (group_by (\<lambda>x. (series_key (hs_attributes x), hs_start_time_ns x))
                   (filter (\<lambda>x. hs_observed_at_ns x \<le> window_end) samples)))
                 (\<lambda>contributions. Inr (List.map_filter id contributions)))"

text \<open>Summary values of the samples that have events, when all of them record one.\<close>

definition recorded_values ::
  "(histogram_sample \<Rightarrow> rat option) \<Rightarrow> histogram_sample list \<Rightarrow> rat list option" where
  "recorded_values field samples =
     (let values = map field (filter (\<lambda>s. hs_count s \<noteq> 0) samples) in
      if \<forall>v \<in> set values. v \<noteq> None then Some (List.map_filter id values) else None)"

definition merged_extremum :: "(rat set \<Rightarrow> rat) \<Rightarrow> rat list option \<Rightarrow> rat option" where
  "merged_extremum extremum values =
     (case values of None \<Rightarrow> None
      | Some vs \<Rightarrow> if vs = [] then None else Some (extremum (set vs)))"

definition merged_histogram :: "histogram_sample list \<Rightarrow> histogram_sample" where
  "merged_histogram samples =
     \<lparr>hs_name = hs_name (hd samples), hs_unit = hs_unit (hd samples),
      hs_observed_at_ns = Max (set (map hs_observed_at_ns samples)),
      hs_count = sum_list (map hs_count samples),
      hs_bucket_counts = map (\<lambda>index. sum_list (map (\<lambda>s. hs_bucket_counts s ! index) samples))
        [0..<length (hs_explicit_bounds (hd samples)) + 1],
      hs_explicit_bounds = hs_explicit_bounds (hd samples),
      hs_attributes = [], hs_temporality = Delta, hs_start_time_ns = 0,
      hs_sum = map_option py_sum (recorded_values hs_sum samples),
      hs_min = merged_extremum Min (recorded_values hs_min samples),
      hs_max = merged_extremum Max (recorded_values hs_max samples)\<rparr>"

definition merge_histograms :: "histogram_sample list \<Rightarrow> metric_error + histogram_sample" where
  "merge_histograms samples =
     (case samples of [] \<Rightarrow> Inl (Insufficient No_histogram_events)
      | s # rest \<Rightarrow> checked (first_error
          [require (\<not> (\<exists>x \<in> set samples. hs_name x \<noteq> hs_name s \<or> hs_unit x \<noteq> hs_unit s))
             (Aggregation Incompatible_identities),
           require (\<not> (\<exists>x \<in> set rest. hs_explicit_bounds x \<noteq> hs_explicit_bounds s))
             (Aggregation Incompatible_boundaries)])
          (make_histogram (merged_histogram samples)))"

section \<open>The window aggregate\<close>

text \<open>An aggregation error of the coverage rule is insufficient data for a histogram.\<close>

fun as_insufficient :: "metric_error \<Rightarrow> metric_error" where
  "as_insufficient (Aggregation site) = Insufficient site"
| "as_insufficient e = e"

definition histogram_window_aggregate ::
  "histogram_sample list \<Rightarrow> int \<Rightarrow> int \<Rightarrow> metric_error + histogram_sample" where
  "histogram_window_aggregate samples window_start window_end =
     and_then (histogram_contributions samples window_start window_end) (\<lambda>contributions.
     and_then (merge_histograms contributions) (\<lambda>merged.
     checked (map_option as_insufficient
       (require_window_coverage (interval_coverage (map Hist contributions))
         (Some (hs_temporality (hd samples))) window_start window_end
         METRIC_WINDOW_COVERAGE_TOLERANCE_NS))
       (Inr merged)))"

definition clip_interval :: "int \<Rightarrow> int \<Rightarrow> coverage_interval \<Rightarrow> coverage_interval list" where
  "clip_interval window_start window_end c =
     (case c of (key, s, e) \<Rightarrow>
        if max s window_start < min e window_end
        then [(key, max s window_start, min e window_end)] else [])"

definition histogram_window_coverage ::
  "histogram_sample list \<Rightarrow> int \<Rightarrow> int \<Rightarrow> metric_error + coverage_interval list" where
  "histogram_window_coverage samples window_start window_end =
     (if samples = [] then Inl (Aggregation No_histogram_samples)
      else and_then (histogram_contributions samples window_start window_end) (\<lambda>contributions.
        Inr (concat (map (clip_interval window_start window_end)
          (interval_coverage (map Hist contributions))))))"

definition histogram_statistic ::
  "histogram_sample \<Rightarrow> aggregation \<Rightarrow> bool \<Rightarrow> metric_error + estimate" where
  "histogram_statistic h aggregation nonnegative =
     (if aggregation \<noteq> Agg_count \<and> hs_count h = 0 then Inl (Insufficient Histogram_without_events)
      else if aggregation = Agg_mean \<and> hs_sum h = None then Inl (Insufficient Mean_needs_sum)
      else (case estimate_statistic h aggregation nonnegative of
              Inl e \<Rightarrow> Inl (Aggregation (Estimate_rejected e))
            | Inr e \<Rightarrow> Inr e))"

section \<open>Contributions keep describing their events\<close>

lemma merged_bucket_sum:
  assumes "list_all2 describes hs ess" "\<forall>h \<in> set hs. hs_explicit_bounds h = bs" "i \<le> length bs"
  shows "sum_list (map (\<lambda>s. hs_bucket_counts s ! i) hs) =
     int (length (filter (\<lambda>x. bisect_left bs x = i) (concat ess)))"
  using assms
proof (induction hs ess rule: list_all2_induct)
  case (Cons h hs es ess)
  then have "hs_bucket_counts h ! i = int (length (bucket_events h i es))"
    by (simp add: describes_def wf_histogram_def)
  with Cons show ?case by (simp add: bucket_events_def)
qed simp

lemma recorded_values_Cons:
  "recorded_values f (h # hs) = Some vs \<longleftrightarrow>
     (if hs_count h = 0 then recorded_values f hs = Some vs
      else \<exists>v ws. f h = Some v \<and> recorded_values f hs = Some ws \<and> vs = v # ws)"
  by (auto simp: recorded_values_def Let_def List.map_filter_simps)

lemma recorded_values_Nil [simp]: "recorded_values f [] = Some []"
  by (simp add: recorded_values_def List.map_filter_simps)

lemma recorded_values_describe:
  assumes "list_all2 describes hs ess" "recorded_values f hs = Some vs"
    and f: "\<And>h es m. describes h es \<Longrightarrow> f h = Some m \<Longrightarrow> es \<noteq> [] \<Longrightarrow> m = g es"
  shows "vs = map g (filter (\<lambda>es. es \<noteq> []) ess)"
  using assms(1,2)
proof (induction hs ess arbitrary: vs rule: list_all2_induct)
  case (Cons h hs es ess)
  have "hs_count h = 0 \<longleftrightarrow> es = []" using describes_count [OF Cons.hyps(1)] by simp
  with Cons f [OF Cons.hyps(1)] show ?case by (auto simp: recorded_values_Cons split: if_splits)
qed simp

lemma recorded_extrema:
  assumes "list_all2 describes hs ess"
  shows "recorded_values hs_min hs = Some vs \<Longrightarrow> vs = map (\<lambda>es. Min (set es)) (filter (\<lambda>es. es \<noteq> []) ess)"
    and "recorded_values hs_max hs = Some ws \<Longrightarrow> ws = map (\<lambda>es. Max (set es)) (filter (\<lambda>es. es \<noteq> []) ess)"
  by (erule recorded_values_describe [OF assms]; simp add: describes_def)+

lemma extrema_of_concat:
  assumes "concat ess \<noteq> ([] :: rat list)"
  shows "Min ((\<lambda>es. Min (set es)) ` {es \<in> set ess. es \<noteq> []}) = Min (set (concat ess))"
    and "Max ((\<lambda>es. Max (set es)) ` {es \<in> set ess. es \<noteq> []}) = Max (set (concat ess))"
proof -
  let ?E = "{es \<in> set ess. es \<noteq> []}"
  have ne: "?E \<noteq> {}" using assms by auto
  have fin: "finite ?E" by simp
  have up: "(\<Union>es \<in> ?E. set es) = set (concat ess)" by auto
  show "Min ((\<lambda>es. Min (set es)) ` ?E) = Min (set (concat ess))"
  proof (rule Min_eqI [symmetric])
    fix y
    assume "y \<in> set (concat ess)"
    then obtain es where "es \<in> set ess" "y \<in> set es" by auto
    then have "es \<in> ?E" by auto
    have "Min (set es) \<le> y" using \<open>y \<in> set es\<close> by simp
    moreover have "Min ((\<lambda>es. Min (set es)) ` ?E) \<le> Min (set es)"
      using \<open>es \<in> ?E\<close> fin by (intro Min_le) auto
    ultimately show "Min ((\<lambda>es. Min (set es)) ` ?E) \<le> y" by (rule order_trans [rotated])
  next
    have "Min ((\<lambda>es. Min (set es)) ` ?E) \<in> (\<lambda>es. Min (set es)) ` ?E"
      using ne fin by (intro Min_in) auto
    then obtain es where "es \<in> ?E" "Min ((\<lambda>es. Min (set es)) ` ?E) = Min (set es)" by blast
    moreover have "Min (set es) \<in> set es" using \<open>es \<in> ?E\<close> by (intro Min_in) auto
    ultimately show "Min ((\<lambda>es. Min (set es)) ` ?E) \<in> set (concat ess)" using up by (metis (no_types, lifting) UN_I)
  qed simp
  show "Max ((\<lambda>es. Max (set es)) ` ?E) = Max (set (concat ess))"
  proof (rule Max_eqI [symmetric])
    fix y
    assume "y \<in> set (concat ess)"
    then obtain es where "es \<in> set ess" "y \<in> set es" by auto
    then have "es \<in> ?E" by auto
    have "y \<le> Max (set es)" using \<open>y \<in> set es\<close> by simp
    moreover have "Max (set es) \<le> Max ((\<lambda>es. Max (set es)) ` ?E)"
      using \<open>es \<in> ?E\<close> fin by (intro Max_ge) auto
    ultimately show "y \<le> Max ((\<lambda>es. Max (set es)) ` ?E)" by (rule order_trans)
  next
    have "Max ((\<lambda>es. Max (set es)) ` ?E) \<in> (\<lambda>es. Max (set es)) ` ?E"
      using ne fin by (intro Max_in) auto
    then obtain es where "es \<in> ?E" "Max ((\<lambda>es. Max (set es)) ` ?E) = Max (set es)" by blast
    moreover have "Max (set es) \<in> set es" using \<open>es \<in> ?E\<close> by (intro Max_in) auto
    ultimately show "Max ((\<lambda>es. Max (set es)) ` ?E) \<in> set (concat ess)" using up by (metis (no_types, lifting) UN_I)
  qed simp
qed

lemma merge_histograms_parts:
  assumes "merge_histograms hs = Inr m"
  shows "hs \<noteq> []" "m = merged_histogram hs" "wf_histogram m"
    and "\<forall>h \<in> set hs. hs_explicit_bounds h = hs_explicit_bounds m"
  using assms validate_histogram_wf [of m]
  by (auto simp: merge_histograms_def checked_Inr merged_histogram_def split: list.splits)

lemma merge_describes:
  assumes d: "list_all2 describes hs ess" and m: "merge_histograms hs = Inr m"
  shows "describes m (concat ess)"
proof -
  note parts = merge_histograms_parts [OF m]
  let ?bs = "hs_explicit_bounds m"
  have len: "length (hs_bucket_counts m) = length ?bs + 1" using parts(3) by (simp add: wf_histogram_def)
  have buckets: "hs_bucket_counts m ! i = int (length (bucket_events m i (concat ess)))"
    if i: "i < length (hs_bucket_counts m)" for i
  proof -
    have "hs_bucket_counts m ! i = sum_list (map (\<lambda>s. hs_bucket_counts s ! i) hs)"
      using i by (simp add: parts(2) merged_histogram_def del: upt_Suc)
    also have "\<dots> = int (length (bucket_events m i (concat ess)))"
      unfolding bucket_events_def using i len by (intro merged_bucket_sum [OF d parts(4)]) simp
    finally show ?thesis .
  qed
  have sets: "set (map f (filter (\<lambda>es. es \<noteq> []) ess)) = f ` {es \<in> set ess. es \<noteq> []}" for f :: "rat list \<Rightarrow> rat"
    by auto
  have "x = Min (set (concat ess))" if "hs_min m = Some x" "concat ess \<noteq> []" for x
    using that recorded_extrema(1) [OF d] extrema_of_concat(1)
    by (auto simp: parts(2) merged_histogram_def merged_extremum_def sets simp del: set_map set_concat
        split: option.splits if_splits)
  moreover have "x = Max (set (concat ess))" if "hs_max m = Some x" "concat ess \<noteq> []" for x
    using that recorded_extrema(2) [OF d] extrema_of_concat(2)
    by (auto simp: parts(2) merged_histogram_def merged_extremum_def sets simp del: set_map set_concat
        split: option.splits if_splits)
  ultimately show ?thesis unfolding describes_def using parts(3) buckets by blast
qed

text \<open>
  C23: Subtracting the baseline of a cumulative series leaves exactly the events recorded
  since: when the latest point counts the baseline's events followed by others, the difference
  describes the others, with extrema only where they are known.
\<close>

theorem subtract_describes:
  assumes "describes latest (before @ after)" and "describes baseline before"
    and "subtract_histograms latest baseline = Inr h"
  shows "describes h after"
proof -
  have same: "hs_explicit_bounds latest = hs_explicit_bounds baseline"
    and wf: "wf_histogram h"
    and buckets: "hs_bucket_counts h = map2 (-) (hs_bucket_counts latest) (hs_bucket_counts baseline)"
    and bounds: "hs_explicit_bounds h = hs_explicit_bounds latest"
    and extrema: "hs_min h = (if hs_count baseline = 0 then hs_min latest else None)"
      "hs_max h = (if hs_count baseline = 0 then hs_max latest else None)"
    using assms(3) validate_histogram_wf [of h]
    by (auto simp: subtract_histograms_def Let_def checked_Inr)
  have lens: "length (hs_bucket_counts latest) = length (hs_bucket_counts baseline)"
    using assms(1,2) same by (simp add: describes_def wf_histogram_def)
  have "hs_bucket_counts h ! i = int (length (bucket_events h i after))"
    if "i < length (hs_bucket_counts h)" for i
  proof -
    have "hs_bucket_counts h ! i = hs_bucket_counts latest ! i - hs_bucket_counts baseline ! i"
      using that by (simp add: buckets)
    also have "\<dots> = int (length (bucket_events latest i (before @ after)))
        - int (length (bucket_events baseline i before))"
      using assms(1,2) that lens by (simp add: describes_def buckets)
    finally show ?thesis by (simp add: bucket_events_def bounds same)
  qed
  moreover have "hs_count baseline = 0 \<Longrightarrow> before = []"
    using describes_count [OF assms(2)] by simp
  ultimately show ?thesis
    unfolding describes_def using wf extrema assms(1) by (auto simp: describes_def)
qed

definition example_latest :: histogram_sample where
  "example_latest = example_histogram\<lparr>hs_temporality := Cumulative\<rparr>"

definition example_baseline :: histogram_sample where
  "example_baseline = example_latest\<lparr>hs_observed_at_ns := 4, hs_count := 2,
     hs_bucket_counts := [1, 1, 0], hs_sum := Some 9\<rparr>"

lemmas example_histograms = example_latest_def example_baseline_def example_histogram_def

lemma example_difference:
  "\<exists>h. subtract_histograms example_latest example_baseline = Inr h \<and> hs_bucket_counts h = [0, 1, 1]"
  by (simp add: subtract_histograms_def example_histograms attributes_equal_def attributes_match_def
      validate_histogram_sample_def checked_Inr del: make_histogram_Inr)
    (simp add: make_histogram_def validate_histogram_sample_def)

theorem subtract_describes_witness:
  "\<exists>h. subtract_histograms example_latest example_baseline = Inr h \<and> describes h [10, 14]"
proof -
  obtain h where h: "subtract_histograms example_latest example_baseline = Inr h"
    using example_difference by blast
  have "describes example_latest ([7, 2] @ [10, 14])" "describes example_baseline [7, 2]"
    by (simp_all add: describes_def wf_histogram_def example_histograms bucket_events_def
        bisect_left_def less_Suc_eq nth_Cons')
  from subtract_describes [OF this h] h show ?thesis by blast
qed

end
