(* ===== verification/Metric_Counters.thy ===== *)
theory Metric_Counters
  imports Metric_Histograms
begin

text \<open>
  The increase of a monotonic OTLP Sum over a window (harness/metrics.py,
  \<open>counter_window_aggregate\<close>): delta points add up, cumulative series subtract their baseline,
  and the result carries the intervals that produced it.
\<close>

record counter_aggregate =
  ca_total :: rat
  ca_coverage :: "coverage_interval list"
  ca_temporality :: temporality

text \<open>\<open>all(attributes.get(key) == value ...)\<close> selects the points of the metric.\<close>

definition matching_points :: "string \<Rightarrow> attributes \<Rightarrow> metric_point list \<Rightarrow> metric_point list" where
  "matching_points metric_name attribute_match samples =
     filter (\<lambda>p. pt_name p = metric_name \<and> attributes_match attribute_match (pt_attributes p))
       samples"

definition delta_increase ::
  "int \<Rightarrow> int \<Rightarrow> metric_sample list \<Rightarrow> metric_error + counter_aggregate" where
  "delta_increase window_start window_end counters =
     and_then (validated_delta_points window_start window_end (map Scalar counters)) (\<lambda>selected.
      let points = List.map_filter as_scalar selected in
      checked (first_error
        [require (points \<noteq> []) (Aggregation No_delta_points),
         require (\<not> (\<exists>p \<in> set points. sa_value p < 0)) (Aggregation Negative_counter)])
        (Inr \<lparr>ca_total = py_sum (map sa_value points),
              ca_coverage = interval_coverage (map Scalar points),
              ca_temporality = Delta\<rparr>))"

definition check_counter_pair :: "metric_sample \<times> metric_sample \<Rightarrow> metric_error option" where
  "check_counter_pair pc = (case pc of (previous, current) \<Rightarrow> first_error
     [require (sa_observed_at_ns current \<noteq> sa_observed_at_ns previous)
        (Aggregation Duplicate_observations),
      require (sa_value previous \<le> sa_value current) (Aggregation Cumulative_backwards)])"

text \<open>The increase of one series and the start of its interval; None is \<open>continue\<close>.\<close>

definition series_increase ::
  "int \<Rightarrow> metric_sample list \<Rightarrow> metric_error + (rat \<times> int \<times> int) option" where
  "series_increase window_start series =
     (let ordered = sort_key sa_observed_at_ns series; latest = last ordered in
      checked (each (\<lambda>_. check_counter_pair) (pairwise_of ordered))
       (if sa_observed_at_ns latest < window_start then Inr None
        else and_then
          (if window_start \<le> sa_start_time_ns latest
           then Inr (sa_value latest, sa_start_time_ns latest)
           else (let baselines = filter (\<lambda>s. sa_start_time_ns s = sa_start_time_ns latest
                        \<and> sa_observed_at_ns s \<le> window_start
                        \<and> sa_observed_at_ns s < sa_observed_at_ns latest) ordered in
                 if baselines = [] then Inl (Aggregation No_baseline)
                 else Inr (fl (sa_value latest - sa_value (last baselines)),
                           sa_observed_at_ns (last baselines))))
          (\<lambda>(increase, interval_start). checked (first_error
             [require (0 \<le> increase) (Aggregation Cumulative_backwards),
              require (interval_start < sa_observed_at_ns latest)
                (Aggregation Cumulative_interval_empty)])
             (Inr (Some (increase, interval_start, sa_observed_at_ns latest))))))"

fun intervals_ordered :: "int option \<Rightarrow> (int \<times> int) list \<Rightarrow> metric_error option" where
  "intervals_ordered previous_end [] = None"
| "intervals_ordered previous_end ((s, e) # rest) = first_error
     [require (case previous_end of None \<Rightarrow> True | Some p \<Rightarrow> p \<le> s)
        (Aggregation Cumulative_intervals_overlap),
      intervals_ordered (Some e) rest]"

definition labelled_increase ::
  "int \<Rightarrow> (series \<times> int) \<times> metric_sample list
    \<Rightarrow> metric_error + (rat \<times> coverage_interval) list" where
  "labelled_increase window_start g = (case g of ((key, _), series) \<Rightarrow>
     and_then (series_increase window_start series) (\<lambda>r.
       Inr (case r of None \<Rightarrow> [] | Some (increase, s, e) \<Rightarrow> [(increase, key, s, e)])))"

definition cumulative_increase ::
  "int \<Rightarrow> int \<Rightarrow> metric_sample list \<Rightarrow> metric_error + counter_aggregate" where
  "cumulative_increase window_start window_end counters =
     and_then (map_res (labelled_increase window_start)
       (group_by (\<lambda>s. (series_key (sa_attributes s), sa_start_time_ns s))
         (filter (\<lambda>s. sa_observed_at_ns s \<le> window_end) counters)))
     (\<lambda>rows. let increases = concat rows; coverage = sort (map snd increases) in
      checked (first_error
        [require (increases \<noteq> []) (Aggregation No_cumulative_points),
         each (\<lambda>_ (_, intervals). intervals_ordered None (map snd intervals)) (group_by fst coverage)])
        (Inr \<lparr>ca_total = foldl (\<lambda>acc x. fl (acc + x)) 0 (map fst increases),
              ca_coverage = coverage, ca_temporality = Cumulative\<rparr>))"

definition counter_window_aggregate ::
  "metric_point list \<Rightarrow> string \<Rightarrow> attributes \<Rightarrow> string \<Rightarrow> int \<Rightarrow> int
    \<Rightarrow> metric_error + counter_aggregate" where
  "counter_window_aggregate samples metric_name attribute_match expected_unit window_start window_end =
     (let matching = matching_points metric_name attribute_match samples;
          counters = List.map_filter as_scalar matching
      in checked (first_error
        [require (matching \<noteq> []) (Aggregation No_counter_points),
         require (pt_unit ` set matching = {expected_unit}) (Aggregation Counter_unit_mismatch),
         require (\<forall>p \<in> set matching. case as_scalar p of None \<Rightarrow> False
                    | Some s \<Rightarrow> sa_instrument_kind s = Sum \<and> sa_monotonic s)
           (Aggregation Not_monotonic_sum),
         require (\<not> (\<exists>s \<in> set counters. sa_value s < 0)) (Aggregation Negative_counter),
         require (card (sa_temporality ` set counters) = 1) (Aggregation Mixed_temporalities)])
        (case sa_temporality (hd counters) of
           Some Delta \<Rightarrow> delta_increase window_start window_end counters
         | Some Cumulative \<Rightarrow> cumulative_increase window_start window_end counters
         | _ \<Rightarrow> Inl (Aggregation Temporality_unspecified)))"

section \<open>No instant is counted twice\<close>

lemma intervals_ordered_sorted:
  assumes "intervals_ordered prev xs = None" "\<forall>(s, e) \<in> set xs. s < e"
  shows "sorted_wrt (\<lambda>i j. snd i \<le> fst j) xs \<and>
     (\<forall>p. prev = Some p \<longrightarrow> (\<forall>i \<in> set xs. p \<le> fst i))"
  using assms
proof (induction xs arbitrary: prev)
  case (Cons i xs)
  obtain s e where i: "i = (s, e)" by (cases i)
  from Cons.prems i have "intervals_ordered (Some e) xs = None" by simp
  with Cons.IH [of "Some e"] Cons.prems
  have x: "sorted_wrt (\<lambda>i j. snd i \<le> fst j) xs" "\<forall>j \<in> set xs. e \<le> fst j" by auto
  have "\<forall>j \<in> set (i # xs). p \<le> fst j" if "prev = Some p" for p
    using that Cons.prems i x(2) by (auto intro: order_trans less_imp_le)
  with x i show ?case by simp
qed simp

text \<open>What the caller relies on: the aggregate's intervals and its total.\<close>

definition counts_once :: "int \<Rightarrow> counter_aggregate \<Rightarrow> bool" where
  "counts_once window_end c \<longleftrightarrow>
     (\<forall>k. sorted_wrt disjoint_intervals (map snd (filter (\<lambda>r. fst r = k) (ca_coverage c)))) \<and>
     (\<forall>(_, s, e) \<in> set (ca_coverage c). s < e \<and> e \<le> window_end) \<and>
     (ca_temporality c = Cumulative \<longrightarrow> 0 \<le> ca_total c)"

lemma map_filter_scalar [simp]:
  "(\<forall>p \<in> set ps. \<exists>s. p = Scalar s) \<Longrightarrow> map Scalar (List.map_filter as_scalar ps) = ps"
  by (induction ps) (auto simp: List.map_filter_simps)

lemma delta_increase_once:
  assumes "delta_increase ws we counters = Inr c"
  shows "counts_once we c"
proof -
  obtain selected where sel: "validated_delta_points ws we (map Scalar counters) = Inr selected"
    and cov: "ca_coverage c = interval_coverage (map Scalar (List.map_filter as_scalar selected))"
    and t: "ca_temporality c = Delta"
    using assms by (auto simp: delta_increase_def Let_def checked_Inr)
  note valid = validated_delta_disjoint [OF sel]
  have "\<forall>p \<in> set selected. \<exists>s. p = Scalar s" by (auto simp: valid(1) delta_selected_def)
  with cov have cov: "ca_coverage c = interval_coverage selected" by simp
  have "sorted_wrt disjoint_intervals (map snd (filter (\<lambda>r. fst r = k) (ca_coverage c)))" for k
  proof (rule sorted_wrt_perm)
    show "sorted_wrt disjoint_intervals (map point_interval (filter (\<lambda>p. point_series p = k) selected))"
      using valid(3) [of k] by (simp add: sorted_wrt_map)
    show "mset (map point_interval (filter (\<lambda>p. point_series p = k) selected)) =
        mset (map snd (filter (\<lambda>r. fst r = k) (ca_coverage c)))"
      by (simp add: cov interval_coverage_def filter_sort filter_map image_mset.compositionality
          o_def point_interval_def [abs_def])
    show "disjoint_intervals y x" if "disjoint_intervals x y" for x y
      using that by (auto simp: disjoint_intervals_def)
  qed
  moreover have "\<forall>(_, s, e) \<in> set (ca_coverage c). s < e \<and> e \<le> we"
    using valid(2) by (auto simp: cov interval_coverage_def)
  ultimately show ?thesis by (simp add: counts_once_def t)
qed

lemma series_increase_Some:
  assumes "series_increase ws series = Inr (Some (increase, s, e))" and "series \<noteq> []"
  shows "0 \<le> increase \<and> s < e \<and> e \<in> sa_observed_at_ns ` set series"
proof -
  let ?ordered = "sort_key sa_observed_at_ns series"
  have "?ordered \<noteq> []" using assms(2) by (metis length_0_conv length_sort)
  then have "last ?ordered \<in> set series" by (metis last_in_set set_sort)
  with assms(1) show ?thesis
    by (auto simp: series_increase_def Let_def checked_Inr split: if_splits)
qed

lemma labelled_increase_rows:
  assumes "labelled_increase ws g = Inr rows" "(increase, key, s, e) \<in> set rows" "snd g \<noteq> []"
  shows "0 \<le> increase \<and> s < e \<and> e \<in> sa_observed_at_ns ` set (snd g)"
  using assms series_increase_Some [of ws "snd g" increase s e]
  by (auto simp: labelled_increase_def split: prod.splits option.splits)

lemma fl_sum_nonneg: "\<forall>x \<in> set xs. 0 \<le> x \<Longrightarrow> 0 \<le> acc \<Longrightarrow> 0 \<le> foldl (\<lambda>acc x. fl (acc + x)) acc xs"
  by (induction xs arbitrary: acc) (simp_all add: f64.nonneg)

lemma cumulative_increase_once:
  assumes "cumulative_increase ws we counters = Inr c"
  shows "counts_once we c"
proof -
  let ?groups = "group_by (\<lambda>s. (series_key (sa_attributes s), sa_start_time_ns s))
         (filter (\<lambda>s. sa_observed_at_ns s \<le> we) counters)"
  obtain rows where rows: "map_res (labelled_increase ws) ?groups = Inr rows"
    and cov: "ca_coverage c = sort (map snd (concat rows))"
    and total: "ca_total c = foldl (\<lambda>acc x. fl (acc + x)) 0 (map fst (concat rows))"
    and ordered: "\<forall>(_, intervals) \<in> set (group_by fst (sort (map snd (concat rows)))).
        intervals_ordered None (map snd intervals) = None"
    using assms by (auto simp: cumulative_increase_def Let_def checked_Inr each_from_None_all split_beta)
  have row: "0 \<le> increase \<and> s < e \<and> e \<le> we" if r: "(increase, key, s, e) \<in> set (concat rows)"
    for increase key s e
  proof -
    from r obtain rs where rs: "rs \<in> set rows" "(increase, key, s, e) \<in> set rs" by auto
    then obtain g where g: "g \<in> set ?groups" "labelled_increase ws g = Inr rs"
      using map_res_member [OF rows] by blast
    obtain gk xs where gx: "g = (gk, xs)" by (cases g)
    have "xs \<noteq> []" using g(1) unfolding gx by (rule group_by_nonempty)
    moreover have "\<forall>x \<in> set xs. sa_observed_at_ns x \<le> we"
      using g(1) unfolding gx group_by_in by simp
    ultimately show ?thesis using labelled_increase_rows [OF g(2) rs(2)] gx by auto
  qed
  have pos: "\<forall>(_, s, e) \<in> set (ca_coverage c). s < e \<and> e \<le> we"
    unfolding cov set_sort set_map using row by force
  have "sorted_wrt disjoint_intervals (map snd (filter (\<lambda>r. fst r = k) (ca_coverage c)))" for k
  proof (cases "k \<in> fst ` set (ca_coverage c)")
    case True
    then have "(k, filter (\<lambda>r. fst r = k) (ca_coverage c)) \<in> set (group_by fst (ca_coverage c))"
      by (simp add: group_by_in)
    with ordered have "intervals_ordered None (map snd (filter (\<lambda>r. fst r = k) (ca_coverage c))) = None"
      unfolding cov by blast
    from intervals_ordered_sorted [OF this] pos
    have "sorted_wrt (\<lambda>i j. snd i \<le> fst j) (map snd (filter (\<lambda>r. fst r = k) (ca_coverage c)))" by force
    then show ?thesis by (rule sorted_wrt_mono_rel [rotated]) (simp add: disjoint_intervals_def)
  next
    case False
    then have "filter (\<lambda>r. fst r = k) (ca_coverage c) = []" by (auto simp: filter_empty_conv)
    then show ?thesis by simp
  qed
  moreover have "0 \<le> ca_total c" unfolding total using row by (intro fl_sum_nonneg) fastforce+
  ultimately show ?thesis using pos by (simp add: counts_once_def)
qed

text \<open>
  A counter aggregate that is accepted counts no instant twice: within one series the
  intervals it reports are pairwise disjoint, none is empty or ends after the window, and a
  cumulative increase is never negative.
\<close>

theorem counter_counts_once:
  assumes "counter_window_aggregate samples name match unit ws we = Inr c"
  shows "counts_once we c"
  using assms delta_increase_once cumulative_increase_once
  by (auto simp: counter_window_aggregate_def Let_def checked_Inr split: option.splits temporality.splits)

definition example_counter :: "int \<Rightarrow> int \<Rightarrow> rat \<Rightarrow> metric_point" where
  "example_counter s e v = Scalar
     \<lparr>sa_name = ''m'', sa_value = v, sa_unit = ''1'', sa_observed_at_ns = e, sa_attributes = [],
      sa_instrument_kind = Sum, sa_temporality = Some Delta, sa_start_time_ns = s,
      sa_monotonic = True\<rparr>"

lemma example_counter_accepted:
  "\<exists>c. counter_window_aggregate [example_counter 5 9 2, example_counter 1 5 3] ''m'' [] ''1'' 1 9 = Inr c
     \<and> map snd (ca_coverage c) = [(1, 5), (5, 9)]"
  by (simp add: counter_window_aggregate_def Let_def matching_points_def example_counter_def
      attributes_match_def List.map_filter_simps delta_increase_def validated_delta_points_def
      delta_selected_def group_by_def point_series_def series_key_def interval_coverage_def)

theorem counter_counts_once_witness:
  "\<exists>c. counter_window_aggregate [example_counter 5 9 2, example_counter 1 5 3] ''m'' [] ''1'' 1 9 = Inr c
     \<and> counts_once 9 c"
  using example_counter_accepted counter_counts_once by blast

end
