(* ===== verification/Metric_Assertions.thy ===== *)
theory Metric_Assertions
  imports Metric_Counters
begin

text \<open>
  Metric assertions (harness/metrics.py): scalar aggregation, the identity of declared
  metrics, duration predicates over a sampled signal, and the evaluation of the assertions of
  a scenario against the observed points. An evaluation keeps its status, observed value and
  unit; the message texts are left out.
\<close>

section \<open>Scalar aggregation\<close>

definition percentile :: "rat list \<Rightarrow> rat \<Rightarrow> rat" where
  "percentile values q =
     (let ordered = sort values in
      if length ordered = 1 then ordered ! 0
      else (let position = fl (fl (of_nat (length ordered - 1)) * q);
                lower = \<lfloor>position\<rfloor>; upper = \<lceil>position\<rceil> in
            if lower = upper then ordered ! nat lower
            else (let fraction = fl (position - of_int lower);
                      a = ordered ! nat lower; b = ordered ! nat upper in
                  fl (a + fl (fl (b - a) * fraction)))))"

text \<open>\<open>fmean\<close>: a correctly rounded sum divided by the length.\<close>

definition fmean :: "rat list \<Rightarrow> rat" where
  "fmean values = fl (fl (sum_list values) / fl (of_nat (length values)))"

fun aggregate_values :: "aggregation \<Rightarrow> rat list \<Rightarrow> rat" where
  "aggregate_values Agg_min values = Min (set values)"
| "aggregate_values Agg_max values = Max (set values)"
| "aggregate_values Agg_mean values = fmean values"
| "aggregate_values Agg_p50 values = percentile values (fl (1 / 2))"
| "aggregate_values Agg_p95 values = percentile values (fl (95 / 100))"
| "aggregate_values Agg_p99 values = percentile values (fl (99 / 100))"
| "aggregate_values Agg_count values = of_nat (length values)"

definition in_window :: "int \<Rightarrow> int \<Rightarrow> metric_point \<Rightarrow> bool" where
  "in_window window_start window_end p \<longleftrightarrow>
     window_start \<le> pt_observed_at_ns p \<and> pt_observed_at_ns p \<le> window_end"

definition scalar_window_aggregate ::
  "metric_point list \<Rightarrow> aggregation \<Rightarrow> int \<Rightarrow> int \<Rightarrow> metric_error + rat" where
  "scalar_window_aggregate samples aggregation window_start window_end =
     (let window = List.map_filter as_scalar (filter (in_window window_start window_end) samples) in
      checked (first_error
        [require (window \<noteq> []) (Aggregation No_scalar_in_window),
         require (card (sa_instrument_kind ` set window) = 1) (Aggregation Mixed_scalar_kinds),
         require (\<not> (\<exists>s \<in> set window. sa_instrument_kind s = Sum)) (Aggregation Sum_needs_counter_delta)])
        (Inr (aggregate_values aggregation (map sa_value window))))"

definition exact_estimate :: "estimate \<Rightarrow> metric_error + rat" where
  "exact_estimate e =
     (if es_lower e \<noteq> es_upper e then Inl (Insufficient Only_bounded)
      else (case es_lower e of Fin x \<Rightarrow> Inr x | _ \<Rightarrow> Inl (Insufficient Only_bounded)))"

definition aggregate_metric_points ::
  "metric_point list \<Rightarrow> aggregation \<Rightarrow> int \<Rightarrow> int \<Rightarrow> metric_error + rat" where
  "aggregate_metric_points samples aggregation window_start window_end =
     (if samples = [] then Inl (Aggregation No_metric_samples)
      else if \<forall>p \<in> set samples. as_scalar p \<noteq> None
      then scalar_window_aggregate samples aggregation window_start window_end
      else if \<not> (\<forall>p \<in> set samples. as_hist p \<noteq> None) then Inl (Aggregation Mixed_point_kinds)
      else and_then (histogram_window_aggregate (List.map_filter as_hist samples)
               window_start window_end) (\<lambda>merged.
           and_then (histogram_statistic merged aggregation False) exact_estimate))"

section \<open>Declared metrics\<close>

datatype definition_error =
    Definition_unit string
  | Definition_kind string
  | Definition_temporality string
  | Definition_not_monotonic string

fun pt_kind :: "metric_point \<Rightarrow> instrument_kind" where
  "pt_kind (Scalar s) = sa_instrument_kind s"
| "pt_kind (Hist h) = Histogram"

text \<open>The temporality a definition is compared with; a Sum without one is None.\<close>

fun pt_temporality :: "metric_point \<Rightarrow> temporality option" where
  "pt_temporality (Scalar s) =
     (if sa_instrument_kind s = Sum then sa_temporality s else Some Instantaneous)"
| "pt_temporality (Hist h) = Some (hs_temporality h)"

fun is_monotonic_sum :: "metric_point \<Rightarrow> bool" where
  "is_monotonic_sum (Scalar s) = (sa_instrument_kind s = Sum \<and> sa_monotonic s)"
| "is_monotonic_sum (Hist h) = False"

definition check_definition :: "metric_point list \<Rightarrow> metric_definition \<Rightarrow> definition_error option" where
  "check_definition samples d =
     (let name = md_metric_name d; observed = filter (\<lambda>p. pt_name p = name) samples in
      when_check (observed \<noteq> []) (first_error
        [require (pt_unit ` set observed = {md_unit d}) (Definition_unit name),
         require (pt_kind ` set observed = {md_instrument_kind d}) (Definition_kind name),
         require (pt_temporality ` set observed = {Some (md_temporality d)})
           (Definition_temporality name),
         require (\<not> (md_monotonic d \<and> \<not> (\<forall>p \<in> set observed. is_monotonic_sum p)))
           (Definition_not_monotonic name)]))"

definition validate_metric_definitions ::
  "metric_definition list \<Rightarrow> metric_point list \<Rightarrow> definition_error option" where
  "validate_metric_definitions definitions samples =
     each (\<lambda>_. check_definition samples) definitions"

section \<open>Duration predicates\<close>

text \<open>\<open>int(float(seconds) * 1_000_000_000)\<close>\<close>

definition seconds_to_ns :: "rat \<Rightarrow> int" where
  "seconds_to_ns s = py_int (fl (fl s * 1000000000))"

record duration_state =
  dr_longest_true :: int
  dr_longest_false :: int
  dr_current_value :: "bool option"
  dr_current_duration :: int

definition duration_step :: "bool \<Rightarrow> int \<Rightarrow> duration_state \<Rightarrow> duration_state" where
  "duration_step v len st =
     (let d = (if Some v \<noteq> dr_current_value st then 0 else dr_current_duration st) + len in
      st\<lparr>dr_current_value := Some v, dr_current_duration := d,
         dr_longest_true := (if v then max (dr_longest_true st) d else dr_longest_true st),
         dr_longest_false := (if v then dr_longest_false st else max (dr_longest_false st) d)\<rparr>)"

text \<open>The loop over the gauges, given as (instant, value of the predicate).\<close>

fun duration_loop ::
  "int \<Rightarrow> int \<Rightarrow> (int \<times> bool) list \<Rightarrow> duration_state \<Rightarrow> duration_state" where
  "duration_loop window_start window_end [] st = st"
| "duration_loop window_start window_end ((at_ns, v) # rest) st =
     (let segment_start = max at_ns window_start;
          segment_end = (case rest of [] \<Rightarrow> window_end | (next_ns, _) # _ \<Rightarrow> min next_ns window_end)
      in duration_loop window_start window_end rest
           (if segment_end \<le> segment_start then st
            else duration_step v (segment_end - segment_start) st))"

definition no_duration :: duration_state where
  "no_duration = \<lparr>dr_longest_true = 0, dr_longest_false = 0, dr_current_value = None,
     dr_current_duration = 0\<rparr>"

definition sample_gaps :: "int \<Rightarrow> int \<Rightarrow> int list \<Rightarrow> int list" where
  "sample_gaps window_start window_end timestamps =
     (hd timestamps - window_start) # map (\<lambda>(left, right). right - left) (pairwise_of timestamps)
     @ [window_end - last timestamps]"

definition duration_verdict :: "duration_spec \<Rightarrow> duration_state \<Rightarrow> rat \<times> bool" where
  "duration_verdict spec st =
     (let threshold = fl (ds_duration_sec spec) in
      if ds_kind spec = Minimum_contiguous
      then (let observed = fl (of_int (dr_longest_true st) / 1000000000)
            in (observed, threshold \<le> observed))
      else (let observed = fl (of_int (dr_longest_false st) / 1000000000)
            in (observed, observed \<le> threshold)))"

definition sorted_gauges :: "metric_point list \<Rightarrow> metric_sample list" where
  "sorted_gauges samples = sort_key sa_observed_at_ns
     (filter (\<lambda>s. sa_instrument_kind s = Gauge) (List.map_filter as_scalar samples))"

definition predicate_points :: "metric_assertion \<Rightarrow> metric_sample list \<Rightarrow> (int \<times> bool) list" where
  "predicate_points a gauges = map (\<lambda>g.
     (sa_observed_at_ns g, holds (ma_operator a) (sa_value g) (ma_threshold a))) gauges"

definition duration_evaluation ::
  "metric_assertion \<Rightarrow> duration_spec \<Rightarrow> metric_point list \<Rightarrow> int \<Rightarrow> int
    \<Rightarrow> metric_error + rat \<times> bool" where
  "duration_evaluation a spec samples window_start window_end =
     (let gauges = sorted_gauges samples;
          timestamps = map sa_observed_at_ns gauges;
          max_gap = seconds_to_ns (ds_max_sample_gap_sec spec)
      in checked (first_error
        [require (length gauges = length samples) (Aggregation Duration_needs_gauges),
         require (card ((series_key \<circ> sa_attributes) ` set gauges) = 1)
           (Aggregation Duration_needs_one_series),
         require (\<not> (\<exists>gap \<in> set (sample_gaps window_start window_end timestamps). max_gap < gap))
           (Aggregation Sample_gap)])
        (Inr (duration_verdict spec (duration_loop window_start window_end
           (predicate_points a gauges) no_duration))))"

section \<open>Assertions\<close>

record metric_evaluation =
  me_assertion_id :: string
  me_status :: outcome
  me_observed :: "rat option"
  me_unit :: string

definition displayed_value :: "comparison \<Rightarrow> estimate \<Rightarrow> outcome \<Rightarrow> rat option" where
  "displayed_value operator e status =
     (case (if operator \<in> {Gt, Gte} then es_lower e else es_upper e) of
        Fin x \<Rightarrow> if status \<noteq> Skipped then Some x else None
      | _ \<Rightarrow> None)"

definition histogram_assertion ::
  "metric_assertion \<Rightarrow> aggregation \<Rightarrow> histogram_sample list \<Rightarrow> int \<Rightarrow> int
    \<Rightarrow> metric_error + metric_evaluation" where
  "histogram_assertion a aggregation samples window_start window_end =
     and_then (histogram_window_aggregate samples window_start window_end) (\<lambda>merged.
     and_then (histogram_statistic merged aggregation False) (\<lambda>e.
     let status = compare_estimate e (ma_operator a) (ma_threshold a) in
     Inr \<lparr>me_assertion_id = ma_assertion_id a, me_status = status,
          me_observed = displayed_value (ma_operator a) e status, me_unit = ma_unit a\<rparr>))"

definition evaluation_without_value :: "metric_assertion \<Rightarrow> outcome \<Rightarrow> metric_evaluation" where
  "evaluation_without_value a status =
     \<lparr>me_assertion_id = ma_assertion_id a, me_status = status, me_observed = None,
      me_unit = ma_unit a\<rparr>"

definition verdict_status :: "bool \<Rightarrow> outcome" where
  "verdict_status passed = (if passed then Passed else Failed)"

definition evaluate_points ::
  "metric_assertion \<Rightarrow> metric_point list \<Rightarrow> metric_point list \<Rightarrow> int \<Rightarrow> int
    \<Rightarrow> metric_error + metric_evaluation" where
  "evaluate_points a samples window window_start window_end =
     (case ma_kind a of
        Metric_duration spec \<Rightarrow>
          and_then (duration_evaluation a spec window window_start window_end)
            (\<lambda>(observed, passed). Inr \<lparr>me_assertion_id = ma_assertion_id a,
               me_status = verdict_status passed, me_observed = Some observed, me_unit = ''s''\<rparr>)
      | Metric aggregation \<Rightarrow>
          if \<forall>p \<in> set samples. as_hist p \<noteq> None
          then histogram_assertion a aggregation (List.map_filter as_hist samples)
                 window_start window_end
          else and_then (aggregate_metric_points samples aggregation window_start window_end)
            (\<lambda>observed. Inr \<lparr>me_assertion_id = ma_assertion_id a,
               me_status = verdict_status (holds (ma_operator a) observed (ma_threshold a)),
               me_observed = Some observed, me_unit = ma_unit a\<rparr>))"

text \<open>\<open>except MetricAggregationError\<close>; input errors are not caught.\<close>

fun catch_aggregation ::
  "metric_assertion \<Rightarrow> metric_error + metric_evaluation \<Rightarrow> metric_error + metric_evaluation" where
  "catch_aggregation a (Inl (Insufficient _)) = Inr (evaluation_without_value a Skipped)"
| "catch_aggregation a (Inl (Aggregation _)) = Inr (evaluation_without_value a Error)"
| "catch_aggregation a r = r"

definition assertion_window ::
  "metric_assertion \<Rightarrow> metric_point list \<Rightarrow> int option \<Rightarrow> int option \<Rightarrow> int \<times> int" where
  "assertion_window a samples window_start window_end =
     (let end_ns = (case window_end of Some e \<Rightarrow> e
                    | None \<Rightarrow> Max (set (map pt_observed_at_ns samples)));
          start_ns = end_ns - seconds_to_ns (ma_window_sec a)
      in (case window_start of None \<Rightarrow> start_ns | Some s \<Rightarrow> max start_ns s, end_ns))"

definition evaluate_assertion ::
  "metric_point list \<Rightarrow> int option \<Rightarrow> int option \<Rightarrow> metric_assertion
    \<Rightarrow> metric_error + metric_evaluation" where
  "evaluate_assertion samples window_start window_end a =
     (let selected = matching_points (ma_metric_name a) (ma_attribute_match a) samples in
      if selected = [] then Inr (evaluation_without_value a Error)
      else (case assertion_window a selected window_start window_end of (start_ns, end_ns) \<Rightarrow>
        let window = filter (in_window start_ns end_ns) selected in
        if window = [] then Inr (evaluation_without_value a Error)
        else if pt_unit ` set window \<noteq> {ma_unit a} then Inr (evaluation_without_value a Error)
        else catch_aggregation a (evaluate_points a selected window start_ns end_ns)))"

definition evaluate_metric_assertions ::
  "metric_assertion list \<Rightarrow> metric_point list \<Rightarrow> int option \<Rightarrow> int option
    \<Rightarrow> metric_error + metric_evaluation list" where
  "evaluate_metric_assertions assertions samples window_start window_end = checked
     (first_error
       [require ((window_start = None) = (window_end = None)) (Input Window_half_given),
        require (case (window_start, window_end) of (Some s, Some e) \<Rightarrow> \<not> e < s | _ \<Rightarrow> True)
          (Input Window_reversed)])
     (map_res (evaluate_assertion samples window_start window_end) assertions)"

section \<open>The duration loop measures the longest run\<close>

text \<open>The sampled signal: the value of the last gauge at or before an instant.\<close>

fun signal :: "(int \<times> bool) list \<Rightarrow> int \<Rightarrow> bool" where
  "signal [] t = False"
| "signal ((a, v) # rest) t =
     (case rest of [] \<Rightarrow> v | (b, _) # _ \<Rightarrow> if b \<le> t then signal rest t else v)"

text \<open>\<open>L\<close> is the length of the longest interval inside [a, b) on which \<open>f\<close> is \<open>v\<close>.\<close>

definition run :: "(int \<Rightarrow> bool) \<Rightarrow> bool \<Rightarrow> int \<Rightarrow> int \<Rightarrow> int \<Rightarrow> int \<Rightarrow> bool" where
  "run f v a b s e \<longleftrightarrow> a \<le> s \<and> s \<le> e \<and> e \<le> b \<and> (\<forall>t. s \<le> t \<and> t < e \<longrightarrow> f t = v)"

definition longest_run :: "(int \<Rightarrow> bool) \<Rightarrow> bool \<Rightarrow> int \<Rightarrow> int \<Rightarrow> int \<Rightarrow> bool" where
  "longest_run f v a b L \<longleftrightarrow>
     (\<forall>s e. run f v a b s e \<longrightarrow> e - s \<le> L) \<and> (\<exists>s e. run f v a b s e \<and> e - s = L)"

definition current_run :: "(int \<Rightarrow> bool) \<Rightarrow> int \<Rightarrow> int \<Rightarrow> bool option \<Rightarrow> int \<Rightarrow> bool" where
  "current_run f a b value_opt d \<longleftrightarrow>
     (case value_opt of None \<Rightarrow> b = a
      | Some v \<Rightarrow> 0 < d \<and> run f v a b (b - d) b \<and> (b - d = a \<or> f (b - d - 1) \<noteq> v))"

definition duration_inv :: "(int \<Rightarrow> bool) \<Rightarrow> int \<Rightarrow> int \<Rightarrow> duration_state \<Rightarrow> bool" where
  "duration_inv f a b st \<longleftrightarrow>
     a \<le> b \<and> longest_run f True a b (dr_longest_true st) \<and>
     longest_run f False a b (dr_longest_false st) \<and>
     current_run f a b (dr_current_value st) (dr_current_duration st)"

lemma longest_run_nonneg: "a \<le> b \<Longrightarrow> longest_run f v a b L \<Longrightarrow> 0 \<le> L"
  by (force simp: longest_run_def run_def)

text \<open>Extending the interval by a stretch of value \<open>v\<close>: the run of \<open>v\<close> at its end.\<close>

lemma extended_run:
  assumes inv: "current_run f a b cur d" and ab: "a \<le> b" and len: "0 < len"
    and f: "\<And>t. b \<le> t \<Longrightarrow> t < b + len \<Longrightarrow> f t = v"
  defines "d' \<equiv> (if Some v \<noteq> cur then 0 else d) + len"
  shows "run f v a (b + len) (b + len - d') (b + len)"
    and "b + len - d' = a \<or> f (b + len - d' - 1) \<noteq> v"
    and "run f v a (b + len) s e \<Longrightarrow> b < e \<Longrightarrow> b + len - d' \<le> s"
proof -
  show r: "run f v a (b + len) (b + len - d') (b + len)"
  proof (cases "Some v = cur")
    case True
    then have old: "run f v a b (b - d) b" "0 < d" using inv by (auto simp: current_run_def)
    have "f t = v" if "b - d \<le> t" "t < b + len" for t
      using old that f [of t] by (cases "t < b") (simp_all add: run_def)
    with old True len show ?thesis by (simp add: run_def d'_def)
  next
    case False
    then show ?thesis using f ab len by (simp add: run_def d'_def)
  qed
  show stop: "b + len - d' = a \<or> f (b + len - d' - 1) \<noteq> v"
  proof (cases cur)
    case None
    then show ?thesis using inv by (simp add: current_run_def d'_def)
  next
    case (Some w)
    then have w: "run f w a b (b - d) b" "0 < d" "b - d = a \<or> f (b - d - 1) \<noteq> w"
      using inv by (auto simp: current_run_def)
    then have "f (b - 1) = w" by (simp add: run_def)
    with Some w show ?thesis by (cases "w = v") (auto simp: d'_def)
  qed
  show "b + len - d' \<le> s" if s: "run f v a (b + len) s e" "b < e"
  proof (rule ccontr)
    assume lt: "\<not> b + len - d' \<le> s"
    have "0 \<le> (if Some v \<noteq> cur then 0 else d)" using inv by (auto simp: current_run_def)
    with lt s have "s \<le> b + len - d' - 1" "b + len - d' - 1 < e" "a \<le> s" by (auto simp: run_def d'_def)
    with s stop lt show False by (auto simp: run_def)
  qed
qed

lemma longest_run_extend_same:
  assumes cur: "current_run f a b cur d" and ab: "a \<le> b" and len: "0 < len"
    and f: "\<And>t. b \<le> t \<Longrightarrow> t < b + len \<Longrightarrow> f t = v" and L: "longest_run f v a b L"
  shows "longest_run f v a (b + len) (max L ((if Some v \<noteq> cur then 0 else d) + len))"
proof -
  let ?d = "(if Some v \<noteq> cur then 0 else d) + len"
  have "e - s \<le> max L ?d" if "run f v a (b + len) s e" for s e
  proof (cases "b < e")
    case True
    have "b + len - ?d \<le> s" by (rule extended_run(3) [OF cur ab len _ that True]) (simp_all add: f)
    with that show ?thesis by (auto simp: run_def)
  next
    case False
    then have "run f v a b s e" using that by (auto simp: run_def)
    then have "e - s \<le> L" using L by (simp add: longest_run_def)
    then show ?thesis by (simp add: max_def)
  qed
  moreover have "\<exists>s e. run f v a (b + len) s e \<and> e - s = max L ?d"
  proof (cases "L \<le> ?d")
    case True
    have "run f v a (b + len) (b + len - ?d) (b + len)" by (rule extended_run(1) [OF cur ab len]) (simp_all add: f)
    with True show ?thesis by (intro exI [of _ "b + len - ?d"] exI [of _ "b + len"]) auto
  next
    case False
    with L len show ?thesis by (auto simp: longest_run_def run_def max_def)
  qed
  ultimately show ?thesis by (simp add: longest_run_def)
qed

lemma longest_run_extend_other:
  assumes ab: "a \<le> b" and len: "0 < len" and f: "\<And>t. b \<le> t \<Longrightarrow> t < b + len \<Longrightarrow> f t = v"
    and L: "longest_run f (\<not> v) a b L"
  shows "longest_run f (\<not> v) a (b + len) L"
proof -
  have "e - s \<le> L" if r: "run f (\<not> v) a (b + len) s e" for s e
  proof (cases "b < e \<and> s < e")
    case True
    with r have "f (e - 1) = (\<not> v)" by (simp add: run_def)
    moreover have "f (e - 1) = v" using True r by (intro f) (simp_all add: run_def)
    ultimately show ?thesis by simp
  next
    case False
    show ?thesis
    proof (cases "s < e")
      case True
      with False r have "run f (\<not> v) a b s e" by (auto simp: run_def)
      then show ?thesis using L by (auto simp: longest_run_def)
    next
      case False
      then show ?thesis using longest_run_nonneg [OF ab L] by simp
    qed
  qed
  moreover have "\<exists>s e. run f (\<not> v) a (b + len) s e \<and> e - s = L"
    using L len by (force simp: longest_run_def run_def)
  ultimately show ?thesis by (simp add: longest_run_def)
qed

lemma duration_step_inv:
  assumes inv: "duration_inv f a b st" and len: "0 < len"
    and f: "\<And>t. b \<le> t \<Longrightarrow> t < b + len \<Longrightarrow> f t = v"
  shows "duration_inv f a (b + len) (duration_step v len st)"
proof -
  from inv have ab: "a \<le> b" and cur: "current_run f a b (dr_current_value st) (dr_current_duration st)"
    by (simp_all add: duration_inv_def)
  let ?d = "(if Some v \<noteq> dr_current_value st then 0 else dr_current_duration st) + len"
  have pos: "0 < ?d"
    using cur len by (cases "dr_current_value st") (auto simp: current_run_def)
  have r: "run f v a (b + len) (b + len - ?d) (b + len)"
    by (rule extended_run(1) [OF cur ab len]) (simp_all add: f)
  have stop: "b + len - ?d = a \<or> f (b + len - ?d - 1) \<noteq> v"
    by (rule extended_run(2) [OF cur ab len]) (simp_all add: f)
  have "current_run f a (b + len) (Some v) ?d"
    using pos r stop by (simp add: current_run_def)
  moreover have "longest_run f v a (b + len) (max L ?d)" if "longest_run f v a b L" for L
    using longest_run_extend_same [OF cur ab len _ that] f by blast
  moreover have "longest_run f (\<not> v) a (b + len) L" if "longest_run f (\<not> v) a b L" for L
    using longest_run_extend_other [OF ab len _ that] f by blast
  ultimately show ?thesis
    using inv len by (cases v) (auto simp: duration_inv_def duration_step_def Let_def)
qed

lemma duration_loop_inv:
  assumes "duration_inv f a (fst (hd gs)) st" and "gs \<noteq> []" and "sorted (map fst gs)"
    and "\<forall>g \<in> set gs. ws \<le> fst g \<and> fst g \<le> we"
    and "\<And>t. fst (hd gs) \<le> t \<Longrightarrow> f t = signal gs t"
  shows "duration_inv f a we (duration_loop ws we gs st)"
  using assms
proof (induction gs arbitrary: st)
  case (Cons g rest)
  obtain t v where g: "g = (t, v)" by (cases g)
  define next_ns where "next_ns = (case rest of [] \<Rightarrow> we | (n, _) # _ \<Rightarrow> n)"
  have segment: "(case rest of [] \<Rightarrow> we | (n, _) # _ \<Rightarrow> min n we) = next_ns"
    using Cons.prems(4) by (auto simp: next_ns_def split: list.splits)
  have t: "max t ws = t" "t \<le> next_ns"
    using Cons.prems(3,4) g by (auto simp: next_ns_def split: list.splits)
  have value_here: "f x = v" if "t \<le> x" "x < next_ns" for x
    using Cons.prems(5) [of x] that g by (auto simp: next_ns_def split: list.splits)
  define st' where "st' = (if next_ns \<le> t then st else duration_step v (next_ns - t) st)"
  have inv: "duration_inv f a next_ns st'"
  proof (cases "next_ns \<le> t")
    case True
    then show ?thesis using Cons.prems(1) t g by (simp add: st'_def)
  next
    case False
    then have "duration_inv f a (t + (next_ns - t)) (duration_step v (next_ns - t) st)"
      using Cons.prems(1) g value_here by (intro duration_step_inv) auto
    with False show ?thesis by (simp add: st'_def)
  qed
  have loop: "duration_loop ws we (g # rest) st = duration_loop ws we rest st'"
    unfolding g duration_loop.simps Let_def st'_def segment t(1) ..
  show ?case
  proof (cases rest)
    case Nil
    with loop inv show ?thesis by (simp add: next_ns_def)
  next
    case (Cons h hs)
    then have hd: "fst (hd rest) = next_ns" by (auto simp: next_ns_def split: prod.splits)
    have "duration_inv f a we (duration_loop ws we rest st')"
    proof (rule Cons.IH)
      show "f x = signal rest x" if "fst (hd rest) \<le> x" for x
      proof -
        have "t \<le> x" using that hd t by simp
        with Cons.prems(5) [of x] g that hd Cons show ?thesis
          by (auto simp: next_ns_def split: prod.splits)
      qed
    qed (use Cons.prems Cons hd inv in auto)
    with loop show ?thesis by simp
  qed
qed simp

text \<open>The instants of a duration evaluation: the first gauge, and the signal from there on.\<close>

definition assertion_signal :: "metric_assertion \<Rightarrow> metric_point list \<Rightarrow> int \<Rightarrow> bool" where
  "assertion_signal a samples = signal (predicate_points a (sorted_gauges samples))"

definition first_instant :: "metric_point list \<Rightarrow> int" where
  "first_instant samples = sa_observed_at_ns (hd (sorted_gauges samples))"

lemma sorted_gauges_set:
  "s \<in> set (sorted_gauges samples) \<Longrightarrow> Scalar s \<in> set samples"
proof -
  assume "s \<in> set (sorted_gauges samples)"
  then have "s \<in> set (List.map_filter as_scalar samples)" by (simp add: sorted_gauges_def)
  then obtain p where "p \<in> set samples" "as_scalar p = Some s"
    by (auto simp: List.map_filter_def)
  moreover from \<open>as_scalar p = Some s\<close> have "p = Scalar s" by (cases p) simp_all
  ultimately show ?thesis by simp
qed

lemma longest_run_empty: "longest_run f v a a 0"
proof -
  have "run f v a a a a" by (auto simp: run_def)
  moreover have "e - s \<le> 0" if "run f v a a s e" for s e using that by (simp add: run_def)
  ultimately show ?thesis unfolding longest_run_def by force
qed

lemma duration_loop_longest:
  fixes a :: metric_assertion
  assumes "sorted_gauges samples \<noteq> []" and "\<forall>p \<in> set samples. in_window ws we p"
  defines "st \<equiv> duration_loop ws we (predicate_points a (sorted_gauges samples)) no_duration"
  shows "longest_run (assertion_signal a samples) True (first_instant samples) we (dr_longest_true st)"
    and "longest_run (assertion_signal a samples) False (first_instant samples) we (dr_longest_false st)"
proof -
  let ?gs = "predicate_points a (sorted_gauges samples)" and ?t = "first_instant samples"
  have ne: "?gs \<noteq> []" using assms(1) by (simp add: predicate_points_def)
  have hd: "fst (hd ?gs) = ?t"
    using assms(1) by (simp add: predicate_points_def first_instant_def hd_map)
  have start: "duration_inv (assertion_signal a samples) ?t ?t no_duration"
    by (simp add: duration_inv_def longest_run_empty current_run_def no_duration_def)
  have sorted: "sorted (map fst ?gs)"
    by (simp add: predicate_points_def sorted_gauges_def o_def)
  have inside: "\<forall>g \<in> set ?gs. ws \<le> fst g \<and> fst g \<le> we"
    using assms(2) sorted_gauges_set [of _ samples]
    by (fastforce simp: predicate_points_def in_window_def)
  have "duration_inv (assertion_signal a samples) ?t we (duration_loop ws we ?gs no_duration)"
    using start
    by (intro duration_loop_inv [OF _ ne sorted inside]) (simp_all add: hd, simp add: assertion_signal_def)
  then show "longest_run (assertion_signal a samples) True ?t we (dr_longest_true st)"
    "longest_run (assertion_signal a samples) False ?t we (dr_longest_false st)"
    by (simp_all add: duration_inv_def st_def)
qed

text \<open>
  C22: A duration predicate is judged on the longest contiguous run of the sampled signal: the
  observed value is that run's length in seconds, of the instants where the predicate holds
  for a required minimum and of those where it fails for an allowed violation, and the verdict
  compares it with the required duration.
\<close>

theorem duration_is_longest_run:
  assumes "duration_evaluation a spec samples ws we = Inr (observed, passed)"
    and "samples \<noteq> []" and "\<forall>p \<in> set samples. in_window ws we p"
  shows "\<exists>L. longest_run (assertion_signal a samples) (ds_kind spec = Minimum_contiguous)
       (first_instant samples) we L \<and>
     observed = fl (of_int L / 1000000000) \<and>
     passed = (if ds_kind spec = Minimum_contiguous then fl (ds_duration_sec spec) \<le> observed
               else observed \<le> fl (ds_duration_sec spec))"
proof -
  have "length (sorted_gauges samples) = length samples"
    and res: "(observed, passed) = duration_verdict spec
      (duration_loop ws we (predicate_points a (sorted_gauges samples)) no_duration)"
    using assms(1) by (simp_all add: duration_evaluation_def Let_def checked_Inr)
  with assms(2) have ne: "sorted_gauges samples \<noteq> []" by auto
  note longest = duration_loop_longest [OF ne assms(3), of a]
  show ?thesis
  proof (cases "ds_kind spec = Minimum_contiguous")
    case True
    with res longest(1) show ?thesis by (auto simp: duration_verdict_def Let_def)
  next
    case False
    with res longest(2) show ?thesis by (auto simp: duration_verdict_def Let_def)
  qed
qed

section \<open>Histogram assertions\<close>

definition verdict_true_of :: "metric_assertion \<Rightarrow> outcome \<Rightarrow> rat \<Rightarrow> bool" where
  "verdict_true_of a status x \<longleftrightarrow>
     (status = Passed \<longrightarrow> holds (ma_operator a) x (ma_threshold a)) \<and>
     (status = Failed \<longrightarrow> \<not> holds (ma_operator a) x (ma_threshold a))"

text \<open>
  C21: A histogram assertion that passes or fails does so for the events themselves: whenever
  the contributions in the window describe lists of events, the statistic of all those events
  together satisfies, or violates, the asserted threshold.
\<close>

theorem histogram_assertion_sound:
  assumes "histogram_assertion a aggregation samples ws we = Inr ev"
    and "histogram_contributions samples ws we = Inr contributions"
    and "list_all2 describes contributions ess" and "concat ess \<noteq> []" and "aggregation \<noteq> Agg_mean"
  shows "verdict_true_of a (me_status ev) (true_statistic aggregation (concat ess))"
proof -
  obtain merged e where merged: "merge_histograms contributions = Inr merged"
    and e: "histogram_statistic merged aggregation False = Inr e"
    and status: "me_status ev = compare_estimate e (ma_operator a) (ma_threshold a)"
    using assms(1,2) by (auto simp: histogram_assertion_def histogram_window_aggregate_def checked_Inr Let_def)
  have d: "describes merged (concat ess)" using assms(3) merged by (rule merge_describes)
  obtain e' where e': "estimate_statistic merged aggregation False = Inr e'"
    "contains e' (true_statistic aggregation (concat ess))"
    using estimate_contains_statistic [OF d assms(4,5), of False] by auto
  with e have "e' = e" by (auto simp: histogram_statistic_def split: if_splits)
  with e'(2) status compare_estimate_sound show ?thesis unfolding verdict_true_of_def by metis
qed

definition example_window :: histogram_sample where
  "example_window =
     \<lparr>hs_name = ''latency'', hs_unit = ''ms'', hs_observed_at_ns = 100, hs_count = 4,
      hs_bucket_counts = [1, 2, 1], hs_explicit_bounds = [5, 10], hs_attributes = [],
      hs_temporality = Delta, hs_start_time_ns = 0, hs_sum = None, hs_min = Some 2,
      hs_max = None\<rparr>"

definition example_assertion :: "assertion_kind \<Rightarrow> metric_assertion" where
  "example_assertion kind =
     \<lparr>ma_assertion_id = ''a'', ma_metric_name = ''latency'', ma_unit = ''ms'', ma_kind = kind,
      ma_operator = Lte, ma_threshold = 10, ma_window_sec = 1, ma_attribute_match = []\<rparr>"

lemma example_contributions: "histogram_contributions [example_window] 0 100 = Inr [example_window]"
  by (simp add: histogram_contributions_def validated_delta_points_def delta_selected_def
      example_window_def group_by_def List.map_filter_def checked_Inr Let_def)

lemma example_merged: "merge_histograms [example_window] = Inr example_window"
  by (simp add: merge_histograms_def make_histogram_def merged_histogram_def checked_Inr
      example_window_def recorded_values_def merged_extremum_def validate_histogram_sample_def Let_def)

lemma example_wide_tolerance: "effective_tolerance METRIC_WINDOW_COVERAGE_TOLERANCE_NS 100 = 5"
  unfolding effective_tolerance_def METRIC_WINDOW_COVERAGE_TOLERANCE_NS_def uncovered_fraction
    of_int_numeral example_product
  by (simp add: py_int_def)

lemma example_covered:
  "require_window_coverage (interval_coverage [Hist example_window]) (Some Delta) 0 100
     METRIC_WINDOW_COVERAGE_TOLERANCE_NS = None"
proof -
  have "0 \<le> METRIC_WINDOW_COVERAGE_TOLERANCE_NS" by (simp add: METRIC_WINDOW_COVERAGE_TOLERANCE_NS_def)
  then show ?thesis
    by (simp add: require_window_coverage_def interval_coverage_def group_by_def example_window_def
        point_series_def series_key_def check_series_coverage_def example_wide_tolerance Let_def)
qed

lemma example_window_describes: "describes example_window [7, 2, 10, 14]"
  by (simp add: describes_def wf_histogram_def example_window_def bucket_events_def
      bisect_left_def less_Suc_eq nth_Cons')

lemma example_histogram_assertion:
  "\<exists>ev. histogram_assertion (example_assertion (Metric Agg_p50)) Agg_p50 [example_window] 0 100 = Inr ev"
proof -
  have window: "histogram_window_aggregate [example_window] 0 100 = Inr example_window"
    using example_covered
    by (simp add: histogram_window_aggregate_def example_contributions example_merged checked_Inr)
      (simp add: example_window_def)
  obtain e where "estimate_statistic example_window Agg_p50 False = Inr e"
    using estimate_contains_statistic [OF example_window_describes, of Agg_p50 False] by auto
  then have "histogram_statistic example_window Agg_p50 False = Inr e"
    by (simp add: histogram_statistic_def example_window_def)
  with window show ?thesis by (simp add: histogram_assertion_def Let_def)
qed

theorem histogram_assertion_sound_witness:
  "\<exists>ev. histogram_assertion (example_assertion (Metric Agg_p50)) Agg_p50 [example_window] 0 100 = Inr ev
     \<and> verdict_true_of (example_assertion (Metric Agg_p50)) (me_status ev)
         (true_statistic Agg_p50 [7, 2, 10, 14])"
proof -
  obtain ev where ev: "histogram_assertion (example_assertion (Metric Agg_p50)) Agg_p50
      [example_window] 0 100 = Inr ev"
    using example_histogram_assertion by blast
  have "list_all2 describes [example_window] [[7, 2, 10, 14]]"
    by (simp add: example_window_describes)
  from histogram_assertion_sound [OF ev example_contributions this] ev show ?thesis by auto
qed

definition example_gauge :: "int \<Rightarrow> rat \<Rightarrow> metric_point" where
  "example_gauge t v = Scalar
     \<lparr>sa_name = ''latency'', sa_value = v, sa_unit = ''ms'', sa_observed_at_ns = t,
      sa_attributes = [], sa_instrument_kind = Gauge, sa_temporality = None,
      sa_start_time_ns = 0, sa_monotonic = False\<rparr>"

definition example_duration :: duration_spec where
  "example_duration =
     \<lparr>ds_kind = Minimum_contiguous, ds_duration_sec = 1, ds_max_sample_gap_sec = 1\<rparr>"

lemma example_gap: "seconds_to_ns 1 = 1000000000"
  by code_simp

lemma example_duration_evaluated:
  "\<exists>observed passed. duration_evaluation (example_assertion (Metric_duration example_duration))
     example_duration [example_gauge 0 4, example_gauge 60 12] 0 100 = Inr (observed, passed)"
  by (simp add: duration_evaluation_def sorted_gauges_def example_gauge_def List.map_filter_def
      example_duration_def example_gap sample_gaps_def checked_Inr Let_def duration_verdict_def)

theorem duration_is_longest_run_witness:
  "\<exists>observed L. longest_run
       (assertion_signal (example_assertion (Metric_duration example_duration))
          [example_gauge 0 4, example_gauge 60 12]) True
       (first_instant [example_gauge 0 4, example_gauge 60 12]) 100 L \<and>
     observed = fl (of_int L / 1000000000)"
proof -
  obtain observed passed where evaluated:
    "duration_evaluation (example_assertion (Metric_duration example_duration))
       example_duration [example_gauge 0 4, example_gauge 60 12] 0 100 = Inr (observed, passed)"
    using example_duration_evaluated by blast
  have inside: "\<forall>p \<in> set [example_gauge 0 4, example_gauge 60 12]. in_window 0 100 p"
    by (simp add: in_window_def example_gauge_def)
  have kind: "(ds_kind example_duration = Minimum_contiguous) = True"
    by (simp add: example_duration_def)
  show ?thesis
    using duration_is_longest_run [OF evaluated list.distinct(2) inside] unfolding kind by blast
qed

section \<open>Evaluations\<close>

text \<open>
  A verdict is grounded: it carries the assertion's id, and a decided one (passed or failed)
  rests on matching points inside the window of the assertion, all in the asserted unit.
\<close>

definition window_points ::
  "metric_assertion \<Rightarrow> metric_point list \<Rightarrow> int option \<Rightarrow> int option \<Rightarrow> metric_point list" where
  "window_points a samples window_start window_end =
     (let selected = matching_points (ma_metric_name a) (ma_attribute_match a) samples;
          (start_ns, end_ns) = assertion_window a selected window_start window_end
      in filter (in_window start_ns end_ns) selected)"

definition grounded ::
  "metric_point list \<Rightarrow> int option \<Rightarrow> int option \<Rightarrow> metric_assertion \<Rightarrow> metric_evaluation \<Rightarrow> bool" where
  "grounded samples window_start window_end a ev \<longleftrightarrow>
     me_assertion_id ev = ma_assertion_id a \<and>
     (me_status ev \<in> {Passed, Failed} \<longrightarrow>
        (let window = window_points a samples window_start window_end in
         window \<noteq> [] \<and> (\<forall>p \<in> set window. pt_unit p = ma_unit a \<and>
           pt_name p = ma_metric_name a \<and> attributes_match (ma_attribute_match a) (pt_attributes p))))"

lemma evaluate_points_id:
  "evaluate_points a selected window ws we = Inr ev \<Longrightarrow> me_assertion_id ev = ma_assertion_id a"
  by (auto simp: evaluate_points_def histogram_assertion_def Let_def
      split: assertion_kind.splits if_splits prod.splits)

lemma catch_aggregation_Inr:
  assumes "catch_aggregation a r = Inr ev"
  shows "r = Inr ev \<or> ev = evaluation_without_value a Skipped \<or> ev = evaluation_without_value a Error"
  using assms by (cases "(a, r)" rule: catch_aggregation.cases) auto

lemma evaluate_assertion_grounded:
  assumes "evaluate_assertion samples ws we a = Inr ev"
  shows "grounded samples ws we a ev"
proof (cases "ev = evaluation_without_value a Skipped \<or> ev = evaluation_without_value a Error")
  case True
  then show ?thesis by (auto simp: grounded_def evaluation_without_value_def)
next
  case False
  define selected where "selected = matching_points (ma_metric_name a) (ma_attribute_match a) samples"
  obtain s e where w: "assertion_window a selected ws we = (s, e)" by fastforce
  define window where "window = filter (in_window s e) selected"
  have "window \<noteq> []" "pt_unit ` set window = {ma_unit a}"
    "catch_aggregation a (evaluate_points a selected window s e) = Inr ev"
    using assms False w
    by (auto simp: evaluate_assertion_def Let_def selected_def [symmetric] window_def
        split: if_splits)
  moreover have "window_points a samples ws we = window"
    by (simp add: window_points_def selected_def [symmetric] w window_def)
  moreover have "\<forall>p \<in> set window. pt_name p = ma_metric_name a
      \<and> attributes_match (ma_attribute_match a) (pt_attributes p)"
    by (simp add: window_def selected_def matching_points_def)
  ultimately show ?thesis
    using catch_aggregation_Inr [of a] evaluate_points_id False unfolding grounded_def by fastforce
qed

text \<open>
  Evaluating the assertions of a scenario gives one evaluation per assertion, in order,
  and every decided verdict is grounded; missing points, a foreign unit and an aggregation
  error never become a pass or a failure.
\<close>

theorem evaluations_grounded:
  assumes "evaluate_metric_assertions assertions samples ws we = Inr evaluations"
  shows "list_all2 (grounded samples ws we) assertions evaluations"
proof -
  have "map_res (evaluate_assertion samples ws we) assertions = Inr evaluations"
    using assms by (simp add: evaluate_metric_assertions_def checked_Inr)
  then have "list_all2 (\<lambda>a ev. evaluate_assertion samples ws we a = Inr ev) assertions evaluations"
    by (simp add: map_res_Inr)
  then show ?thesis by (rule list_all2_mono) (rule evaluate_assertion_grounded)
qed

theorem evaluations_grounded_witness:
  "\<exists>evs. evaluate_metric_assertions [example_assertion (Metric Agg_max)]
       [example_gauge 0 4, example_gauge 60 12] None None = Inr evs \<and>
     list_all2 (grounded [example_gauge 0 4, example_gauge 60 12] None None)
       [example_assertion (Metric Agg_max)] evs"
proof -
  have "\<exists>evs. evaluate_metric_assertions [example_assertion (Metric Agg_max)]
       [example_gauge 0 4, example_gauge 60 12] None None = Inr evs"
    by (simp add: evaluate_metric_assertions_def evaluate_assertion_def example_assertion_def
        example_gauge_def matching_points_def attributes_match_def assertion_window_def example_gap
        in_window_def evaluate_points_def aggregate_metric_points_def scalar_window_aggregate_def
        List.map_filter_def checked_Inr Let_def)
  then show ?thesis using evaluations_grounded by blast
qed

end
