(* ===== verification/Authorization.thy ===== *)
theory Authorization
  imports Sem_Runtime
begin

text \<open>
  The cross-check of a physical execution against its permit and its verification
  (harness/authorization.py): \<open>evaluate_physical_authorization\<close> collects every disagreement as
  an issue. A key that the schemas leave open is an option; reading a missing one raises.
\<close>

section \<open>Documents\<close>

record authorization_scenario =
  az_environment :: environment
  az_physical_effect :: string
  az_hardware_scope :: "string list"
  az_trust_policy_sha256 :: "string option"

record target_binding =
  tb_target_id :: string
  tb_identity_kind :: string
  tb_identity_sha256 :: string
  tb_scope :: string

record authorization_runtime =
  au_subject_digest :: string
  au_trust_policy_sha256 :: "string option"
  au_permit_sha256 :: "string option"
  au_verification_sha256 :: "string option"
  au_physical_targets :: "target_binding list"

record permit_target =
  pg_environment :: environment
  pg_target_id :: string
  pg_identity_kind :: string
  pg_identity_sha256 :: string

record execution_permit =
  ep_scenario_sha256 :: string
  ep_subject_digest :: string
  ep_trust_policy_sha256 :: string
  ep_target :: permit_target
  ep_hardware_scope :: "string list"
  ep_allowed_physical_effect :: string
  ep_operator_id :: string
  ep_approver_id :: string
  ep_issued_at :: string
  ep_expires_at :: string

record execution_verification =
  vf_permit_sha256 :: string
  vf_trust_policy_sha256 :: string
  vf_target :: permit_target
  vf_signers :: "signer list"
  vf_verified_at :: string

text \<open>An issue names what disagrees; \<open>Differs\<close> carries the path of an unequal field.\<close>

datatype authorization_issue =
    Simulation_with_permit
  | Simulation_with_verification
  | Permit_required
  | Verification_required
  | Permit_not_json
  | Verification_not_json
  | Differs string
  | Target_not_in_runtime
  | Permit_scope_too_small
  | Runtime_scope_too_small
  | Permit_not_active
  | Verified_outside_permit
  | Verified_in_future

datatype authorization_error = Key_missing string | Bad_instant string

section \<open>The check\<close>

definition is_json_path :: "string \<Rightarrow> bool" where
  "is_json_path path =
     (let name = map lower_char (drop (length path - length (takeWhile (\<lambda>c. c \<noteq> CHR ''/'') (rev path))) path)
      in suffix ''.json'' name \<and> 5 < length name)"

definition check_equal :: "string \<Rightarrow> 'a \<Rightarrow> 'a \<Rightarrow> authorization_issue list" where
  "check_equal path expected actual = (if expected \<noteq> actual then [Differs path] else [])"

definition issue_unless :: "bool \<Rightarrow> authorization_issue \<Rightarrow> authorization_issue list" where
  "issue_unless ok i = (if ok then [] else [i])"

definition need :: "string \<Rightarrow> 'a option \<Rightarrow> authorization_error + 'a" where
  "need key v = (case v of None \<Rightarrow> Inl (Key_missing key) | Some x \<Rightarrow> Inr x)"

definition instant :: "string \<Rightarrow> authorization_error + int" where
  "instant text = (case parse_timestamp text of None \<Rightarrow> Inl (Bad_instant text) | Some t \<Rightarrow> Inr t)"

definition digest_issues ::
  "string \<Rightarrow> string \<Rightarrow> string \<Rightarrow> authorization_scenario \<Rightarrow> authorization_runtime
    \<Rightarrow> execution_permit \<Rightarrow> execution_verification
    \<Rightarrow> authorization_error + authorization_issue list" where
  "digest_issues scenario_sha256 permit_sha256 verification_sha256 scenario runtime permit verification =
     and_then (need ''trust_policy_sha256'' (az_trust_policy_sha256 scenario)) (\<lambda>trust.
     and_then (need ''trust_policy_sha256'' (au_trust_policy_sha256 runtime)) (\<lambda>runtime_trust.
     and_then (need ''permit_sha256'' (au_permit_sha256 runtime)) (\<lambda>runtime_permit.
     and_then (need ''execution_verification_sha256'' (au_verification_sha256 runtime))
       (\<lambda>runtime_verification.
     Inr (check_equal ''$.permit.scenario_sha256'' scenario_sha256 (ep_scenario_sha256 permit)
       @ check_equal ''$.permit.subject_digest'' (au_subject_digest runtime) (ep_subject_digest permit)
       @ check_equal ''$.permit.trust_policy_sha256'' trust (ep_trust_policy_sha256 permit)
       @ check_equal ''$.verification.trust_policy_sha256'' trust (vf_trust_policy_sha256 verification)
       @ check_equal ''$.runtime.authorization.trust_policy_sha256'' trust runtime_trust
       @ check_equal ''$.verification.permit_sha256'' permit_sha256 (vf_permit_sha256 verification)
       @ check_equal ''$.runtime.authorization.permit_sha256'' permit_sha256 runtime_permit
       @ check_equal ''$.runtime.authorization.execution_verification_sha256''
           verification_sha256 runtime_verification)))))"

definition target_issues ::
  "environment \<Rightarrow> target_binding list \<Rightarrow> permit_target \<Rightarrow> permit_target \<Rightarrow> authorization_issue list" where
  "target_issues environment targets permit_target verification_target =
     check_equal ''$.permit.target.environment'' environment (pg_environment permit_target)
     @ check_equal ''$.verification.target.environment''
         (pg_environment permit_target) (pg_environment verification_target)
     @ check_equal ''$.verification.target.target_id''
         (pg_target_id permit_target) (pg_target_id verification_target)
     @ check_equal ''$.verification.target.identity_kind''
         (pg_identity_kind permit_target) (pg_identity_kind verification_target)
     @ check_equal ''$.verification.target.identity_sha256''
         (pg_identity_sha256 permit_target) (pg_identity_sha256 verification_target)
     @ (case dict_by tb_target_id targets (pg_target_id permit_target) of
          None \<Rightarrow> [Target_not_in_runtime]
        | Some runtime_target \<Rightarrow>
            check_equal (''$.runtime.physical_targets.'' @ pg_target_id permit_target @ ''.identity_kind'')
              (pg_identity_kind permit_target) (tb_identity_kind runtime_target)
            @ check_equal (''$.runtime.physical_targets.'' @ pg_target_id permit_target @ ''.identity_sha256'')
                (pg_identity_sha256 permit_target) (tb_identity_sha256 runtime_target))"

definition scope_issues ::
  "authorization_scenario \<Rightarrow> target_binding list \<Rightarrow> execution_permit \<Rightarrow> authorization_issue list" where
  "scope_issues scenario targets permit =
     issue_unless (set (az_hardware_scope scenario) \<subseteq> set (ep_hardware_scope permit)) Permit_scope_too_small
     @ issue_unless (set (az_hardware_scope scenario) \<subseteq> tb_scope ` set targets) Runtime_scope_too_small
     @ check_equal ''$.permit.allowed_physical_effect''
         (az_physical_effect scenario) (ep_allowed_physical_effect permit)"

definition signer_issues ::
  "execution_permit \<Rightarrow> signer list \<Rightarrow> authorization_error + authorization_issue list" where
  "signer_issues permit signers =
     and_then (need ''operator'' (dict_by sg_role signers Operator)) (\<lambda>operator.
     and_then (need ''approver'' (dict_by sg_role signers Approver)) (\<lambda>approver.
     Inr (check_equal ''$.verification.signers.operator.identity''
            (ep_operator_id permit) (sg_identity operator)
          @ check_equal ''$.verification.signers.approver.identity''
              (ep_approver_id permit) (sg_identity approver))))"

definition validity_issues ::
  "execution_permit \<Rightarrow> execution_verification \<Rightarrow> int \<Rightarrow> authorization_error + authorization_issue list" where
  "validity_issues permit verification now =
     and_then (instant (ep_issued_at permit)) (\<lambda>issued_at.
     and_then (instant (ep_expires_at permit)) (\<lambda>expires_at.
     and_then (instant (vf_verified_at verification)) (\<lambda>verified_at.
     Inr (issue_unless (issued_at \<le> now \<and> now < expires_at) Permit_not_active
          @ issue_unless (issued_at \<le> verified_at \<and> verified_at < expires_at) Verified_outside_permit
          @ issue_unless (verified_at \<le> now) Verified_in_future))))"

text \<open>The part with all documents at hand, then the presence tests before it.\<close>

definition document_issues ::
  "authorization_scenario \<Rightarrow> string \<Rightarrow> authorization_runtime
    \<Rightarrow> execution_permit \<Rightarrow> string \<Rightarrow> string \<Rightarrow> execution_verification \<Rightarrow> string \<Rightarrow> string \<Rightarrow> int
    \<Rightarrow> authorization_error + authorization_issue list" where
  "document_issues scenario scenario_sha256 runtime permit permit_sha256 permit_path
     verification verification_sha256 verification_path now =
     and_then (digest_issues scenario_sha256 permit_sha256 verification_sha256
       scenario runtime permit verification) (\<lambda>digests.
     and_then (signer_issues permit (vf_signers verification)) (\<lambda>signers.
     and_then (validity_issues permit verification now) (\<lambda>validity.
     Inr (issue_unless (is_json_path permit_path) Permit_not_json
          @ issue_unless (is_json_path verification_path) Verification_not_json
          @ digests
          @ target_issues (az_environment scenario) (au_physical_targets runtime)
              (ep_target permit) (vf_target verification)
          @ scope_issues scenario (au_physical_targets runtime) permit
          @ signers @ validity))))"

definition evaluate_physical_authorization ::
  "authorization_scenario \<Rightarrow> string \<Rightarrow> authorization_runtime
    \<Rightarrow> execution_permit option \<Rightarrow> string option \<Rightarrow> string option
    \<Rightarrow> execution_verification option \<Rightarrow> string option \<Rightarrow> string option \<Rightarrow> int
    \<Rightarrow> authorization_error + authorization_issue list" where
  "evaluate_physical_authorization scenario scenario_sha256 runtime permit permit_sha256 permit_path
     verification verification_sha256 verification_path now =
     (if \<not> is_physical (az_environment scenario)
      then Inr (issue_unless (permit = None) Simulation_with_permit
                @ issue_unless (verification = None) Simulation_with_verification)
      else case (permit, permit_sha256, permit_path) of
        (Some p, Some p_sha256, Some p_path) \<Rightarrow>
          (case (verification, verification_sha256, verification_path) of
             (Some v, Some v_sha256, Some v_path) \<Rightarrow>
               document_issues scenario scenario_sha256 runtime p p_sha256 p_path v v_sha256 v_path now
           | _ \<Rightarrow> Inr [Verification_required])
      | _ \<Rightarrow> Inr (Permit_required #
          (case (verification, verification_sha256, verification_path) of
             (Some v, Some v_sha256, Some v_path) \<Rightarrow> []
           | _ \<Rightarrow> [Verification_required])))"

section \<open>What it means to be authorised\<close>

lemma check_equal_Nil [simp]: "check_equal path expected actual = [] \<longleftrightarrow> expected = actual"
  by (simp add: check_equal_def)

lemma issue_unless_Nil [simp]: "issue_unless ok i = [] \<longleftrightarrow> ok"
  by (simp add: issue_unless_def)

lemma need_Inr [simp]: "need key v = Inr x \<longleftrightarrow> v = Some x"
  by (simp add: need_def split: option.splits)

lemma instant_Inr [simp]: "instant text = Inr t \<longleftrightarrow> parse_timestamp text = Some t"
  by (simp add: instant_def split: option.splits)

definition same_digests ::
  "string \<Rightarrow> string \<Rightarrow> string \<Rightarrow> authorization_scenario \<Rightarrow> authorization_runtime
    \<Rightarrow> execution_permit \<Rightarrow> execution_verification \<Rightarrow> bool" where
  "same_digests scenario_sha256 permit_sha256 verification_sha256 scenario runtime p v \<longleftrightarrow>
     ep_scenario_sha256 p = scenario_sha256 \<and> ep_subject_digest p = au_subject_digest runtime \<and>
     az_trust_policy_sha256 scenario = Some (ep_trust_policy_sha256 p) \<and>
     au_trust_policy_sha256 runtime = Some (ep_trust_policy_sha256 p) \<and>
     vf_trust_policy_sha256 v = ep_trust_policy_sha256 p \<and>
     vf_permit_sha256 v = permit_sha256 \<and> au_permit_sha256 runtime = Some permit_sha256 \<and>
     au_verification_sha256 runtime = Some verification_sha256"

definition same_target ::
  "authorization_scenario \<Rightarrow> authorization_runtime \<Rightarrow> execution_permit \<Rightarrow> execution_verification \<Rightarrow> bool" where
  "same_target scenario runtime p v \<longleftrightarrow>
     pg_environment (ep_target p) = az_environment scenario \<and> vf_target v = ep_target p \<and>
     (\<exists>t \<in> set (au_physical_targets runtime). tb_target_id t = pg_target_id (ep_target p) \<and>
        tb_identity_kind t = pg_identity_kind (ep_target p) \<and>
        tb_identity_sha256 t = pg_identity_sha256 (ep_target p)) \<and>
     set (az_hardware_scope scenario) \<subseteq> set (ep_hardware_scope p) \<inter> tb_scope ` set (au_physical_targets runtime) \<and>
     ep_allowed_physical_effect p = az_physical_effect scenario"

definition signed_by_both :: "execution_permit \<Rightarrow> execution_verification \<Rightarrow> bool" where
  "signed_by_both p v \<longleftrightarrow>
     (\<exists>s \<in> set (vf_signers v). sg_role s = Operator \<and> sg_identity s = ep_operator_id p) \<and>
     (\<exists>s \<in> set (vf_signers v). sg_role s = Approver \<and> sg_identity s = ep_approver_id p)"

definition valid_now :: "execution_permit \<Rightarrow> execution_verification \<Rightarrow> int \<Rightarrow> bool" where
  "valid_now p v now \<longleftrightarrow> (\<exists>issued verified expires.
     parse_timestamp (ep_issued_at p) = Some issued \<and>
     parse_timestamp (vf_verified_at v) = Some verified \<and>
     parse_timestamp (ep_expires_at p) = Some expires \<and>
     issued \<le> verified \<and> verified \<le> now \<and> now < expires)"

definition authorized ::
  "authorization_scenario \<Rightarrow> string \<Rightarrow> authorization_runtime
    \<Rightarrow> execution_permit option \<Rightarrow> string option \<Rightarrow> string option
    \<Rightarrow> execution_verification option \<Rightarrow> string option \<Rightarrow> string option \<Rightarrow> int \<Rightarrow> bool" where
  "authorized scenario scenario_sha256 runtime permit permit_sha256 permit_path
     verification verification_sha256 verification_path now \<longleftrightarrow>
     (\<exists>p ps pp v vs vp. permit = Some p \<and> permit_sha256 = Some ps \<and> permit_path = Some pp \<and>
        verification = Some v \<and> verification_sha256 = Some vs \<and> verification_path = Some vp \<and>
        is_json_path pp \<and> is_json_path vp \<and>
        same_digests scenario_sha256 ps vs scenario runtime p v \<and>
        same_target scenario runtime p v \<and> signed_by_both p v \<and> valid_now p v now)"

lemma digest_issues_Nil:
  "digest_issues ss ps vs scenario runtime p v = Inr [] \<longleftrightarrow> same_digests ss ps vs scenario runtime p v"
  by (auto simp: digest_issues_def same_digests_def)

lemma target_issues_Nil:
  assumes "unique_by tb_target_id targets"
  shows "target_issues environment targets p v = [] \<longleftrightarrow>
    pg_environment p = environment \<and> v = p \<and>
    (\<exists>t \<in> set targets. tb_target_id t = pg_target_id p \<and>
       tb_identity_kind t = pg_identity_kind p \<and> tb_identity_sha256 t = pg_identity_sha256 p)"
  unfolding dict_by_case [OF assms, symmetric]
  by (cases "dict_by tb_target_id targets (pg_target_id p)") (auto simp: target_issues_def)

lemma signer_issues_Nil:
  assumes "unique_by sg_role (vf_signers v)"
  shows "signer_issues p (vf_signers v) = Inr [] \<longleftrightarrow> signed_by_both p v"
  unfolding signed_by_both_def dict_by_case [OF assms, symmetric]
  by (auto simp: signer_issues_def split: option.splits)

lemma validity_issues_Nil: "validity_issues p v now = Inr [] \<longleftrightarrow> valid_now p v now"
  by (auto simp: validity_issues_def valid_now_def)

lemma document_issues_Nil:
  assumes "unique_by tb_target_id (au_physical_targets runtime)" and "unique_by sg_role (vf_signers v)"
  shows "document_issues scenario ss runtime p ps pp v vs vp now = Inr [] \<longleftrightarrow>
    is_json_path pp \<and> is_json_path vp \<and> same_digests ss ps vs scenario runtime p v \<and>
    same_target scenario runtime p v \<and> signed_by_both p v \<and> valid_now p v now"
  unfolding digest_issues_Nil [symmetric] signer_issues_Nil [OF assms(2), symmetric]
    validity_issues_Nil [symmetric] same_target_def
  by (auto simp: document_issues_def target_issues_Nil [OF assms(1)] scope_issues_def)

lemma authorization_issues_Nil:
  assumes "is_physical (az_environment scenario)"
    and "unique_by tb_target_id (au_physical_targets runtime)"
    and "case verification of None \<Rightarrow> True | Some v \<Rightarrow> unique_by sg_role (vf_signers v)"
  shows "evaluate_physical_authorization scenario scenario_sha256 runtime permit permit_sha256 permit_path
      verification verification_sha256 verification_path now = Inr [] \<longleftrightarrow>
    authorized scenario scenario_sha256 runtime permit permit_sha256 permit_path
      verification verification_sha256 verification_path now"
  using assms(1,3)
  by (auto simp: evaluate_physical_authorization_def authorized_def document_issues_Nil [OF assms(2)]
      split: option.splits)


definition example_authorization_target :: permit_target where
  "example_authorization_target =
     \<lparr>pg_environment = Hil, pg_target_id = ''t'', pg_identity_kind = ''k'', pg_identity_sha256 = ''i''\<rparr>"

definition example_permit :: execution_permit where
  "example_permit =
     \<lparr>ep_scenario_sha256 = ''s'', ep_subject_digest = ''d'', ep_trust_policy_sha256 = ''p'',
      ep_target = example_authorization_target, ep_hardware_scope = [''sensor'', ''compute''],
      ep_allowed_physical_effect = ''none'', ep_operator_id = ''alice'', ep_approver_id = ''bob'',
      ep_issued_at = ''2024-05-01T10:00:00Z'', ep_expires_at = ''2024-05-01T10:30:00Z''\<rparr>"

definition example_verification :: execution_verification where
  "example_verification =
     \<lparr>vf_permit_sha256 = ''ps'', vf_trust_policy_sha256 = ''p'', vf_target = example_authorization_target,
      vf_signers = [\<lparr>sg_role = Operator, sg_identity = ''alice'', sg_bundle_sha256 = ''1''\<rparr>,
        \<lparr>sg_role = Approver, sg_identity = ''bob'', sg_bundle_sha256 = ''2''\<rparr>],
      vf_verified_at = ''2024-05-01T10:00:00Z''\<rparr>"

definition example_authorization_scenario :: authorization_scenario where
  "example_authorization_scenario =
     \<lparr>az_environment = Hil, az_physical_effect = ''none'', az_hardware_scope = [''sensor''],
      az_trust_policy_sha256 = Some ''p''\<rparr>"

definition example_authorization_runtime :: authorization_runtime where
  "example_authorization_runtime =
     \<lparr>au_subject_digest = ''d'', au_trust_policy_sha256 = Some ''p'', au_permit_sha256 = Some ''ps'',
      au_verification_sha256 = Some ''vs'', au_physical_targets =
        [\<lparr>tb_target_id = ''t'', tb_identity_kind = ''k'', tb_identity_sha256 = ''i'', tb_scope = ''sensor''\<rparr>]\<rparr>"


end
