(* ===== verification/Bundle.thy ===== *)
theory Bundle
  imports Authorization Bindings
begin

text \<open>
  The documents of one acceptance execution, checked against each other (harness/documents.py,
  \<open>load_bundle\<close>): the runtime manifest against the scenario, the model and dataset manifests the
  scenario declares, and the authorisation of physical executions. Each document is what
  \<open>load_document\<close> returns.
\<close>

section \<open>Documents\<close>

datatype bundle_version = Version_1 | Version_2

record execution_selection =
  es_target_environment :: environment
  es_data_source :: data_source
  es_plant_backend :: plant_backend
  es_time_mode :: time_mode
  es_data_plane_profile :: string

text \<open>\<open>bs_members\<close> holds the members that a v2 scenario and its runtime share, as JSON.\<close>

record bundle_scenario =
  bs_sha256 :: string
  bs_version :: bundle_version
  bs_execution :: execution_selection
  bs_security_profile :: security_profile
  bs_provider_requirements :: provider_requirements
  bs_evaluator_requirements :: json
  bs_model_sha256 :: "string option"
  bs_dataset_sha256 :: "string option"
  bs_robot_description_sha256 :: "string option"
  bs_members :: "(string \<times> json) list"
  bs_authorization :: authorization_scenario

record model_binding =
  mb_manifest_sha256 :: string
  mb_artifact_sha256 :: string
  mb_format :: string
  mb_actual_provider :: string

text \<open>The workload of a runtime: an inference workload carries its model.\<close>

record bundle_runtime =
  bt_version :: bundle_version
  bt_scenario_sha256 :: string
  bt_execution :: execution_selection
  bt_security_profile :: security_profile
  bt_provider_bindings :: "capability_binding list"
  bt_evaluator_bindings :: json
  bt_inference :: "model_binding option"
  bt_robot_description_sha256 :: "string option"
  bt_members :: "(string \<times> json) list"
  bt_authorization :: authorization_runtime

record model_document =
  md_sha256 :: string
  md_target_sha256 :: string
  md_target_format :: string
  md_execution_provider :: string

record 'a loaded =
  ld_sha256 :: string
  ld_path :: string
  ld_data :: 'a

record bundle_inputs =
  bi_scenario :: bundle_scenario
  bi_runtime :: "bundle_runtime option"
  bi_model :: "model_document option"
  bi_dataset_sha256 :: "string option"
  bi_permit :: "execution_permit loaded option"
  bi_verification :: "execution_verification loaded option"
  bi_now :: int

datatype bundle_error =
    Runtime_required
  | Runtime_not_v2
  | Runtime_not_v1
  | Unequal string
  | Native_with_manifests
  | Providers_insufficient provider_error
  | Inference_without_model
  | Model_not_requested
  | Model_required
  | Model_without_inference
  | Robot_description_differs
  | Dataset_not_requested
  | Dataset_required
  | Authorization_raised authorization_error
  | Not_authorized "authorization_issue list"

section \<open>Alignments\<close>

definition require_aligned :: "string \<Rightarrow> 'a \<Rightarrow> 'a \<Rightarrow> bundle_error option" where
  "require_aligned path expected actual = require (expected = actual) (Unequal path)"

lemma require_aligned_None [simp, check_simps]: "require_aligned path a b = None \<longleftrightarrow> a = b"
  by (simp add: require_aligned_def)

definition validate_execution_alignment :: "bundle_scenario \<Rightarrow> bundle_runtime \<Rightarrow> bundle_error option" where
  "validate_execution_alignment scenario runtime =
     (let s = bs_execution scenario; r = bt_execution runtime in first_error
       [require_aligned ''$.runtime.execution.target_environment'' (es_target_environment s) (es_target_environment r),
        require_aligned ''$.runtime.execution.data_source'' (es_data_source s) (es_data_source r),
        require_aligned ''$.runtime.execution.plant_backend'' (es_plant_backend s) (es_plant_backend r),
        require_aligned ''$.runtime.execution.time_mode'' (es_time_mode s) (es_time_mode r),
        require_aligned ''$.runtime.execution.data_plane_profile'' (es_data_plane_profile s) (es_data_plane_profile r),
        require_aligned ''$.runtime.security.profile'' (bs_security_profile scenario) (bt_security_profile runtime)])"

definition validate_provider_alignment :: "bundle_scenario \<Rightarrow> bundle_runtime \<Rightarrow> bundle_error option" where
  "validate_provider_alignment scenario runtime =
     map_option Providers_insufficient
       (validate_provider_requirements (bs_provider_requirements scenario) (bt_provider_bindings runtime))"

definition validate_robot_description_alignment ::
  "bundle_scenario \<Rightarrow> bundle_runtime \<Rightarrow> bundle_error option" where
  "validate_robot_description_alignment scenario runtime =
     map_option (\<lambda>_. Robot_description_differs)
       (validate_robot_description_binding (bs_robot_description_sha256 scenario)
         (bt_robot_description_sha256 runtime))"

definition validate_model_alignment ::
  "bundle_scenario \<Rightarrow> bundle_runtime \<Rightarrow> model_document option \<Rightarrow> bundle_error option" where
  "validate_model_alignment scenario runtime model =
     (case bs_model_sha256 scenario of
        None \<Rightarrow> first_error
          [require (bt_inference runtime = None) Inference_without_model,
           require (model = None) Model_not_requested]
      | Some declared_digest \<Rightarrow> with_key Model_required model (\<lambda>m. first_error
          [require_aligned ''$.model.sha256'' declared_digest (md_sha256 m),
           with_key Model_without_inference (bt_inference runtime) (\<lambda>b. first_error
             [require_aligned ''$.runtime.workload.model.manifest_sha256'' (md_sha256 m) (mb_manifest_sha256 b),
              require_aligned ''$.runtime.workload.model.artifact_sha256'' (md_target_sha256 m) (mb_artifact_sha256 b),
              require_aligned ''$.runtime.workload.model.format'' (md_target_format m) (mb_format b),
              require_aligned ''$.runtime.workload.inference.actual_provider'' (md_execution_provider m)
                (mb_actual_provider b)])]))"

definition validate_dataset_alignment :: "bundle_scenario \<Rightarrow> string option \<Rightarrow> bundle_error option" where
  "validate_dataset_alignment scenario dataset =
     (case bs_dataset_sha256 scenario of
        None \<Rightarrow> require (dataset = None) Dataset_not_requested
      | Some declared_digest \<Rightarrow> with_key Dataset_required dataset (\<lambda>sha256.
          require_aligned ''$.dataset.sha256'' declared_digest sha256))"

text \<open>\<open>data.get(key)\<close> of both documents, compared as Python compares JSON values.\<close>

definition equal_members :: "(string \<times> json) list \<Rightarrow> (string \<times> json) list \<Rightarrow> string \<Rightarrow> bool" where
  "equal_members xs ys key =
     (case (map_of xs key, map_of ys key) of
        (None, None) \<Rightarrow> True
      | (Some v, Some w) \<Rightarrow> py_eq v w
      | (Some v, None) \<Rightarrow> v = JNull
      | (None, Some w) \<Rightarrow> w = JNull)"

definition validate_native_bundle :: "bundle_scenario \<Rightarrow> bundle_runtime \<Rightarrow> bundle_error option" where
  "validate_native_bundle scenario runtime = first_error
     [require (bt_version runtime = Version_2) Runtime_not_v2,
      require_aligned ''$.runtime.scenario_sha256'' (bs_sha256 scenario) (bt_scenario_sha256 runtime),
      each (\<lambda>_ key. require (equal_members (bs_members scenario) (bt_members runtime) key)
          (Unequal (''$.runtime.'' @ key)))
        [''execution'', ''profile'', ''native_model''],
      require (py_eq (bs_evaluator_requirements scenario) (bt_evaluator_bindings runtime))
        (Unequal ''$.runtime.evaluator_bindings'')]"

section \<open>Loading a bundle\<close>

record document_bundle =
  bd_scenario :: bundle_scenario
  bd_runtime :: bundle_runtime
  bd_model :: "model_document option"
  bd_dataset_sha256 :: "string option"
  bd_permit :: "execution_permit loaded option"
  bd_verification :: "execution_verification loaded option"

definition check_authorization :: "bundle_inputs \<Rightarrow> bundle_runtime \<Rightarrow> bundle_error option" where
  "check_authorization i runtime =
     (let s = bi_scenario i; p = bi_permit i; v = bi_verification i in
      case evaluate_physical_authorization (bs_authorization s) (bs_sha256 s) (bt_authorization runtime)
          (map_option ld_data p) (map_option ld_sha256 p) (map_option ld_path p)
          (map_option ld_data v) (map_option ld_sha256 v) (map_option ld_path v) (bi_now i) of
        Inl e \<Rightarrow> Some (Authorization_raised e)
      | Inr issues \<Rightarrow> require (issues = []) (Not_authorized issues))"

definition check_native_inputs :: "bundle_inputs \<Rightarrow> bundle_runtime \<Rightarrow> bundle_error option" where
  "check_native_inputs i runtime = first_error
     [validate_native_bundle (bi_scenario i) runtime,
      require (\<not> (bi_model i \<noteq> None \<or> bi_dataset_sha256 i \<noteq> None)) Native_with_manifests,
      check_authorization i runtime]"

definition check_legacy_inputs :: "bundle_inputs \<Rightarrow> bundle_runtime \<Rightarrow> bundle_error option" where
  "check_legacy_inputs i runtime =
     (let scenario = bi_scenario i in first_error
       [require (bt_version runtime = Version_1) Runtime_not_v1,
        validate_execution_alignment scenario runtime,
        validate_provider_alignment scenario runtime,
        require (py_eq (bs_evaluator_requirements scenario) (bt_evaluator_bindings runtime))
          (Unequal ''$.runtime.evaluator_bindings''),
        validate_model_alignment scenario runtime (bi_model i),
        validate_robot_description_alignment scenario runtime,
        validate_dataset_alignment scenario (bi_dataset_sha256 i),
        check_authorization i runtime])"

definition load_bundle :: "bundle_inputs \<Rightarrow> bundle_error + document_bundle" where
  "load_bundle i =
     (case bi_runtime i of
        None \<Rightarrow> Inl Runtime_required
      | Some runtime \<Rightarrow>
          if bs_version (bi_scenario i) = Version_2
          then checked (check_native_inputs i runtime)
            (Inr \<lparr>bd_scenario = bi_scenario i, bd_runtime = runtime, bd_model = None,
               bd_dataset_sha256 = None, bd_permit = bi_permit i, bd_verification = bi_verification i\<rparr>)
          else checked (check_legacy_inputs i runtime)
            (Inr \<lparr>bd_scenario = bi_scenario i, bd_runtime = runtime, bd_model = bi_model i,
               bd_dataset_sha256 = bi_dataset_sha256 i, bd_permit = bi_permit i,
               bd_verification = bi_verification i\<rparr>))"

section \<open>What a bundle promises\<close>

definition model_aligned :: "bundle_scenario \<Rightarrow> bundle_runtime \<Rightarrow> model_document option \<Rightarrow> bool" where
  "model_aligned scenario runtime model \<longleftrightarrow>
     (case (bs_model_sha256 scenario, model, bt_inference runtime) of
        (None, None, None) \<Rightarrow> True
      | (Some digest, Some m, Some b) \<Rightarrow> md_sha256 m = digest \<and>
          b = \<lparr>mb_manifest_sha256 = digest, mb_artifact_sha256 = md_target_sha256 m,
               mb_format = md_target_format m, mb_actual_provider = md_execution_provider m\<rparr>
      | _ \<Rightarrow> False)"

definition bundle_authorized :: "document_bundle \<Rightarrow> int \<Rightarrow> bool" where
  "bundle_authorized b now \<longleftrightarrow>
     (let s = bd_scenario b; p = bd_permit b; v = bd_verification b in
      if is_physical (az_environment (bs_authorization s))
      then authorized (bs_authorization s) (bs_sha256 s) (bt_authorization (bd_runtime b))
        (map_option ld_data p) (map_option ld_sha256 p) (map_option ld_path p)
        (map_option ld_data v) (map_option ld_sha256 v) (map_option ld_path v) now
      else p = None \<and> v = None)"

definition bundle_consistent :: "document_bundle \<Rightarrow> int \<Rightarrow> bool" where
  "bundle_consistent b now \<longleftrightarrow>
     (let s = bd_scenario b; r = bd_runtime b in
      bs_version s = bt_version r \<and> bundle_authorized b now \<and>
      py_eq (bs_evaluator_requirements s) (bt_evaluator_bindings r) \<and>
      (case bs_version s of
         Version_1 \<Rightarrow> bs_execution s = bt_execution r \<and> bs_security_profile s = bt_security_profile r \<and>
           providers_suffice (bs_provider_requirements s) (bt_provider_bindings r) \<and>
           model_aligned s r (bd_model b) \<and> bd_dataset_sha256 b = bs_dataset_sha256 s \<and>
           (bs_robot_description_sha256 s \<noteq> None \<longrightarrow>
              bt_robot_description_sha256 r = bs_robot_description_sha256 s)
       | Version_2 \<Rightarrow> bs_sha256 s = bt_scenario_sha256 r \<and> bd_model b = None \<and> bd_dataset_sha256 b = None \<and>
           (\<forall>key \<in> {''execution'', ''profile'', ''native_model''}.
              equal_members (bs_members s) (bt_members r) key)))"

text \<open>What the validators of the runtime and of the verification have checked.\<close>

definition authorization_inputs_valid :: "bundle_inputs \<Rightarrow> bool" where
  "authorization_inputs_valid i \<longleftrightarrow>
     (\<forall>r. bi_runtime i = Some r \<longrightarrow> unique_by tb_target_id (au_physical_targets (bt_authorization r))) \<and>
     (\<forall>v. bi_verification i = Some v \<longrightarrow> unique_by sg_role (vf_signers (ld_data v)))"

lemma model_alignment_accepts:
  "validate_model_alignment scenario runtime model = None \<longleftrightarrow> model_aligned scenario runtime model"
  by (auto simp: validate_model_alignment_def model_aligned_def split: option.splits)

lemma dataset_alignment_accepts:
  "validate_dataset_alignment scenario dataset = None \<longleftrightarrow> dataset = bs_dataset_sha256 scenario"
  by (auto simp: validate_dataset_alignment_def split: option.splits)

lemma execution_alignment_accepts:
  "validate_execution_alignment scenario runtime = None \<longleftrightarrow>
     bs_execution scenario = bt_execution runtime \<and> bs_security_profile scenario = bt_security_profile runtime"
  by (auto simp: validate_execution_alignment_def Let_def execution_selection.equality
      intro!: execution_selection.equality)

lemma provider_alignment_accepts:
  "validate_provider_alignment scenario runtime = None \<longleftrightarrow>
     providers_suffice (bs_provider_requirements scenario) (bt_provider_bindings runtime)"
  using provider_requirements_accept [of "(bs_provider_requirements scenario, bt_provider_bindings runtime)"]
  by (simp add: validate_provider_alignment_def)

lemma robot_alignment_accepts:
  "validate_robot_description_alignment scenario runtime = None \<longleftrightarrow>
     (bs_robot_description_sha256 scenario \<noteq> None \<longrightarrow>
        bt_robot_description_sha256 runtime = bs_robot_description_sha256 scenario)"
  by (auto simp: validate_robot_description_alignment_def robot_description_accepts)

lemma native_bundle_accepts:
  "validate_native_bundle scenario runtime = None \<longleftrightarrow>
     bt_version runtime = Version_2 \<and> bs_sha256 scenario = bt_scenario_sha256 runtime \<and>
     (\<forall>key \<in> {''execution'', ''profile'', ''native_model''}.
        equal_members (bs_members scenario) (bt_members runtime) key) \<and>
     py_eq (bs_evaluator_requirements scenario) (bt_evaluator_bindings runtime)"
  unfolding validate_native_bundle_def first_error_Cons_None each_require require_None require_aligned_None
  by auto

lemma authorization_accepts:
  assumes "authorization_inputs_valid i" and "bi_runtime i = Some runtime"
    and "bd_scenario b = bi_scenario i" "bd_runtime b = runtime" "bd_permit b = bi_permit i"
    and "bd_verification b = bi_verification i"
  shows "check_authorization i runtime = None \<longleftrightarrow> bundle_authorized b (bi_now i)"
proof -
  let ?s = "bi_scenario i" and ?p = "bi_permit i" and ?v = "bi_verification i"
  define issues where "issues = evaluate_physical_authorization (bs_authorization ?s) (bs_sha256 ?s)
    (bt_authorization runtime) (map_option ld_data ?p) (map_option ld_sha256 ?p) (map_option ld_path ?p)
    (map_option ld_data ?v) (map_option ld_sha256 ?v) (map_option ld_path ?v) (bi_now i)"
  have check: "check_authorization i runtime = None \<longleftrightarrow> issues = Inr []"
    by (cases issues) (simp_all add: check_authorization_def Let_def flip: issues_def)
  show ?thesis
  proof (cases "is_physical (az_environment (bs_authorization ?s))")
    case True
    have "unique_by tb_target_id (au_physical_targets (bt_authorization runtime))"
      "case map_option ld_data ?v of None \<Rightarrow> True | Some v \<Rightarrow> unique_by sg_role (vf_signers v)"
      using assms(1,2) by (auto simp: authorization_inputs_valid_def split: option.splits)
    from authorization_issues_Nil [OF True this] True assms(3-6) show ?thesis
      unfolding check issues_def by (simp add: bundle_authorized_def Let_def)
  next
    case False
    then have "issues = Inr [] \<longleftrightarrow> ?p = None \<and> ?v = None"
      by (simp add: issues_def evaluate_physical_authorization_def)
    with False assms(3-6) show ?thesis by (simp add: check bundle_authorized_def Let_def)
  qed
qed

definition bundle_of :: "bundle_inputs \<Rightarrow> bundle_runtime \<Rightarrow> document_bundle" where
  "bundle_of i runtime =
     \<lparr>bd_scenario = bi_scenario i, bd_runtime = runtime, bd_model = bi_model i,
      bd_dataset_sha256 = bi_dataset_sha256 i, bd_permit = bi_permit i, bd_verification = bi_verification i\<rparr>"



section \<open>An example\<close>

definition example_bundle_runtime :: bundle_runtime where
  "example_bundle_runtime =
     \<lparr>bt_version = Version_1, bt_scenario_sha256 = ''s'',
      bt_execution = \<lparr>es_target_environment = Hil, es_data_source = Live_target, es_plant_backend = Real_hardware,
        es_time_mode = Hardware_realtime, es_data_plane_profile = ''dds''\<rparr>,
      bt_security_profile = Sros2_enforce,
      bt_provider_bindings = [\<lparr>cb_capabilities = [''lidar'', ''imu''], cb_scene = None\<rparr>],
      bt_evaluator_bindings = JArr [],
      bt_inference = Some \<lparr>mb_manifest_sha256 = ''m'', mb_artifact_sha256 = ''t'', mb_format = ''onnx'',
        mb_actual_provider = ''cpu''\<rparr>,
      bt_robot_description_sha256 = Some ''u'', bt_members = [],
      bt_authorization = example_authorization_runtime\<rparr>"

definition example_bundle_inputs :: bundle_inputs where
  "example_bundle_inputs =
     \<lparr>bi_scenario = \<lparr>bs_sha256 = ''s'', bs_version = Version_1, bs_execution = bt_execution example_bundle_runtime,
        bs_security_profile = Sros2_enforce,
        bs_provider_requirements = \<lparr>pr_capabilities = [''imu''], pr_scene = None\<rparr>,
        bs_evaluator_requirements = JArr [], bs_model_sha256 = Some ''m'', bs_dataset_sha256 = None,
        bs_robot_description_sha256 = Some ''u'', bs_members = [],
        bs_authorization = example_authorization_scenario\<rparr>,
      bi_runtime = Some example_bundle_runtime,
      bi_model = Some \<lparr>md_sha256 = ''m'', md_target_sha256 = ''t'', md_target_format = ''onnx'',
        md_execution_provider = ''cpu''\<rparr>,
      bi_dataset_sha256 = None,
      bi_permit = Some \<lparr>ld_sha256 = ''ps'', ld_path = ''/p.json'', ld_data = example_permit\<rparr>,
      bi_verification = Some \<lparr>ld_sha256 = ''vs'', ld_path = ''v.JSON'', ld_data = example_verification\<rparr>,
      bi_now = 63850240800000000\<rparr>"

lemma example_bundle_loads: "case load_bundle example_bundle_inputs of Inl _ \<Rightarrow> False | Inr _ \<Rightarrow> True"
  by code_simp


end
