(* ===== verification/Run_Policy.thy ===== *)
theory Run_Policy
  imports Metric_Assertions
begin

text \<open>
  Run policies (harness/policy.py): the data plane of a run judged on its transport facts and
  message counters, and the evidence policies of recorded and of native runs. An evaluation
  keeps its id, status, observed value and unit.
\<close>

definition MESSAGE_COUNTER_UNIT :: string where
  "MESSAGE_COUNTER_UNIT = ''{message}''"

definition SEQUENCE_METHOD_ATTRIBUTE :: string where
  "SEQUENCE_METHOD_ATTRIBUTE = ''sequence.measurement.method''"

definition SINGLE_PUBLISHER_SEQUENCE_METHOD :: string where
  "SINGLE_PUBLISHER_SEQUENCE_METHOD = ''rmw_publication_sequence_single_publisher''"

definition evaluation :: "string \<Rightarrow> outcome \<Rightarrow> rat option \<Rightarrow> string \<Rightarrow> metric_evaluation" where
  "evaluation assertion_id status observed unit =
     \<lparr>me_assertion_id = assertion_id, me_status = status, me_observed = observed, me_unit = unit\<rparr>"

definition boolean_evaluation :: "string \<Rightarrow> bool \<Rightarrow> metric_evaluation" where
  "boolean_evaluation assertion_id passed =
     evaluation assertion_id (verdict_status passed) (Some (if passed then 1 else 0)) ''1''"

lemma evaluation_simps [simp]:
  "me_assertion_id (evaluation i s v u) = i" "me_status (evaluation i s v u) = s"
  "me_observed (evaluation i s v u) = v"
  "me_assertion_id (boolean_evaluation i b) = i"
  "me_status (boolean_evaluation i b) = verdict_status b"
  by (simp_all add: evaluation_def boolean_evaluation_def)

lemma verdict_status_Passed [simp]: "verdict_status b = Passed \<longleftrightarrow> b"
  by (simp add: verdict_status_def)

section \<open>The data plane\<close>

record data_plane =
  dp_shm_transport :: bool
  dp_data_sharing :: bool
  dp_private_ipc :: bool
  dp_middleware_configuration_sha256 :: "string option"

record data_plane_policy = data_plane +
  dp_max_message_age_ms :: rat
  dp_max_loss_ratio :: rat

definition static_evaluations :: "data_plane_policy \<Rightarrow> data_plane \<Rightarrow> metric_evaluation list" where
  "static_evaluations policy observed =
     [boolean_evaluation ''data-plane-shm-transport'' (dp_shm_transport observed = dp_shm_transport policy),
      boolean_evaluation ''data-plane-data-sharing'' (dp_data_sharing observed = dp_data_sharing policy),
      boolean_evaluation ''data-plane-private-ipc'' (dp_private_ipc observed = dp_private_ipc policy)]
     @ (if dp_middleware_configuration_sha256 policy \<noteq> None
        then [boolean_evaluation ''data-plane-middleware-configuration''
               (dp_middleware_configuration_sha256 observed = dp_middleware_configuration_sha256 policy)]
        else [])"

definition measured_names :: "string set" where
  "measured_names = {''robotics.message.age'', ''robotics.message.received'',
     ''robotics.message.lost'', ''robotics.message.sequence_error''}"

datatype plane_error =
    Channel_not_identified
  | Age_not_histogram
  | Counter_temporalities_differ
  | Counter_intervals_differ
  | Counters_not_whole
  | No_message_observations
  | Plane_metric metric_error

text \<open>The one channel the measurements name, when there is exactly one and it is a string.\<close>

definition measured_channel :: "metric_point list \<Rightarrow> string \<Rightarrow> string option" where
  "measured_channel samples domain =
     (let channels = remdups (map (\<lambda>p. map_of (pt_attributes p) ''channel'')
            (filter (\<lambda>p. pt_name p \<in> measured_names \<and>
              attributes_match [(''domain.id'', AStr domain)] (pt_attributes p)) samples))
      in case channels of [Some (AStr c)] \<Rightarrow> Some c | _ \<Rightarrow> None)"

definition age_assertion :: "rat \<Rightarrow> attributes \<Rightarrow> metric_assertion" where
  "age_assertion limit match_attributes =
     \<lparr>ma_assertion_id = ''data-plane-message-age'', ma_metric_name = ''robotics.message.age'',
      ma_unit = ''ms'', ma_kind = Metric Agg_p95, ma_operator = Lte, ma_threshold = limit,
      ma_window_sec = 86400, ma_attribute_match = match_attributes\<rparr>"

fun as_plane :: "metric_error + 'a \<Rightarrow> plane_error + 'a" where
  "as_plane (Inl e) = Inl (Plane_metric e)"
| "as_plane (Inr x) = Inr x"

lemma as_plane_Inr [simp]: "as_plane r = Inr x \<longleftrightarrow> r = Inr x"
  by (cases r) auto

definition raised :: "metric_error option \<Rightarrow> plane_error option" where
  "raised = map_option Plane_metric"

lemma raised_None [simp]: "raised c = None \<longleftrightarrow> c = None"
  by (simp add: raised_def)

definition message_age_evaluations ::
  "data_plane_policy \<Rightarrow> metric_point list \<Rightarrow> attributes \<Rightarrow> int \<Rightarrow> int
    \<Rightarrow> plane_error + metric_evaluation list" where
  "message_age_evaluations policy samples attribute_match s e =
     (let points = matching_points ''robotics.message.age'' attribute_match samples in
      if points = [] \<or> \<not> (\<forall>p \<in> set points. as_hist p \<noteq> None) then Inl Age_not_histogram
      else (let hists = List.map_filter as_hist points in
        and_then (as_plane (histogram_window_coverage hists s e)) (\<lambda>coverage.
        checked (raised (require_window_coverage coverage (Some (hs_temporality (hd hists))) s e
                   METRIC_WINDOW_COVERAGE_TOLERANCE_NS))
          (as_plane (evaluate_metric_assertions
             [age_assertion (dp_max_message_age_ms policy) attribute_match] samples (Some s) (Some e))))))"

record message_counters =
  mc_received :: rat
  mc_lost :: rat
  mc_sequence_errors :: rat

definition is_whole :: "rat \<Rightarrow> bool" where
  "is_whole x \<longleftrightarrow> of_int \<lfloor>x\<rfloor> = x"

definition message_counters_of ::
  "metric_point list \<Rightarrow> attributes \<Rightarrow> int \<Rightarrow> int \<Rightarrow> plane_error + message_counters" where
  "message_counters_of samples counter_match s e =
     (let counter = (\<lambda>name. as_plane
            (counter_window_aggregate samples name counter_match MESSAGE_COUNTER_UNIT s e)) in
      and_then (counter ''robotics.message.received'') (\<lambda>received.
      and_then (counter ''robotics.message.lost'') (\<lambda>lost.
      and_then (counter ''robotics.message.sequence_error'') (\<lambda>errors.
      checked (first_error
        [require (ca_temporality received = ca_temporality lost \<and>
                  ca_temporality lost = ca_temporality errors) Counter_temporalities_differ,
         require (ca_coverage received = ca_coverage lost \<and>
                  ca_coverage lost = ca_coverage errors) Counter_intervals_differ,
         raised (require_window_coverage (ca_coverage received) (Some (ca_temporality received)) s e
                   METRIC_WINDOW_COVERAGE_TOLERANCE_NS),
         require (is_whole (ca_total received) \<and> is_whole (ca_total lost) \<and>
                  is_whole (ca_total errors)) Counters_not_whole])
        (Inr \<lparr>mc_received = ca_total received, mc_lost = ca_total lost,
              mc_sequence_errors = ca_total errors\<rparr>)))))"

definition sequence_evaluation :: "message_counters \<Rightarrow> metric_evaluation" where
  "sequence_evaluation c = evaluation ''data-plane-sequence-integrity''
     (verdict_status (mc_sequence_errors c = 0)) (Some (mc_sequence_errors c)) MESSAGE_COUNTER_UNIT"

definition loss_ratio :: "message_counters \<Rightarrow> rat" where
  "loss_ratio c = fl (mc_lost c / fl (mc_received c + mc_lost c))"

definition loss_evaluation :: "data_plane_policy \<Rightarrow> message_counters \<Rightarrow> metric_evaluation" where
  "loss_evaluation policy c = evaluation ''data-plane-loss-ratio''
     (verdict_status (loss_ratio c \<le> fl (dp_max_loss_ratio policy))) (Some (loss_ratio c)) ''1''"

text \<open>The body of the \<open>try\<close>: the evaluations appended so far, and the error that ended it.\<close>

definition measured_evaluations ::
  "data_plane_policy \<Rightarrow> metric_point list \<Rightarrow> string \<Rightarrow> int \<Rightarrow> int
    \<Rightarrow> metric_evaluation list \<times> plane_error option" where
  "measured_evaluations policy samples domain s e =
     (case measured_channel samples domain of
        None \<Rightarrow> ([], Some Channel_not_identified)
      | Some channel \<Rightarrow>
          let attribute_match = [(''domain.id'', AStr domain), (''channel'', AStr channel)];
              counter_match = attribute_match
                @ [(SEQUENCE_METHOD_ATTRIBUTE, AStr SINGLE_PUBLISHER_SEQUENCE_METHOD)]
          in case message_age_evaluations policy samples attribute_match s e of
               Inl err \<Rightarrow> ([], Some err)
             | Inr age \<Rightarrow>
                 (case message_counters_of samples counter_match s e of
                    Inl err \<Rightarrow> (age, Some err)
                  | Inr c \<Rightarrow>
                      if fl (mc_received c + mc_lost c) \<le> 0
                      then (age @ [sequence_evaluation c], Some No_message_observations)
                      else (age @ [sequence_evaluation c, loss_evaluation policy c], None)))"

text \<open>\<open>except MetricAggregationError\<close>: what was not evaluated becomes an error; input errors pass.\<close>

definition missing_evaluations :: "metric_evaluation list \<Rightarrow> metric_evaluation list" where
  "missing_evaluations evaluations =
     (let present = (\<lambda>i. i \<in> me_assertion_id ` set evaluations) in
      (if present ''data-plane-message-age'' then []
       else [evaluation ''data-plane-message-age'' Error None ''ms''])
      @ [evaluation ''data-plane-loss-ratio'' Error None ''1'']
      @ (if present ''data-plane-sequence-integrity'' then []
         else [evaluation ''data-plane-sequence-integrity'' Error None MESSAGE_COUNTER_UNIT]))"

fun is_input_error :: "plane_error \<Rightarrow> bool" where
  "is_input_error (Plane_metric (Input _)) = True"
| "is_input_error (Plane_metric (Invalid_point _)) = True"
| "is_input_error _ = False"

definition evaluate_data_plane_policy ::
  "data_plane_policy \<Rightarrow> data_plane \<Rightarrow> metric_point list \<Rightarrow> string \<Rightarrow> int \<Rightarrow> int
    \<Rightarrow> plane_error + metric_evaluation list" where
  "evaluate_data_plane_policy policy observed samples domain s e =
     (let static = static_evaluations policy observed in
      case measured_evaluations policy samples domain s e of
        (measured, None) \<Rightarrow> Inr (static @ measured)
      | (measured, Some err) \<Rightarrow>
          if is_input_error err then Inl err
          else Inr (static @ measured @ missing_evaluations (static @ measured)))"

section \<open>What the data-plane verdicts say\<close>

lemma evaluate_assertion_id:
  "evaluate_assertion samples ws we a = Inr ev \<Longrightarrow> me_assertion_id ev = ma_assertion_id a"
  using evaluate_assertion_grounded [of samples ws we a ev] by (simp add: grounded_def)

lemma message_age_ids:
  assumes "message_age_evaluations policy samples match_attributes s e = Inr evs"
  shows "map me_assertion_id evs = [''data-plane-message-age'']"
  using assms
  by (auto simp: message_age_evaluations_def evaluate_metric_assertions_def checked_Inr Let_def
      age_assertion_def dest!: evaluate_assertion_id split: if_splits)

definition DATA_PLANE_IDS :: "string set" where
  "DATA_PLANE_IDS =
     {''data-plane-message-age'', ''data-plane-sequence-integrity'', ''data-plane-loss-ratio''}"

lemma static_ids: "me_assertion_id ` set (static_evaluations policy observed) \<inter> DATA_PLANE_IDS = {}"
  by (auto simp: static_evaluations_def DATA_PLANE_IDS_def)

text \<open>How the \<open>try\<close> block can end.\<close>

lemma measured_done:
  assumes "measured_evaluations policy samples domain s e = (measured, None)"
  shows "\<exists>channel age c. measured_channel samples domain = Some channel \<and>
    message_counters_of samples [(''domain.id'', AStr domain), (''channel'', AStr channel),
       (SEQUENCE_METHOD_ATTRIBUTE, AStr SINGLE_PUBLISHER_SEQUENCE_METHOD)] s e = Inr c \<and>
    \<not> fl (mc_received c + mc_lost c) \<le> 0 \<and> map me_assertion_id age = [''data-plane-message-age''] \<and>
    measured = age @ [sequence_evaluation c, loss_evaluation policy c]"
proof (cases "measured_channel samples domain")
  case None
  with assms show ?thesis by (simp add: measured_evaluations_def)
next
  case (Some channel)
  let ?match = "[(''domain.id'', AStr domain), (''channel'', AStr channel)]"
  show ?thesis
  proof (cases "message_age_evaluations policy samples ?match s e")
    case (Inl err)
    with assms Some show ?thesis by (simp add: measured_evaluations_def)
  next
    case (Inr age)
    note ids = message_age_ids [OF Inr]
    show ?thesis
      using assms Some Inr ids
      by (cases "message_counters_of samples (?match @ [(SEQUENCE_METHOD_ATTRIBUTE,
            AStr SINGLE_PUBLISHER_SEQUENCE_METHOD)]) s e")
        (auto simp: measured_evaluations_def split: if_splits)
  qed
qed

lemma measured_failed:
  assumes "measured_evaluations policy samples domain s e = (measured, Some err)"
  shows "map me_assertion_id measured \<in> {[], [''data-plane-message-age''],
     [''data-plane-message-age'', ''data-plane-sequence-integrity'']}"
proof (cases "measured_channel samples domain")
  case None
  with assms show ?thesis by (simp add: measured_evaluations_def)
next
  case (Some channel)
  let ?match = "[(''domain.id'', AStr domain), (''channel'', AStr channel)]"
  show ?thesis
  proof (cases "message_age_evaluations policy samples ?match s e")
    case (Inl err)
    with assms Some show ?thesis by (simp add: measured_evaluations_def)
  next
    case (Inr age)
    note ids = message_age_ids [OF Inr]
    show ?thesis
      using assms Some Inr ids
      by (cases "message_counters_of samples (?match @ [(SEQUENCE_METHOD_ATTRIBUTE,
            AStr SINGLE_PUBLISHER_SEQUENCE_METHOD)]) s e")
        (auto simp: measured_evaluations_def sequence_evaluation_def split: if_splits)
  qed
qed

definition data_plane_judged :: "metric_evaluation list \<Rightarrow> bool" where
  "data_plane_judged evs \<longleftrightarrow> distinct (map me_assertion_id evs) \<and>
     DATA_PLANE_IDS \<subseteq> set (map me_assertion_id evs)"

definition missing_ids :: "string list \<Rightarrow> string list" where
  "missing_ids present = (if ''data-plane-message-age'' \<in> set present then [] else [''data-plane-message-age''])
     @ [''data-plane-loss-ratio'']
     @ (if ''data-plane-sequence-integrity'' \<in> set present then [] else [''data-plane-sequence-integrity''])"

lemma missing_evaluations_ids:
  "map me_assertion_id (missing_evaluations evs) = missing_ids (map me_assertion_id evs)"
  by (simp add: missing_evaluations_def missing_ids_def)

lemma missing_ids_complete:
  assumes "distinct st" "set st \<inter> DATA_PLANE_IDS = {}"
    and "ms \<in> {[], [''data-plane-message-age''],
       [''data-plane-message-age'', ''data-plane-sequence-integrity'']}"
  shows "distinct (st @ ms @ missing_ids (st @ ms)) \<and> DATA_PLANE_IDS \<subseteq> set (st @ ms @ missing_ids (st @ ms))"
  using assms by (auto simp: DATA_PLANE_IDS_def missing_ids_def)

lemma data_plane_judged:
  assumes "evaluate_data_plane_policy policy observed samples domain s e = Inr evs"
  shows "data_plane_judged evs"
proof -
  let ?static = "static_evaluations policy observed"
  obtain measured err where m: "measured_evaluations policy samples domain s e = (measured, err)"
    by fastforce
  have static: "distinct (map me_assertion_id ?static)"
    "set (map me_assertion_id ?static) \<inter> DATA_PLANE_IDS = {}"
    using static_ids [of policy observed] by (simp_all add: static_evaluations_def)
  show ?thesis
  proof (cases err)
    case None
    obtain c age where "map me_assertion_id age = [''data-plane-message-age'']"
      "measured = age @ [sequence_evaluation c, loss_evaluation policy c]"
      using measured_done [OF m [unfolded None]] by (elim exE conjE) (rule that)
    then have "map me_assertion_id measured = [''data-plane-message-age'',
        ''data-plane-sequence-integrity'', ''data-plane-loss-ratio'']"
      by (simp add: sequence_evaluation_def loss_evaluation_def)
    moreover have "evs = ?static @ measured"
      using assms m None by (simp add: evaluate_data_plane_policy_def Let_def)
    ultimately show ?thesis using static by (auto simp: data_plane_judged_def DATA_PLANE_IDS_def)
  next
    case (Some e')
    with assms m have "evs = ?static @ measured @ missing_evaluations (?static @ measured)"
      by (simp add: evaluate_data_plane_policy_def Let_def split: if_splits)
    then have ids: "map me_assertion_id evs = map me_assertion_id ?static @ map me_assertion_id measured
        @ missing_ids (map me_assertion_id ?static @ map me_assertion_id measured)"
      by (simp add: missing_evaluations_ids)
    have "map me_assertion_id measured \<in> {[], [''data-plane-message-age''],
       [''data-plane-message-age'', ''data-plane-sequence-integrity'']}"
      by (rule measured_failed [OF m [unfolded Some]])
    note complete = missing_ids_complete [OF static this]
    show ?thesis unfolding data_plane_judged_def ids by (rule complete)
  qed
qed

definition data_plane_guarantee ::
  "data_plane_policy \<Rightarrow> data_plane \<Rightarrow> metric_point list \<Rightarrow> string \<Rightarrow> int \<Rightarrow> int \<Rightarrow> bool" where
  "data_plane_guarantee policy observed samples domain s e \<longleftrightarrow>
     dp_shm_transport observed = dp_shm_transport policy \<and>
     dp_data_sharing observed = dp_data_sharing policy \<and>
     dp_private_ipc observed = dp_private_ipc policy \<and>
     (\<exists>channel c. measured_channel samples domain = Some channel \<and>
        message_counters_of samples [(''domain.id'', AStr domain), (''channel'', AStr channel),
          (SEQUENCE_METHOD_ATTRIBUTE, AStr SINGLE_PUBLISHER_SEQUENCE_METHOD)] s e = Inr c \<and>
        mc_sequence_errors c = 0 \<and> 0 < mc_received c + mc_lost c \<and>
        loss_ratio c \<le> fl (dp_max_loss_ratio policy))"

lemma missing_not_passed: "ev \<in> set (missing_evaluations evs) \<Longrightarrow> me_status ev = Error"
  by (auto simp: missing_evaluations_def Let_def split: if_splits)

lemma missing_nonempty: "missing_evaluations evs \<noteq> []"
  by (simp add: missing_evaluations_def)

lemma data_plane_passed:
  assumes "evaluate_data_plane_policy policy observed samples domain s e = Inr evs"
    and "\<forall>ev \<in> set evs. me_status ev = Passed"
  shows "data_plane_judged evs \<and> data_plane_guarantee policy observed samples domain s e"
proof -
  let ?static = "static_evaluations policy observed"
  obtain measured err where m: "measured_evaluations policy samples domain s e = (measured, err)"
    by fastforce
  have none: "err = None"
  proof (rule ccontr)
    assume "err \<noteq> None"
    then obtain e' where "err = Some e'" by auto
    with assms(1) m have "set (missing_evaluations (?static @ measured)) \<subseteq> set evs"
      by (auto simp: evaluate_data_plane_policy_def Let_def split: if_splits)
    moreover obtain ev where ev: "ev \<in> set (missing_evaluations (?static @ measured))"
      using missing_nonempty by (meson list.set_sel(1))
    ultimately have "me_status ev = Passed" using assms(2) by blast
    with missing_not_passed [OF ev] show False by simp
  qed
  with assms(1) m have evs: "evs = ?static @ measured"
    by (simp add: evaluate_data_plane_policy_def Let_def)
  have judged: "data_plane_judged evs" by (rule data_plane_judged [OF assms(1)])
  have static: "dp_shm_transport observed = dp_shm_transport policy"
    "dp_data_sharing observed = dp_data_sharing policy"
    "dp_private_ipc observed = dp_private_ipc policy"
    using assms(2) evs by (auto simp: static_evaluations_def)
  obtain channel age c where c: "measured_channel samples domain = Some channel"
    "message_counters_of samples [(''domain.id'', AStr domain), (''channel'', AStr channel),
       (SEQUENCE_METHOD_ATTRIBUTE, AStr SINGLE_PUBLISHER_SEQUENCE_METHOD)] s e = Inr c"
    "\<not> fl (mc_received c + mc_lost c) \<le> 0"
    "measured = age @ [sequence_evaluation c, loss_evaluation policy c]"
    using measured_done [OF m [unfolded none]] by (elim exE conjE) (rule that)
  have "0 < mc_received c + mc_lost c"
    using c(3) f64.le_fixed [of 0 "mc_received c + mc_lost c"] by fastforce
  moreover have "mc_sequence_errors c = 0" "loss_ratio c \<le> fl (dp_max_loss_ratio policy)"
    using assms(2) evs c(4) by (auto simp: sequence_evaluation_def loss_evaluation_def)
  ultimately show ?thesis using judged static c by (auto simp: data_plane_guarantee_def)
qed


section \<open>A run whose data plane passes\<close>

definition example_plane :: data_plane where
  "example_plane = \<lparr>dp_shm_transport = True, dp_data_sharing = True, dp_private_ipc = True,
     dp_middleware_configuration_sha256 = None\<rparr>"

definition example_plane_policy :: data_plane_policy where
  "example_plane_policy = \<lparr>dp_shm_transport = True, dp_data_sharing = True, dp_private_ipc = True,
     dp_middleware_configuration_sha256 = None, dp_max_message_age_ms = 14, dp_max_loss_ratio = 1\<rparr>"

definition example_channel :: attributes where
  "example_channel = [(''domain.id'', AStr ''d''), (''channel'', AStr ''c'')]"

definition example_age :: histogram_sample where
  "example_age = \<lparr>hs_name = ''robotics.message.age'', hs_unit = ''ms'', hs_observed_at_ns = 100,
     hs_count = 4, hs_bucket_counts = [1, 2, 1], hs_explicit_bounds = [5, 10],
     hs_attributes = example_channel, hs_temporality = Delta, hs_start_time_ns = 0,
     hs_sum = None, hs_min = None, hs_max = Some 14\<rparr>"

definition example_messages :: "string \<Rightarrow> rat \<Rightarrow> metric_sample" where
  "example_messages name v = \<lparr>sa_name = name, sa_value = v, sa_unit = MESSAGE_COUNTER_UNIT,
     sa_observed_at_ns = 100, sa_attributes = example_channel
       @ [(SEQUENCE_METHOD_ATTRIBUTE, AStr SINGLE_PUBLISHER_SEQUENCE_METHOD)],
     sa_instrument_kind = Sum, sa_temporality = Some Delta, sa_start_time_ns = 0, sa_monotonic = True\<rparr>"

definition example_plane_samples :: "metric_point list" where
  "example_plane_samples = [Hist example_age, Scalar (example_messages ''robotics.message.received'' 99),
     Scalar (example_messages ''robotics.message.lost'' 1),
     Scalar (example_messages ''robotics.message.sequence_error'' 0)]"

definition all_passed :: "plane_error + metric_evaluation list \<Rightarrow> bool" where
  "all_passed r =
     (case r of Inl _ \<Rightarrow> False | Inr evs \<Rightarrow> list_all (\<lambda>ev. me_status ev = Passed) evs)"

lemma example_plane_passes:
  "all_passed (evaluate_data_plane_policy example_plane_policy example_plane
     example_plane_samples ''d'' 0 100)"
  by code_simp


section \<open>Evidence policies\<close>

record evidence_policy =
  ep_topics :: "string list"
  ep_recording_mode :: string
  ep_compression :: string
  ep_max_segment_size_bytes :: int
  ep_max_segment_duration_sec :: rat
  ep_max_spool_size_bytes :: int
  ep_spool_high_watermark_ratio :: rat
  ep_max_upload_lag_sec :: rat
  ep_upload_mode :: string
  ep_retention_class :: string
  ep_remote_sink_allowed :: bool

record policy_observation =
  po_recording_mode :: string
  po_compression :: string
  po_upload_mode :: string
  po_remote_sink_used :: bool
  po_spool_peak_size_bytes :: int
  po_upload_lag_max_sec :: rat

record evidence_artifact =
  ea_kind :: string
  ea_size_bytes :: int
  ea_retention_class :: string
  ea_storage_state :: string

record recorded_segment =
  rs_channels :: "(string \<times> int) list"
  rs_message_start_time_ns :: int
  rs_message_end_time_ns :: int
  rs_compressions :: "string list"

record verified_evidence =
  ve_observation :: policy_observation
  ve_artifacts :: "evidence_artifact list"
  ve_summaries :: "recorded_segment list"
  ve_links :: "(int \<times> string) list"

definition recorded_topics :: "recorded_segment list \<Rightarrow> string set" where
  "recorded_topics summaries =
     fst ` {c \<in> (\<Union>s \<in> set summaries. set (rs_channels s)). 0 < snd c}"

definition segment_duration_sec :: "recorded_segment \<Rightarrow> rat" where
  "segment_duration_sec s =
     fl (of_int (rs_message_end_time_ns s - rs_message_start_time_ns s) / 1000000000)"

text \<open>\<open>max(values, default=d)\<close>\<close>

definition max_default :: "'a::linorder \<Rightarrow> 'a list \<Rightarrow> 'a" where
  "max_default d xs = (if xs = [] then d else Max (set xs))"

lemma max_default_le: "max_default d xs \<le> m \<Longrightarrow> x \<in> set xs \<Longrightarrow> x \<le> m"
  by (auto simp: max_default_def split: if_splits intro: order_trans [OF Max_ge])

definition evidence_checks :: "evidence_policy \<Rightarrow> verified_evidence \<Rightarrow> (string \<times> bool) list" where
  "evidence_checks policy e =
     (let o' = ve_observation e; artifacts = ve_artifacts e; summaries = ve_summaries e;
          compressions = \<Union>s \<in> set summaries. set (rs_compressions s);
          expected_remote = (ep_upload_mode policy \<noteq> ''local_only'');
          spool_ratio = fl (of_int (po_spool_peak_size_bytes o') / of_int (ep_max_spool_size_bytes policy))
      in [(''evidence-topics'', set (ep_topics policy) \<subseteq> recorded_topics summaries),
          (''evidence-recording-mode'', po_recording_mode o' = ep_recording_mode policy),
          (''evidence-compression'',
             compressions = {ep_compression policy} \<and> po_compression o' = ep_compression policy),
          (''evidence-segment-size'', max_default 0 (map ea_size_bytes
             (filter (\<lambda>a. ea_kind a = ''recording'') artifacts)) \<le> ep_max_segment_size_bytes policy),
          (''evidence-segment-duration'', max_default 0 (map segment_duration_sec summaries)
             \<le> ep_max_segment_duration_sec policy),
          (''evidence-spool-size'', po_spool_peak_size_bytes o' \<le> ep_max_spool_size_bytes policy),
          (''evidence-spool-watermark'', spool_ratio \<le> ep_spool_high_watermark_ratio policy),
          (''evidence-upload-lag'', po_upload_lag_max_sec o' \<le> ep_max_upload_lag_sec policy),
          (''evidence-upload-mode'', po_upload_mode o' = ep_upload_mode policy),
          (''evidence-retention'', ea_retention_class ` set artifacts = {ep_retention_class policy}),
          (''evidence-remote-sink'', po_remote_sink_used o' = expected_remote \<and>
             ep_remote_sink_allowed policy = expected_remote)])"

definition policy_evaluations :: "(string \<times> bool) list \<Rightarrow> metric_evaluation list" where
  "policy_evaluations checks = map (\<lambda>(name, passed). boolean_evaluation (''policy-'' @ name) passed) checks"

definition evaluate_evidence_policy ::
  "evidence_policy \<Rightarrow> verified_evidence \<Rightarrow> metric_evaluation list" where
  "evaluate_evidence_policy policy e = policy_evaluations (evidence_checks policy e)"

record native_evidence_policy =
  np_max_artifact_size_bytes :: int
  np_max_archive_size_bytes :: int
  np_max_upload_lag_sec :: rat
  np_upload_mode :: string
  np_retention_class :: string
  np_remote_sink_allowed :: bool

definition native_evidence_checks ::
  "native_evidence_policy \<Rightarrow> verified_evidence \<Rightarrow> (string \<times> bool) list" where
  "native_evidence_checks policy e =
     (let o' = ve_observation e; sizes = map fst (ve_links e);
          retained = (\<exists>a \<in> set (ve_artifacts e). ea_storage_state a = ''retained'')
      in [(''native-artifact-size'', max_default 0 sizes \<le> np_max_artifact_size_bytes policy),
          (''native-archive-size'', sum_list sizes \<le> np_max_archive_size_bytes policy),
          (''native-upload-lag'', po_upload_lag_max_sec o' \<le> np_max_upload_lag_sec policy),
          (''native-upload-mode'', po_upload_mode o' = np_upload_mode policy),
          (''native-retention'', \<forall>l \<in> set (ve_links e). snd l = np_retention_class policy),
          (''native-remote-sink'', \<not> retained \<or> np_remote_sink_allowed policy),
          (''native-required-sink'', np_upload_mode policy \<noteq> ''remote_required'' \<or> retained)])"

definition evaluate_native_evidence_policy ::
  "native_evidence_policy \<Rightarrow> verified_evidence \<Rightarrow> metric_evaluation list" where
  "evaluate_native_evidence_policy policy e = policy_evaluations (native_evidence_checks policy e)"

lemma policy_evaluations_passed:
  "(\<forall>ev \<in> set (policy_evaluations checks). me_status ev = Passed) \<longleftrightarrow> (\<forall>c \<in> set checks. snd c)"
  by (auto simp: policy_evaluations_def)

definition evidence_within_policy :: "evidence_policy \<Rightarrow> verified_evidence \<Rightarrow> bool" where
  "evidence_within_policy policy e \<longleftrightarrow>
    (\<forall>t \<in> set (ep_topics policy). \<exists>s \<in> set (ve_summaries e). \<exists>n > 0. (t, n) \<in> set (rs_channels s)) \<and>
    (\<forall>a \<in> set (ve_artifacts e). ea_retention_class a = ep_retention_class policy \<and>
       (ea_kind a = ''recording'' \<longrightarrow> ea_size_bytes a \<le> ep_max_segment_size_bytes policy)) \<and>
    (\<forall>s \<in> set (ve_summaries e). set (rs_compressions s) \<subseteq> {ep_compression policy} \<and>
       segment_duration_sec s \<le> ep_max_segment_duration_sec policy) \<and>
    (po_remote_sink_used (ve_observation e) \<longleftrightarrow> po_upload_mode (ve_observation e) \<noteq> ''local_only'') \<and>
    (po_remote_sink_used (ve_observation e) \<longrightarrow> ep_remote_sink_allowed policy)"

text \<open>
  When every evidence verdict passes, every required topic has recorded messages, every
  recording and segment is within the size and duration limits, all of it in the one
  compression and retention class, and data left the machine only for an upload mode that the
  policy allows to use a remote sink.
\<close>

theorem passed_evidence_policy:
  assumes "\<forall>ev \<in> set (evaluate_evidence_policy policy e). me_status ev = Passed"
  shows "evidence_within_policy policy e"
proof -
  have passed: "\<forall>c \<in> set (evidence_checks policy e). snd c"
    using assms by (simp only: evaluate_evidence_policy_def policy_evaluations_passed)
  then have topics: "set (ep_topics policy) \<subseteq> recorded_topics (ve_summaries e)"
    and compression: "(\<Union>s \<in> set (ve_summaries e). set (rs_compressions s)) = {ep_compression policy}"
    and size: "max_default 0 (map ea_size_bytes (filter (\<lambda>a. ea_kind a = ''recording'')
        (ve_artifacts e))) \<le> ep_max_segment_size_bytes policy"
    and duration: "max_default 0 (map segment_duration_sec (ve_summaries e))
        \<le> ep_max_segment_duration_sec policy"
    and retention: "ea_retention_class ` set (ve_artifacts e) = {ep_retention_class policy}"
    and remote: "po_upload_mode (ve_observation e) = ep_upload_mode policy"
      "po_remote_sink_used (ve_observation e) = (ep_upload_mode policy \<noteq> ''local_only'')"
      "ep_remote_sink_allowed policy = (ep_upload_mode policy \<noteq> ''local_only'')"
    by (simp_all add: evidence_checks_def Let_def)
  show ?thesis
    unfolding evidence_within_policy_def
  proof (intro conjI ballI)
    fix t assume "t \<in> set (ep_topics policy)"
    with topics show "\<exists>s \<in> set (ve_summaries e). \<exists>n > 0. (t, n) \<in> set (rs_channels s)"
      by (force simp: recorded_topics_def)
  next
    fix a assume "a \<in> set (ve_artifacts e)"
    with retention show "ea_retention_class a = ep_retention_class policy" by blast
    show "ea_kind a = ''recording'' \<longrightarrow> ea_size_bytes a \<le> ep_max_segment_size_bytes policy"
      using max_default_le [OF size] \<open>a \<in> set (ve_artifacts e)\<close> by simp
  next
    fix s assume "s \<in> set (ve_summaries e)"
    then show "set (rs_compressions s) \<subseteq> {ep_compression policy}"
      "segment_duration_sec s \<le> ep_max_segment_duration_sec policy"
      using compression max_default_le [OF duration] by auto
  qed (use remote in auto)
qed

definition example_evidence_policy :: evidence_policy where
  "example_evidence_policy = \<lparr>ep_topics = [''/odom''], ep_recording_mode = ''bounded'',
     ep_compression = ''zstd'', ep_max_segment_size_bytes = 2048, ep_max_segment_duration_sec = 9,
     ep_max_spool_size_bytes = 4, ep_spool_high_watermark_ratio = 1, ep_max_upload_lag_sec = 5,
     ep_upload_mode = ''local_only'', ep_retention_class = ''debug'', ep_remote_sink_allowed = False\<rparr>"

definition example_evidence :: verified_evidence where
  "example_evidence = \<lparr>ve_observation = \<lparr>po_recording_mode = ''bounded'', po_compression = ''zstd'',
       po_upload_mode = ''local_only'', po_remote_sink_used = False, po_spool_peak_size_bytes = 2,
       po_upload_lag_max_sec = 0\<rparr>,
     ve_artifacts = [\<lparr>ea_kind = ''recording'', ea_size_bytes = 1024, ea_retention_class = ''debug'',
       ea_storage_state = ''local''\<rparr>],
     ve_summaries = [\<lparr>rs_channels = [(''/odom'', 3)], rs_message_start_time_ns = 5,
       rs_message_end_time_ns = 1000000005, rs_compressions = [''zstd'']\<rparr>],
     ve_links = [(1024, ''debug'')]\<rparr>"

theorem passed_evidence_policy_witness: "evidence_within_policy example_evidence_policy example_evidence"
proof (rule passed_evidence_policy)
  have "(''/odom'', 3) \<in> {c. c \<in> {(''/odom'', 3 :: int)} \<and> 0 < snd c}" by simp
  then have "''/odom'' \<in> recorded_topics (ve_summaries example_evidence)"
    unfolding recorded_topics_def by (force simp: example_evidence_def)
  moreover have "fl (2 / 4) \<le> 1" "fl 1 \<le> 9" by code_simp+
  ultimately have "snd c" if "c \<in> set (evidence_checks example_evidence_policy example_evidence)" for c
    using that by (auto simp: evidence_checks_def example_evidence_policy_def example_evidence_def
        segment_duration_sec_def max_default_def Let_def)
  then show "\<forall>ev \<in> set (evaluate_evidence_policy example_evidence_policy example_evidence).
      me_status ev = Passed"
    by (simp only: evaluate_evidence_policy_def policy_evaluations_passed) blast
qed

end
