(* ===== verification/Time_Authority.thy ===== *)
theory Time_Authority
  imports Metric_Assertions
begin

text \<open>
  The delivery latency of the time authority (harness/time_authority.py): the attributed
  histograms of the window are merged, and three statistics and the event count are compared
  with the time policy. A comparison the buckets cannot decide is skipped, never guessed; the
  theorem says that a decided verdict is the truth for the recorded events.
\<close>

section \<open>The latency histogram\<close>

definition DELIVERY_LATENCY_METRIC :: string where
  "DELIVERY_LATENCY_METRIC = ''robotics.time_authority.delivery_latency''"
definition RUN_ATTRIBUTE :: string where "RUN_ATTRIBUTE = ''run.id''"
definition DOMAIN_ATTRIBUTE :: string where "DOMAIN_ATTRIBUTE = ''domain.id''"
definition TIME_SOURCE_ATTRIBUTE :: string where "TIME_SOURCE_ATTRIBUTE = ''time.source.id''"
definition METHOD_ATTRIBUTE :: string where "METHOD_ATTRIBUTE = ''time.measurement.method''"
definition RMW_LATENCY_METHOD :: string where
  "RMW_LATENCY_METHOD = ''rmw_source_to_reception_latency''"

record latency_context =
  lc_run_id :: string
  lc_domain_id :: string
  lc_source_id :: string
  lc_start_ns :: int
  lc_end_ns :: int

record latency_policy =
  lp_max_p50_ms :: rat
  lp_max_p95_ms :: rat
  lp_max_ms :: rat
  lp_min_samples :: int

definition attribute_is :: "string \<Rightarrow> string \<Rightarrow> metric_point \<Rightarrow> bool" where
  "attribute_is key v p =
     (case map_of (pt_attributes p) key of None \<Rightarrow> False | Some w \<Rightarrow> attribute_eq w (AStr v))"

definition context_matches :: "latency_context \<Rightarrow> metric_point \<Rightarrow> bool" where
  "context_matches c p \<longleftrightarrow> pt_observed_at_ns p \<le> lc_end_ns c \<and>
     attribute_is RUN_ATTRIBUTE (lc_run_id c) p \<and> attribute_is DOMAIN_ATTRIBUTE (lc_domain_id c) p \<and>
     attribute_is TIME_SOURCE_ATTRIBUTE (lc_source_id c) p \<and>
     attribute_is METHOD_ATTRIBUTE RMW_LATENCY_METHOD p"

definition latency_points :: "metric_point list \<Rightarrow> latency_context \<Rightarrow> metric_point list" where
  "latency_points samples c =
     filter (\<lambda>p. pt_name p = DELIVERY_LATENCY_METRIC \<and> context_matches c p) samples"

definition latency_histogram ::
  "metric_point list \<Rightarrow> latency_context \<Rightarrow> metric_error + histogram_sample" where
  "latency_histogram samples c =
     (let matching = latency_points samples c in
      if matching = [] then Inl (Insufficient No_delivery_latency)
      else if \<exists>p \<in> set matching. as_hist p = None \<or> pt_unit p \<noteq> ''ms''
      then Inl (Aggregation Delivery_latency_kind)
      else histogram_window_aggregate (List.map_filter as_hist matching) (lc_start_ns c) (lc_end_ns c))"

section \<open>The policy\<close>

text \<open>A finite endpoint for the legacy numeric fields.\<close>

definition display_bound :: "estimate \<Rightarrow> bound" where
  "display_bound e = (case es_upper e of Fin x \<Rightarrow> Fin x | _ \<Rightarrow> es_lower e)"

definition time_authority_evaluation :: "outcome \<Rightarrow> rat option \<Rightarrow> metric_evaluation" where
  "time_authority_evaluation status observed =
     \<lparr>me_assertion_id = ''time-authority-evidence'', me_status = status, me_observed = observed,
      me_unit = ''samples''\<rparr>"

definition combined_outcome :: "outcome list \<Rightarrow> outcome" where
  "combined_outcome outcomes =
     (if Failed \<in> set outcomes then Failed else if Skipped \<in> set outcomes then Skipped else Passed)"

definition judge_latency ::
  "histogram_sample \<Rightarrow> latency_policy \<Rightarrow> metric_error + (bound \<times> bound \<times> bound) \<times> metric_evaluation" where
  "judge_latency h policy =
     (if hs_count h = 0
      then Inr ((Fin 0, Fin 0, Fin 0), time_authority_evaluation Failed (Some 0))
      else and_then (histogram_statistic h Agg_p50 True) (\<lambda>p50.
           and_then (histogram_statistic h Agg_p95 True) (\<lambda>p95.
           and_then (histogram_statistic h Agg_max True) (\<lambda>maximum.
           Inr ((display_bound p50, display_bound p95, display_bound maximum),
             time_authority_evaluation (combined_outcome
               [compare_estimate p50 Lte (fl (lp_max_p50_ms policy)),
                compare_estimate p95 Lte (fl (lp_max_p95_ms policy)),
                compare_estimate maximum Lte (fl (lp_max_ms policy)),
                if lp_min_samples policy \<le> hs_count h then Passed else Failed])
               (Some (of_int (hs_count h))))))))"

record time_authority_observation =
  to_source_id :: string
  to_sample_count :: int
  to_window_start_ns :: int
  to_window_end_ns :: int
  to_p50_ms :: bound
  to_p95_ms :: bound
  to_max_ms :: bound
  to_within_policy :: bool
  to_evaluation :: "metric_evaluation option"

definition latency_observation ::
  "latency_context \<Rightarrow> int \<Rightarrow> (bound \<times> bound \<times> bound) \<times> metric_evaluation \<Rightarrow> time_authority_observation" where
  "latency_observation c n verdict =
     (case verdict of ((p50, p95, maximum), evaluation) \<Rightarrow>
        \<lparr>to_source_id = lc_source_id c, to_sample_count = n, to_window_start_ns = lc_start_ns c,
         to_window_end_ns = lc_end_ns c, to_p50_ms = p50, to_p95_ms = p95, to_max_ms = maximum,
         to_within_policy = (me_status evaluation = Passed), to_evaluation = Some evaluation\<rparr>)"

text \<open>\<open>except MetricAggregationError\<close>: the other errors escape.\<close>

fun unavailable_latency :: "metric_error \<Rightarrow> metric_error + (bound \<times> bound \<times> bound) \<times> metric_evaluation" where
  "unavailable_latency (Insufficient _) =
     Inr ((Fin 0, Fin 0, Fin 0), time_authority_evaluation Skipped None)"
| "unavailable_latency (Aggregation _) =
     Inr ((Fin 0, Fin 0, Fin 0), time_authority_evaluation Error None)"
| "unavailable_latency e = Inl e"

definition observe_latency ::
  "latency_policy \<Rightarrow> metric_point list \<Rightarrow> latency_context \<Rightarrow> metric_error + time_authority_observation" where
  "observe_latency policy samples c =
     (case latency_histogram samples c of
        Inl e \<Rightarrow> and_then (unavailable_latency e) (\<lambda>v. Inr (latency_observation c 0 v))
      | Inr h \<Rightarrow> and_then
          (case judge_latency h policy of Inl e \<Rightarrow> unavailable_latency e | Inr v \<Rightarrow> Inr v)
          (\<lambda>v. Inr (latency_observation c (hs_count h) v)))"

definition evaluate_time_authority ::
  "latency_policy \<Rightarrow> metric_point list \<Rightarrow> string \<Rightarrow> string \<Rightarrow> string \<Rightarrow> int \<Rightarrow> int
    \<Rightarrow> metric_error + time_authority_observation" where
  "evaluate_time_authority policy samples run_id domain_id source_id window_start window_end =
     observe_latency policy samples
       \<lparr>lc_run_id = run_id, lc_domain_id = domain_id, lc_source_id = source_id,
        lc_start_ns = window_start, lc_end_ns = window_end\<rparr>"

section \<open>A decided verdict is true of the events\<close>

definition latency_within :: "latency_policy \<Rightarrow> rat list \<Rightarrow> bool" where
  "latency_within policy es \<longleftrightarrow> es \<noteq> [] \<and> lp_min_samples policy \<le> int (length es) \<and>
     true_statistic Agg_p50 es \<le> fl (lp_max_p50_ms policy) \<and>
     true_statistic Agg_p95 es \<le> fl (lp_max_p95_ms policy) \<and>
     true_statistic Agg_max es \<le> fl (lp_max_ms policy)"

text \<open>
  The latencies behind the attributed histograms: the contributions of the window describe
  them, and a latency is never negative.
\<close>

definition latency_events :: "metric_point list \<Rightarrow> latency_context \<Rightarrow> rat list list \<Rightarrow> bool" where
  "latency_events samples c ess \<longleftrightarrow>
     (\<exists>contributions. histogram_contributions (List.map_filter as_hist (latency_points samples c))
        (lc_start_ns c) (lc_end_ns c) = Inr contributions \<and> list_all2 describes contributions ess) \<and>
     (\<forall>e \<in> set (concat ess). 0 \<le> e)"

lemma statistic_contains:
  assumes "describes h es" "es \<noteq> []" "a \<in> {Agg_p50, Agg_p95, Agg_max}" "\<forall>e \<in> set es. 0 \<le> e"
    and "histogram_statistic h a True = Inr e"
  shows "contains e (true_statistic a es)"
proof -
  have "estimate_statistic h a True = Inr e"
    using assms(5) by (auto simp: histogram_statistic_def split: if_splits sum.splits)
  then have "rank_estimate h a True = Inr e"
    using assms(3) by (auto simp: estimate_statistic_def checked_Inr split: if_splits option.splits)
  moreover obtain e' where "rank_estimate h a True = Inr e'" "contains e' (true_statistic a es)"
    using rank_estimate_sound [OF assms(1,2), of True a] assms(3,4) by (auto simp: true_statistic_def)
  ultimately show ?thesis by simp
qed

lemma verdict_outcome:
  "compare_estimate e op t = Passed \<or> compare_estimate e op t = Failed \<or> compare_estimate e op t = Skipped"
  by (simp add: compare_estimate_def split: prod.split)

lemma judged_within:
  assumes d: "describes h es" and nn: "\<forall>e \<in> set es. 0 \<le> e"
    and judged: "judge_latency h policy = Inr (stats, ev)"
  shows "(me_status ev = Passed \<longrightarrow> latency_within policy es) \<and>
    (me_status ev = Failed \<longrightarrow> \<not> latency_within policy es)"
proof (cases "es = []")
  case True
  with judged describes_count [OF d] show ?thesis
    by (auto simp: judge_latency_def time_authority_evaluation_def latency_within_def)
next
  case False
  have count: "hs_count h = int (length es)" using d by (rule describes_count)
  obtain p50 p95 maximum where st: "histogram_statistic h Agg_p50 True = Inr p50"
    "histogram_statistic h Agg_p95 True = Inr p95" "histogram_statistic h Agg_max True = Inr maximum"
    and status: "me_status ev = combined_outcome
      [compare_estimate p50 Lte (fl (lp_max_p50_ms policy)),
       compare_estimate p95 Lte (fl (lp_max_p95_ms policy)),
       compare_estimate maximum Lte (fl (lp_max_ms policy)),
       if lp_min_samples policy \<le> hs_count h then Passed else Failed]"
    using judged False count by (auto simp: judge_latency_def time_authority_evaluation_def)
  have sound: "(compare_estimate e Lte t = Passed \<longrightarrow> true_statistic a es \<le> t) \<and>
      (compare_estimate e Lte t = Failed \<longrightarrow> \<not> true_statistic a es \<le> t)"
    if "histogram_statistic h a True = Inr e" "a \<in> {Agg_p50, Agg_p95, Agg_max}" for a e t
  proof -
    have "contains e (true_statistic a es)"
      using d False that(2) nn that(1) by (rule statistic_contains)
    from compare_estimate_sound(1,2) [OF this, of Lte t] show ?thesis by auto
  qed
  note s = sound [OF st(1), of "fl (lp_max_p50_ms policy)"] sound [OF st(2), of "fl (lp_max_p95_ms policy)"]
    sound [OF st(3), of "fl (lp_max_ms policy)"]
  note o = verdict_outcome [of p50 Lte "fl (lp_max_p50_ms policy)"]
    verdict_outcome [of p95 Lte "fl (lp_max_p95_ms policy)"]
    verdict_outcome [of maximum Lte "fl (lp_max_ms policy)"]
  show ?thesis
    using s o False unfolding status combined_outcome_def latency_within_def count
    by (auto split: if_splits)
qed

lemma observed_latency_true:
  assumes obs: "observe_latency policy samples c = Inr ob" and "latency_events samples c ess"
  shows "(to_within_policy ob \<longrightarrow> latency_within policy (concat ess)) \<and>
    (map_option me_status (to_evaluation ob) = Some Failed \<longrightarrow> \<not> latency_within policy (concat ess))"
proof -
  have unavailable: "me_status ev \<noteq> Passed \<and> me_status ev \<noteq> Failed"
    if "unavailable_latency e = Inr (stats, ev)" for e stats ev
    using that by (cases e) (auto simp: time_authority_evaluation_def)
  show ?thesis
  proof (cases "latency_histogram samples c")
    case (Inl e)
    with obs show ?thesis
      by (auto simp: observe_latency_def latency_observation_def split: prod.splits dest: unavailable)
  next
    case (Inr h)
    obtain contributions where con: "histogram_contributions
        (List.map_filter as_hist (latency_points samples c)) (lc_start_ns c) (lc_end_ns c) = Inr contributions"
      "list_all2 describes contributions ess" and nn: "\<forall>e \<in> set (concat ess). 0 \<le> e"
      using assms(2) by (auto simp: latency_events_def)
    have "merge_histograms contributions = Inr h"
      using Inr con(1)
      by (auto simp: latency_histogram_def histogram_window_aggregate_def checked_Inr Let_def split: if_splits)
    with con(2) have d: "describes h (concat ess)" by (rule merge_describes)
    show ?thesis
    proof (cases "judge_latency h policy")
      case (Inl e)
      with obs Inr show ?thesis
        by (auto simp: observe_latency_def latency_observation_def split: prod.splits dest: unavailable)
    next
      case j: (Inr v)
      obtain stats ev where v: "v = (stats, ev)" by (cases v)
      have "(me_status ev = Passed \<longrightarrow> latency_within policy (concat ess)) \<and>
          (me_status ev = Failed \<longrightarrow> \<not> latency_within policy (concat ess))"
        using d nn j [unfolded v] by (rule judged_within)
      moreover have "ob = latency_observation c (hs_count h) (stats, ev)"
        using obs Inr j v by (simp add: observe_latency_def)
      ultimately show ?thesis by (simp add: latency_observation_def split: prod.split)
    qed
  qed
qed

text \<open>
  C36: The verdict on the time authority is true of the recorded latencies, not only of their
  buckets: within policy means that the p50, p95 and largest latency of the events are within
  their limits with enough events, and a failed verdict that some limit is really broken;
  unavailable or undecided evidence is never within policy and never failed.
\<close>

theorem latency_verdict_true:
  assumes "evaluate_time_authority policy samples run_id domain_id source_id ws we = Inr ob"
    and "latency_events samples \<lparr>lc_run_id = run_id, lc_domain_id = domain_id, lc_source_id = source_id,
      lc_start_ns = ws, lc_end_ns = we\<rparr> ess"
  shows "(to_within_policy ob \<longrightarrow> latency_within policy (concat ess)) \<and>
    (map_option me_status (to_evaluation ob) = Some Failed \<longrightarrow> \<not> latency_within policy (concat ess))"
  using assms unfolding evaluate_time_authority_def by (rule observed_latency_true)

definition example_latency :: metric_point where
  "example_latency = Hist (example_window
     \<lparr>hs_name := DELIVERY_LATENCY_METRIC, hs_max := Some 14,
      hs_attributes := [(RUN_ATTRIBUTE, AStr ''r''), (DOMAIN_ATTRIBUTE, AStr ''d''),
        (TIME_SOURCE_ATTRIBUTE, AStr ''s''), (METHOD_ATTRIBUTE, AStr RMW_LATENCY_METHOD)]\<rparr>)"

definition example_latency_policy :: latency_policy where
  "example_latency_policy =
     \<lparr>lp_max_p50_ms = 10, lp_max_p95_ms = 20, lp_max_ms = 20, lp_min_samples = 4\<rparr>"

definition example_latency_context :: latency_context where
  "example_latency_context =
     \<lparr>lc_run_id = ''r'', lc_domain_id = ''d'', lc_source_id = ''s'', lc_start_ns = 0, lc_end_ns = 100\<rparr>"

lemma example_latency_events: "latency_events [example_latency] example_latency_context [[7, 2, 10, 14]]"
proof -
  define h where "h = example_window
    \<lparr>hs_name := DELIVERY_LATENCY_METRIC, hs_max := Some 14,
     hs_attributes := [(RUN_ATTRIBUTE, AStr ''r''), (DOMAIN_ATTRIBUTE, AStr ''d''),
       (TIME_SOURCE_ATTRIBUTE, AStr ''s''), (METHOD_ATTRIBUTE, AStr RMW_LATENCY_METHOD)]\<rparr>"
  have "describes h [7, 2, 10, 14]"
    by (simp add: describes_def wf_histogram_def h_def example_window_def bucket_events_def
        bisect_left_def less_Suc_eq nth_Cons')
  moreover have "latency_points [example_latency] example_latency_context = [Hist h]"
    by (simp add: latency_points_def context_matches_def attribute_is_def example_latency_def h_def
        example_latency_context_def example_window_def RUN_ATTRIBUTE_def DOMAIN_ATTRIBUTE_def
        TIME_SOURCE_ATTRIBUTE_def METHOD_ATTRIBUTE_def)
  moreover have "histogram_contributions [h] 0 100 = Inr [h]"
    by (simp add: histogram_contributions_def validated_delta_points_def delta_selected_def h_def
        example_window_def group_by_def List.map_filter_def checked_Inr Let_def)
  ultimately show ?thesis
    by (simp add: latency_events_def List.map_filter_def example_latency_context_def)
qed

definition within_policy_verdict :: "metric_error + time_authority_observation \<Rightarrow> bool" where
  "within_policy_verdict r = (case r of Inl _ \<Rightarrow> False | Inr ob \<Rightarrow> to_within_policy ob)"

theorem latency_verdict_true_witness:
  "within_policy_verdict (evaluate_time_authority example_latency_policy [example_latency] ''r'' ''d'' ''s'' 0 100)
   \<and> latency_within example_latency_policy [7, 2, 10, 14]"
proof -
  have ev: "within_policy_verdict (evaluate_time_authority example_latency_policy [example_latency] ''r'' ''d'' ''s'' 0 100)"
    by code_simp
  then obtain ob where ob: "evaluate_time_authority example_latency_policy [example_latency] ''r'' ''d'' ''s'' 0 100 = Inr ob"
    "to_within_policy ob"
    by (auto simp: within_policy_verdict_def split: sum.splits)
  from latency_verdict_true [OF ob(1) example_latency_events [unfolded example_latency_context_def]] ob(2) ev
  show ?thesis by simp
qed

end
