(* ===== verification/Timestamp_Text.thy ===== *)
theory Timestamp_Text
  imports Timestamps
begin

text \<open>
  The text of an instant, as the harness writes it into documents (harness/result.py,
  \<open>format_utc_datetime\<close>: \<open>datetime.isoformat\<close> with Z for the zero offset). Instants are
  microseconds on the scale of \<open>parse_timestamp\<close>, and the theorem says that the validators read
  back the instant that was written.
\<close>

section \<open>The date of a day number\<close>

function year_from :: "int \<Rightarrow> int \<Rightarrow> int" where
  "year_from n y = (if days_before_year (y + 1) < n then year_from n (y + 1) else y)"
  by pat_completeness auto

termination
proof (relation "measure (\<lambda>(n, y). nat (n - days_before_year y))", goal_cases)
  case (2 n y)
  with days_in_year [of y] show ?case by (auto split: if_splits)
qed simp

declare year_from.simps [simp del]

lemma year_from_correct:
  "days_before_year y < n \<Longrightarrow>
     days_before_year (year_from n y) < n \<and> n \<le> days_before_year (year_from n y + 1) \<and> y \<le> year_from n y"
proof (induction n y rule: year_from.induct)
  case (1 n y)
  then show ?case by (subst (1 2 3) year_from.simps) auto
qed

text \<open>A year at or one before the right one.\<close>

definition first_guess :: "int \<Rightarrow> int" where
  "first_guess n = max 1 ((n - 1) * 400 div 146097)"

lemma div_bounds:
  fixes z n :: int
  assumes "0 < n"
  shows "z div n * n \<le> z" "z - n < z div n * n"
  using div_mult_mod_eq [of z n] pos_mod_bound [OF assms, of z] pos_mod_sign [OF assms, of z] by linarith+

lemma first_guess_below:
  assumes "1 \<le> n"
  shows "days_before_year (first_guess n) < n"
proof -
  define k where "k = (n - 1) * 400 div 146097"
  have k: "146097 * k \<le> (n - 1) * 400"
    using div_mult_mod_eq [of "(n - 1) * 400" 146097] pos_mod_sign [of 146097 "(n - 1) * 400"]
    by (simp add: k_def)
  show ?thesis
  proof (cases "k \<le> 1")
    case True
    then have "first_guess n = 1" by (simp add: first_guess_def k_def)
    with assms show ?thesis by (simp add: days_before_year_def)
  next
    case False
    then have g: "first_guess n = k" by (simp add: first_guess_def k_def)
    have "400 * days_before_year k \<le> 146097 * (k - 1) + 400"
      using div_bounds [of 4 "k - 1"] div_bounds [of 100 "k - 1"] div_bounds [of 400 "k - 1"]
      by (simp add: days_before_year_def)
    with k assms show ?thesis unfolding g by simp
  qed
qed

definition month_of :: "int \<Rightarrow> int \<Rightarrow> nat" where
  "month_of y day = last (filter (\<lambda>m. days_before_month y m < day) [1..<13])"

definition date_of_ordinal :: "int \<Rightarrow> int \<times> nat \<times> int" where
  "date_of_ordinal n =
     (let y = year_from n (first_guess n); day = n - days_before_year y; m = month_of y day
      in (y, m, day - days_before_month y m))"

lemma month_of_correct:
  assumes "1 \<le> day" "day \<le> (if is_leap y then 366 else 365)"
  shows "1 \<le> month_of y day" "month_of y day \<le> 12" "days_before_month y (month_of y day) < day"
    "day \<le> days_before_month y (month_of y day) + month_lengths y ! (month_of y day - 1)"
proof -
  let ?ms = "filter (\<lambda>m. days_before_month y m < day) [1..<13]"
  have "days_before_month y 1 = 0" by (simp add: days_before_month_def)
  with assms have "1 \<in> set ?ms" by simp
  then have ne: "?ms \<noteq> []" by (metis empty_iff list.set(1))
  have mem: "month_of y day \<in> set ?ms" unfolding month_of_def using ne by (rule last_in_set)
  then show m: "1 \<le> month_of y day" "month_of y day \<le> 12" "days_before_month y (month_of y day) < day"
    by auto
  have max: "m \<le> month_of y day" if "m \<in> set ?ms" for m
  proof -
    have "sorted ?ms" by (intro sorted_wrt_filter sorted_upt)
    with that ne show ?thesis unfolding month_of_def
      by (metis in_set_conv_nth last_conv_nth length_pos_if_in_set less_Suc_eq_le Suc_pred' sorted_nth_mono
          diff_less zero_less_one)
  qed
  show "day \<le> days_before_month y (month_of y day) + month_lengths y ! (month_of y day - 1)"
  proof (cases "month_of y day = 12")
    case True
    with year_length [of y] assms(2) show ?thesis by (simp add: month_lengths_def)
  next
    case False
    with m have le: "month_of y day \<le> 11" by simp
    have "Suc (month_of y day) \<notin> set ?ms" using max by force
    with m le have "day \<le> days_before_month y (Suc (month_of y day))" by auto
    with days_before_month_step [of "month_of y day" y] m(1) le show ?thesis by simp
  qed
qed

lemma date_of_ordinal_correct:
  assumes "1 \<le> n" "n \<le> 3652059"
  shows "case date_of_ordinal n of (y, m, d) \<Rightarrow> valid_date y m d \<and> ordinal y m d = n"
proof -
  define y where "y = year_from n (first_guess n)"
  have y: "days_before_year y < n" "n \<le> days_before_year (y + 1)" "1 \<le> y"
    using year_from_correct [OF first_guess_below [OF assms(1)]] by (auto simp: y_def first_guess_def)
  have "y \<le> 9999"
  proof (rule ccontr)
    assume "\<not> y \<le> 9999"
    then have "days_before_year (9999 + 1) \<le> days_before_year y" by (intro days_before_year_mono) simp
    with y(1) assms(2) show False by (simp add: days_before_year_def)
  qed
  moreover have "1 \<le> n - days_before_year y" "n - days_before_year y \<le> (if is_leap y then 366 else 365)"
    using y days_in_year [of y] by simp_all
  note month_of_correct [OF this]
  ultimately show ?thesis
    using y by (simp add: date_of_ordinal_def Let_def valid_date_def ordinal_def flip: y_def)
qed

section \<open>Writing a timestamp\<close>

text \<open>\<open>datetime(1970, 1, 1) + timedelta(seconds, microseconds)\<close>\<close>

definition unix_epoch :: int where
  "unix_epoch = 719163 * 86400 * 1000000"

definition utc_datetime_from_unix_ns :: "int \<Rightarrow> int" where
  "utc_datetime_from_unix_ns t =
     unix_epoch + (t div 1000000000 * 1000000 + t mod 1000000000 div 1000)"

definition digit_char :: "int \<Rightarrow> char" where
  "digit_char v = char_of (48 + nat v)"

definition two_digits :: "int \<Rightarrow> string" where
  "two_digits v = [digit_char (v div 10), digit_char (v mod 10)]"

definition four_digits :: "int \<Rightarrow> string" where
  "four_digits v = two_digits (v div 100) @ two_digits (v mod 100)"

definition microsecond_text :: "int \<Rightarrow> string" where
  "microsecond_text us =
     (if us = 0 then []
      else ''.'' @ two_digits (us div 10000) @ two_digits (us div 100 mod 100) @ two_digits (us mod 100))"

definition format_utc_datetime :: "int \<Rightarrow> string" where
  "format_utc_datetime t =
     (let seconds = t div 1000000; us = t mod 1000000; second_of_day = seconds mod 86400
      in case date_of_ordinal (seconds div 86400) of (y, m, d) \<Rightarrow>
        four_digits y @ ''-'' @ two_digits (int m) @ ''-'' @ two_digits d
        @ ''T'' @ two_digits (second_of_day div 3600)
        @ '':'' @ two_digits (second_of_day div 60 mod 60)
        @ '':'' @ two_digits (second_of_day mod 60)
        @ microsecond_text us @ ''Z'')"

lemma digit_value_char [simp]: "0 \<le> v \<Longrightarrow> v \<le> 9 \<Longrightarrow> digit_value (digit_char v) = Some v"
proof -
  assume v: "0 \<le> v" "v \<le> 9"
  have "(of_char (digit_char v) :: nat) = 48 + nat v"
    using v by (simp add: digit_char_def)
  then have "(of_char (digit_char v) :: int) = 48 + v"
    using v by (metis int_nat_eq int_plus of_nat_numeral of_nat_of_char)
  then show ?thesis using v by (simp add: digit_value_def)
qed

lemma read_two_digits [simp]: "0 \<le> v \<Longrightarrow> v \<le> 99 \<Longrightarrow> read_two (two_digits v @ s) = Some (v, s)"
  by (simp add: two_digits_def)

lemma read_four_digits [simp]: "0 \<le> v \<Longrightarrow> v \<le> 9999 \<Longrightarrow> read_four (four_digits v @ s) = Some (v, s)"
  by (simp add: read_four_def four_digits_def)

lemma not_digit: "digit_value (CHR ''Z'') = None"
  by (simp add: digit_value_def)

lemma scale_six: "scale_fraction 6 [a, b, c, d, e, f] =
    100000 * a + 10000 * b + 1000 * c + 100 * d + 10 * e + f"
  by (simp add: scale_fraction_def)

lemma div_div_mod:
  fixes p q z :: int
  assumes "0 \<le> q"
  shows "p * q * (z div (p * q)) + p * (z div p mod q) + z mod p = z"
proof -
  have "p * q * (z div (p * q)) + p * (z div p mod q) = p * (q * (z div p div q) + z div p mod q)"
    using assms by (simp only: zdiv_zmult2_eq distrib_left mult.assoc)
  also have "\<dots> = p * (z div p)" by (simp only: mult_div_mod_eq)
  finally show ?thesis by (simp only: mult_div_mod_eq)
qed

lemma read_microseconds:
  assumes "0 \<le> us" "us < 1000000"
  shows "\<exists>ds. read_fraction (microsecond_text us @ ''Z'') = Some (ds, ''Z'') \<and> scale_fraction 6 ds = us \<and>
    length ds \<le> 9 \<and> scale_fraction 9 ds = us * 1000"
proof (cases "us = 0")
  case True
  then show ?thesis by (simp add: microsecond_text_def read_fraction_def scale_fraction_def)
next
  case False
  define a b c where "a = us div 10000" and "b = us div 100 mod 100" and "c = us mod 100"
  have r: "0 \<le> a" "a \<le> 99" "0 \<le> b" "b \<le> 99" "0 \<le> c" "c \<le> 99"
    using assms by (simp_all add: a_def b_def c_def)
  have us: "us = 10000 * a + 100 * b + c"
    using div_div_mod [of 100 100 us] unfolding a_def b_def c_def by simp
  have "span_digits (two_digits a @ two_digits b @ two_digits c @ ''Z'') =
      ([a div 10, a mod 10, b div 10, b mod 10, c div 10, c mod 10], ''Z'')"
    using r by (simp add: two_digits_def not_digit)
  with False have "read_fraction (microsecond_text us @ ''Z'') =
      Some ([a div 10, a mod 10, b div 10, b mod 10, c div 10, c mod 10], ''Z'')"
    by (simp add: read_fraction_def microsecond_text_def a_def b_def c_def)
  moreover have "scale_fraction 6 [a div 10, a mod 10, b div 10, b mod 10, c div 10, c mod 10] = us"
    unfolding us scale_six
    using div_mult_mod_eq [of a 10] div_mult_mod_eq [of b 10] div_mult_mod_eq [of c 10] by linarith
  moreover have "scale_fraction 9 [a div 10, a mod 10, b div 10, b mod 10, c div 10, c mod 10] =
      scale_fraction 6 [a div 10, a mod 10, b div 10, b mod 10, c div 10, c mod 10] * 1000"
    by (simp add: scale_fraction_def)
  ultimately show ?thesis by (intro exI conjI) simp_all
qed

lemma read_fields:
  assumes "valid_date y m d" and "0 \<le> hh" "hh < 24" "0 \<le> mm" "mm < 60" "0 \<le> ss" "ss < 60"
    and "read_fraction (fraction @ ''Z'') = Some (ds, ''Z'')" and "CHR ''T'' \<in> set separators"
  shows "read_timestamp separators (four_digits y @ ''-'' @ two_digits (int m) @ ''-'' @ two_digits d @ ''T''
      @ two_digits hh @ '':'' @ two_digits mm @ '':'' @ two_digits ss @ fraction @ ''Z'') =
    Some \<lparr>ts_seconds = ordinal y m d * 86400 + (3600 * hh + 60 * mm + ss), ts_fraction = ds\<rparr>"
proof -
  have "month_lengths y ! (m - 1) \<le> 31" if "1 \<le> m" "m \<le> 12"
    using month_cases [OF that] by (auto simp: month_lengths_def)
  then have "0 \<le> y" "y \<le> 9999" "int m \<le> 99" "0 \<le> d" "d \<le> 99"
    using assms(1) by (auto simp: valid_date_def)
  with assms show ?thesis by (simp add: read_timestamp_def read_offset_def)
qed

text \<open>The instants of the years 1 to 9999.\<close>

definition is_instant :: "int \<Rightarrow> bool" where
  "is_instant t \<longleftrightarrow> 86400 * 1000000 \<le> t \<and> t < 3652060 * 86400 * 1000000"

lemma format_reads:
  assumes "is_instant t" and "CHR ''T'' \<in> set separators"
  shows "\<exists>n sod ds us. read_timestamp separators (format_utc_datetime t) =
      Some \<lparr>ts_seconds = n * 86400 + sod, ts_fraction = ds\<rparr> \<and> scale_fraction 6 ds = us \<and>
    length ds \<le> 9 \<and> scale_fraction 9 ds = us * 1000 \<and> t = (n * 86400 + sod) * 1000000 + us"
proof -
  define seconds us sod n where "seconds = t div 1000000" and "us = t mod 1000000"
    and "sod = seconds mod 86400" and "n = seconds div 86400"
  have n: "1 \<le> n" "n \<le> 3652059"
    using assms(1) div_bounds [of 1000000 t] div_bounds [of 86400 seconds]
    by (simp_all add: is_instant_def n_def flip: seconds_def)
  obtain y m d where ymd: "date_of_ordinal n = (y, m, d)" by (cases "date_of_ordinal n")
  have date: "valid_date y m d" "ordinal y m d = n"
    using date_of_ordinal_correct [OF n] by (simp_all add: ymd)
  have sod: "0 \<le> sod" "sod < 86400" by (simp_all add: sod_def)
  then have h: "0 \<le> sod div 3600" "sod div 3600 < 24" "0 \<le> sod div 60 mod 60" "sod div 60 mod 60 < 60"
    "0 \<le> sod mod 60" "sod mod 60 < 60" by simp_all
  obtain ds where ds: "read_fraction (microsecond_text us @ ''Z'') = Some (ds, ''Z'')"
    "scale_fraction 6 ds = us" "length ds \<le> 9" "scale_fraction 9 ds = us * 1000"
    using read_microseconds [of us] by (auto simp: us_def)
  have split: "3600 * (sod div 3600) + 60 * (sod div 60 mod 60) + sod mod 60 = sod"
    using div_div_mod [of 60 60 sod] by simp
  have total: "t = (n * 86400 + sod) * 1000000 + us"
    by (simp add: n_def sod_def us_def seconds_def)
  have "format_utc_datetime t = four_digits y @ ''-'' @ two_digits (int m) @ ''-'' @ two_digits d @ ''T''
      @ two_digits (sod div 3600) @ '':'' @ two_digits (sod div 60 mod 60) @ '':'' @ two_digits (sod mod 60)
      @ microsecond_text us @ ''Z''"
    by (simp add: format_utc_datetime_def Let_def ymd flip: seconds_def n_def sod_def us_def)
  then have "read_timestamp separators (format_utc_datetime t) =
      Some \<lparr>ts_seconds = n * 86400 + sod, ts_fraction = ds\<rparr>"
    by (simp only: read_fields [OF date(1) h ds(1) assms(2)] date(2) split)
  with ds(2-4) total show ?thesis by blast
qed

lemma format_parses: "is_instant t \<Longrightarrow> parse_timestamp (format_utc_datetime t) = Some t"
  using format_reads [of t "''Tt ''"] by (auto simp: parse_timestamp_def)

lemma format_parses_ns:
  assumes "is_instant t"
  shows "parse_timestamp_ns (format_utc_datetime t) = Some ((t - unix_epoch) * 1000)"
  using format_reads [OF assms, of "''Tt''"] by (auto simp: parse_timestamp_ns_def unix_epoch_def)

text \<open>
  C38: Every instant of the years 1 to 9999 is read back exactly from the text the harness writes
  for it, to the microsecond.
\<close>

theorem format_parse_roundtrip:
  assumes "is_instant t"
  shows "parse_timestamp (format_utc_datetime t) = Some t"
  by (rule format_parses [OF assms])

theorem format_parse_roundtrip_witness:
  "parse_timestamp (format_utc_datetime 63850240860000123) = Some 63850240860000123"
  by (rule format_parse_roundtrip) (simp add: is_instant_def)

end
