(* ===== verification/Hardware_Timing.thy ===== *)
theory Hardware_Timing
  imports Metric_Points Qualification_Policy Timestamp_Text
begin

text \<open>
  Hardware clock measurements (harness/hardware_timing.py): four gauges sampled at the same
  instants by one source are reduced to one observation judged by the scenario's clock policy.
  The theorem reads a verdict back as a statement on every sample.
\<close>

section \<open>Population standard deviation\<close>

text \<open>
  \<open>math.isqrt\<close>, and \<open>statistics.pstdev\<close> on floats: the exact mean square deviation, then a square
  root rounded to odd on an integer of more than 53 bits and converted to a float.
\<close>

function isqrt :: "int \<Rightarrow> int" where
  "isqrt n = (if n \<le> 0 then 0 else
     let r = 2 * isqrt (n div 4) in if (r + 1) * (r + 1) \<le> n then r + 1 else r)"
  by pat_completeness auto
termination by (relation "measure nat") auto

declare isqrt.simps [simp del]

lemma isqrt_correct: "0 \<le> n \<Longrightarrow> isqrt n * isqrt n \<le> n \<and> n < (isqrt n + 1) * (isqrt n + 1)"
proof (induction n rule: isqrt.induct)
  case (1 n)
  show ?case
  proof (cases "n = 0")
    case True
    then show ?thesis by (simp add: isqrt.simps)
  next
    case False
    with 1(2) have pos: "0 < n" by simp
    define r where "r = isqrt (n div 4)"
    have ih: "r * r \<le> n div 4" "n div 4 < (r + 1) * (r + 1)" using 1(1) pos by (simp_all add: r_def)
    have lo: "(2 * r) * (2 * r) \<le> n" using ih(1) by simp
    have hi: "n < (2 * r + 2) * (2 * r + 2)" using ih(2) by (simp add: algebra_simps)
    have eq: "isqrt n = (if (2 * r + 1) * (2 * r + 1) \<le> n then 2 * r + 1 else 2 * r)"
      using pos by (subst isqrt.simps) (simp add: r_def Let_def)
    show ?thesis
    proof (cases "(2 * r + 1) * (2 * r + 1) \<le> n")
      case True
      then show ?thesis unfolding eq using hi by (simp add: algebra_simps)
    next
      case False
      then show ?thesis unfolding eq using lo by simp
    qed
  qed
qed

definition sqrt_round_to_odd :: "int \<Rightarrow> int \<Rightarrow> int" where
  "sqrt_round_to_odd n m =
     (let a = isqrt (n div m) in if a * a * m \<noteq> n \<and> even a then a + 1 else a)"

definition float_sqrt_of_frac :: "int \<Rightarrow> int \<Rightarrow> rat" where
  "float_sqrt_of_frac n m =
     (let q = (bitlen n - bitlen m - 109) div 2 in
      if 0 \<le> q then fl (of_int (push_bit (nat q) (sqrt_round_to_odd n (push_bit (nat (2 * q)) m))))
      else fl (of_int (sqrt_round_to_odd (push_bit (nat (- 2 * q)) n) m) / 2 ^ nat (- q)))"

definition pstdev :: "rat list \<Rightarrow> rat" where
  "pstdev xs =
     (let n = of_nat (length xs); sx = sum_list xs; sxx = sum_list (map (\<lambda>x. x * x) xs);
          (numerator, denominator) = quotient_of ((n * sxx - sx * sx) / n / n)
      in float_sqrt_of_frac numerator denominator)"

section \<open>Reading the samples\<close>

definition OFFSET_METRIC :: string where "OFFSET_METRIC = ''robotics.hardware.clock.offset''"
definition DRIFT_METRIC :: string where "DRIFT_METRIC = ''robotics.hardware.clock.drift''"
definition AGE_METRIC :: string where "AGE_METRIC = ''robotics.hardware.message.age''"
definition MONOTONIC_METRIC :: string where "MONOTONIC_METRIC = ''robotics.hardware.clock.monotonic''"
definition PROTOCOL_ATTRIBUTE :: string where "PROTOCOL_ATTRIBUTE = ''robotics.clock.sync_protocol''"
definition SOURCE_ATTRIBUTE :: string where "SOURCE_ATTRIBUTE = ''robotics.clock.source''"

definition METRIC_UNITS :: "(string \<times> string) list" where
  "METRIC_UNITS = [(OFFSET_METRIC, ''ms''), (DRIFT_METRIC, ''ppm''), (AGE_METRIC, ''ms''),
     (MONOTONIC_METRIC, ''1'')]"

definition SUPPORTED_SOURCES :: "string list" where
  "SUPPORTED_SOURCES = [''pmc'', ''chronyc_tracking'', ''mavlink_timesync_status'',
     ''controller_telemetry'', ''external_attestation'']"

datatype hardware_error =
    Not_a_scalar_point string
  | Missing_hardware_metrics
  | Hardware_unit_mismatch string
  | Attributes_not_strings string
  | Metadata_changed
  | Unsupported_source
  | Protocol_differs_from_policy
  | Duplicate_hardware_point string
  | Unaligned_hardware_point int

type_synonym timing_groups = "(string \<times> metric_sample list) list"

definition is_timing_name :: "string \<Rightarrow> bool" where
  "is_timing_name name \<longleftrightarrow> name \<in> fst ` set METRIC_UNITS"

definition timing_samples :: "metric_point list \<Rightarrow> hardware_error + timing_groups" where
  "timing_samples samples =
     (let points = filter (\<lambda>p. is_timing_name (pt_name p)) samples in
      and_then (map_res (\<lambda>p. case p of Scalar s \<Rightarrow> Inr s | Hist h \<Rightarrow> Inl (Not_a_scalar_point (hs_name h))) points)
        (\<lambda>scalars. let grouped = group_by sa_name scalars in
           if set (map fst METRIC_UNITS) - set (map fst grouped) \<noteq> {} then Inl Missing_hardware_metrics
           else Inr grouped))"

definition string_attribute :: "string \<Rightarrow> metric_sample \<Rightarrow> string option" where
  "string_attribute key s =
     (case map_of (sa_attributes s) key of Some (AStr v) \<Rightarrow> Some v | _ \<Rightarrow> None)"

definition sample_metadata :: "string \<Rightarrow> metric_sample \<Rightarrow> hardware_error + string \<times> string" where
  "sample_metadata name s =
     (if Some (sa_unit s) \<noteq> map_of METRIC_UNITS name then Inl (Hardware_unit_mismatch name)
      else case (string_attribute PROTOCOL_ATTRIBUTE s, string_attribute SOURCE_ATTRIBUTE s) of
        (Some protocol, Some source) \<Rightarrow> Inr (protocol, source)
      | _ \<Rightarrow> Inl (Attributes_not_strings name))"

definition clock_metadata :: "timing_groups \<Rightarrow> hardware_error + string \<times> string" where
  "clock_metadata grouped =
     and_then (map_res (\<lambda>(name, s). sample_metadata name s)
         (concat (map (\<lambda>(name, samples). map (Pair name) samples) grouped)))
       (\<lambda>pairs. let protocols = remdups (map fst pairs); sources = remdups (map snd pairs) in
          if length protocols \<noteq> 1 \<or> length sources \<noteq> 1 then Inl Metadata_changed
          else if hd sources \<notin> set SUPPORTED_SOURCES then Inl Unsupported_source
          else Inr (hd protocols, hd sources))"

section \<open>Aligned points\<close>

definition point_value :: "timing_groups \<Rightarrow> int \<Rightarrow> string \<Rightarrow> rat option" where
  "point_value grouped t name =
     (case map_of grouped name of None \<Rightarrow> None
      | Some samples \<Rightarrow> map_option sa_value (find (\<lambda>s. sa_observed_at_ns s = t) samples))"

definition observed_instants :: "timing_groups \<Rightarrow> int list" where
  "observed_instants grouped =
     rev (remdups (rev (concat (map (\<lambda>(name, samples). map sa_observed_at_ns samples) grouped))))"

definition aligned_points ::
  "timing_groups \<Rightarrow> hardware_error + (int \<times> (string \<Rightarrow> rat option)) list" where
  "aligned_points grouped = checked (first_error
     [first_error (map (\<lambda>(name, samples).
        require (unique_by sa_observed_at_ns samples) (Duplicate_hardware_point name)) grouped),
      first_error (map (\<lambda>t.
        require (\<forall>name \<in> set (map fst METRIC_UNITS). point_value grouped t name \<noteq> None)
          (Unaligned_hardware_point t)) (observed_instants grouped))])
     (Inr (map (\<lambda>t. (t, point_value grouped t)) (sort (observed_instants grouped))))"

section \<open>The observation\<close>

record hardware_timing_observation =
  ho_sync_protocol :: string
  ho_source :: string
  ho_measured_at :: int
  ho_sample_count :: int
  ho_offset_ms :: rat
  ho_jitter_ms :: rat
  ho_drift_ppm :: rat
  ho_max_sample_age_ms :: rat
  ho_monotonic :: bool
  ho_within_policy :: bool

definition hardware_observation ::
  "clock_policy \<Rightarrow> string \<Rightarrow> string \<Rightarrow> (int \<times> (string \<Rightarrow> rat option)) list
    \<Rightarrow> hardware_timing_observation" where
  "hardware_observation policy protocol source points =
     (let values = \<lambda>name. map (\<lambda>(t, v). the (v name)) points;
          monotonic = (\<forall>x \<in> set (values MONOTONIC_METRIC). x = 1);
          offset = Max (abs ` set (values OFFSET_METRIC));
          drift = Max (abs ` set (values DRIFT_METRIC));
          age = Max (set (values AGE_METRIC))
      in \<lparr>ho_sync_protocol = protocol, ho_source = source,
          ho_measured_at = utc_datetime_from_unix_ns (fst (last points)),
          ho_sample_count = int (length points), ho_offset_ms = offset,
          ho_jitter_ms = pstdev (values OFFSET_METRIC), ho_drift_ppm = drift,
          ho_max_sample_age_ms = age, ho_monotonic = monotonic,
          ho_within_policy = hardware_clock_within_policy policy
            \<lparr>sample_count = int (length points), offset_ms = offset, drift_ppm = drift,
             max_sample_age_ms = age\<rparr> monotonic\<rparr>)"

definition evaluate_hardware_timing ::
  "string \<Rightarrow> clock_policy \<Rightarrow> metric_point list \<Rightarrow> hardware_error + hardware_timing_observation" where
  "evaluate_hardware_timing policy_protocol policy samples =
     and_then (timing_samples samples) (\<lambda>grouped.
     and_then (clock_metadata grouped) (\<lambda>(protocol, source).
     if protocol \<noteq> policy_protocol then Inl Protocol_differs_from_policy
     else and_then (aligned_points grouped) (\<lambda>points.
       Inr (hardware_observation policy protocol source points))))"

section \<open>A verdict is a statement on every sample\<close>

lemma find_SomeD: "find P xs = Some x \<Longrightarrow> x \<in> set xs \<and> P x"
  by (induction xs) (auto split: if_splits)

lemma find_found: "x \<in> set xs \<Longrightarrow> P x \<Longrightarrow> find P xs \<noteq> None"
  by (induction xs) auto

definition timing_points :: "metric_point list \<Rightarrow> metric_sample list" where
  "timing_points samples = List.map_filter as_scalar (filter (\<lambda>p. is_timing_name (pt_name p)) samples)"

lemma scalars_of_points:
  assumes "map_res (\<lambda>p. case p of Scalar s \<Rightarrow> Inr s | Hist h \<Rightarrow> Inl (Not_a_scalar_point (hs_name h))) ps
    = Inr scalars"
  shows "scalars = List.map_filter as_scalar ps"
  using assms by (induction ps arbitrary: scalars) (auto simp: List.map_filter_def split: metric_point.splits)

lemma timing_samples_groups:
  assumes "timing_samples samples = Inr grouped"
  shows "grouped = group_by sa_name (timing_points samples)"
    and "fst ` set METRIC_UNITS \<subseteq> sa_name ` set (timing_points samples)"
proof -
  obtain scalars where s: "scalars = timing_points samples" "grouped = group_by sa_name scalars"
    "set (map fst METRIC_UNITS) - set (map fst grouped) = {}"
    using assms by (auto simp: timing_samples_def timing_points_def Let_def dest: scalars_of_points split: if_splits)
  then show "grouped = group_by sa_name (timing_points samples)" by simp
  have "fst ` set grouped = sa_name ` set scalars" by (simp only: s(2) group_by_keys)
  with s(1,3) show "fst ` set METRIC_UNITS \<subseteq> sa_name ` set (timing_points samples)" by auto
qed

lemma timing_points_name: "s \<in> set (timing_points samples) \<Longrightarrow> is_timing_name (sa_name s)"
  by (auto simp: timing_points_def List.map_filter_def split: option.splits elim: as_scalar.elims)

lemma find_unique:
  assumes "unique_by f xs" "x \<in> set xs"
  shows "find (\<lambda>y. f y = f x) xs = Some x"
proof -
  obtain y where y: "find (\<lambda>y. f y = f x) xs = Some y"
    using find_found [of x xs "\<lambda>y. f y = f x"] assms(2) by auto
  have "y \<in> set xs \<and> f y = f x" using find_SomeD [OF y] .
  then have "y = x" using assms(2) by (intro unique_by_eqD [OF assms(1)]) simp_all
  with y show ?thesis by simp
qed

lemma aligned_values:
  assumes "aligned_points (group_by sa_name ss) = Inr points" and "name \<in> fst ` set METRIC_UNITS"
    and "fst ` set METRIC_UNITS \<subseteq> sa_name ` set ss"
  shows "set (map (\<lambda>(t, v). the (v name)) points) = sa_value ` {s \<in> set ss. sa_name s = name}"
    and "fst ` set points = sa_observed_at_ns ` set ss"
    and "distinct (map fst points)"
proof -
  let ?g = "group_by sa_name ss"
  have p: "points = map (\<lambda>t. (t, point_value ?g t)) (sort (observed_instants ?g))"
    and u: "\<And>n xs. (n, xs) \<in> set ?g \<Longrightarrow> unique_by sa_observed_at_ns xs"
    and al: "\<And>t. t \<in> set (observed_instants ?g) \<Longrightarrow> point_value ?g t name \<noteq> None"
    using assms(1,2) by (auto simp: aligned_points_def checked_Inr first_error_None_iff)
  have inst: "set (observed_instants ?g) = sa_observed_at_ns ` set ss"
  proof -
    have "(\<Union>(n, xs) \<in> set ?g. set xs) = set ss"
      by (auto simp: group_by_def)
    then show ?thesis by (fastforce simp: observed_instants_def)
  qed
  then show "fst ` set points = sa_observed_at_ns ` set ss" by (simp add: p image_image)
  have "distinct (observed_instants ?g)" by (simp add: observed_instants_def)
  then show "distinct (map fst points)" by (simp add: p o_def)
  have known: "map_of ?g name = Some (filter (\<lambda>s. sa_name s = name) ss)"
    using assms(2,3) by (auto simp: map_of_group_by)
  then have uniq: "unique_by sa_observed_at_ns (filter (\<lambda>s. sa_name s = name) ss)"
    by (intro u [of name]) (rule map_of_SomeD)
  have at: "point_value ?g (sa_observed_at_ns s) name = Some (sa_value s)"
    if "s \<in> set ss" "sa_name s = name" for s
    using find_unique [OF uniq, of s] that by (simp add: point_value_def known)
  have from_sample: "\<exists>s \<in> set ss. sa_name s = name \<and> point_value ?g t name = Some (sa_value s)"
    if t: "t \<in> set (observed_instants ?g)" for t
  proof -
    obtain s where s: "find (\<lambda>s. sa_observed_at_ns s = t) (filter (\<lambda>s. sa_name s = name) ss) = Some s"
      using al [OF t] by (auto simp: point_value_def known)
    then have "point_value ?g t name = Some (sa_value s)" by (simp add: point_value_def known)
    with find_SomeD [OF s] show ?thesis by auto
  qed
  have "set (map (\<lambda>(t, v). the (v name)) points) =
      (\<lambda>t. the (point_value ?g t name)) ` set (observed_instants ?g)"
    by (simp add: p image_image)
  also have "\<dots> = sa_value ` {s \<in> set ss. sa_name s = name}"
    using from_sample at inst by (force simp: image_iff)
  finally show "set (map (\<lambda>(t, v). the (v name)) points) = sa_value ` {s \<in> set ss. sa_name s = name}" .
qed

definition clock_in_policy :: "clock_policy \<Rightarrow> metric_sample list \<Rightarrow> bool" where
  "clock_in_policy policy ss \<longleftrightarrow>
     time_authority_min_samples policy \<le> int (card (sa_observed_at_ns ` set ss)) \<and>
     (\<forall>s \<in> set ss.
        (sa_name s = OFFSET_METRIC \<longrightarrow> \<bar>sa_value s\<bar> \<le> max_clock_offset_ms policy) \<and>
        (sa_name s = DRIFT_METRIC \<longrightarrow> \<bar>sa_value s\<bar> \<le> max_clock_drift_ppm policy) \<and>
        (sa_name s = AGE_METRIC \<longrightarrow> sa_value s \<le> max_sample_age_limit_ms policy) \<and>
        (sa_name s = MONOTONIC_METRIC \<longrightarrow> sa_value s = 1))"

definition clock_described_by :: "string \<Rightarrow> string \<Rightarrow> metric_sample list \<Rightarrow> bool" where
  "clock_described_by protocol source ss \<longleftrightarrow> source \<in> set SUPPORTED_SOURCES \<and>
     (\<forall>s \<in> set ss. string_attribute PROTOCOL_ATTRIBUTE s = Some protocol \<and>
        string_attribute SOURCE_ATTRIBUTE s = Some source \<and>
        map_of METRIC_UNITS (sa_name s) = Some (sa_unit s))"

lemma group_by_pairs:
  "set (concat (map (\<lambda>(k, xs). map (Pair k) xs) (group_by f xs))) = (\<lambda>x. (f x, x)) ` set xs"
  by (force simp: group_by_def image_iff)

lemma clock_metadata_described:
  assumes "clock_metadata (group_by sa_name ss) = Inr (protocol, source)"
  shows "clock_described_by protocol source ss"
proof -
  obtain pairs where pairs: "map_res (\<lambda>(name, s). sample_metadata name s)
      (concat (map (\<lambda>(name, samples). map (Pair name) samples) (group_by sa_name ss))) = Inr pairs"
    and one: "length (remdups (map fst pairs)) = 1" "length (remdups (map snd pairs)) = 1"
    and hd: "hd (remdups (map snd pairs)) \<in> set SUPPORTED_SOURCES"
      "protocol = hd (remdups (map fst pairs))" "source = hd (remdups (map snd pairs))"
    using assms by (auto simp: clock_metadata_def Let_def split: if_splits)
  have single: "set xs = {hd (remdups xs)}" if "length (remdups xs) = 1" for xs :: "string list"
  proof -
    obtain y where "remdups xs = [y]" using \<open>length (remdups xs) = 1\<close> by (auto simp: length_Suc_conv)
    then show ?thesis by (metis empty_set list.sel(1) list.simps(15) set_remdups)
  qed
  have all: "fst ` set pairs = {protocol}" "snd ` set pairs = {source}"
    using single [OF one(1)] single [OF one(2)] hd by auto
  have "sample_metadata (sa_name s) s \<in> Inr ` set pairs" if s: "s \<in> set ss" for s
  proof -
    have "(sa_name s, s) \<in> set (concat (map (\<lambda>(name, samples). map (Pair name) samples) (group_by sa_name ss)))"
      using s unfolding group_by_pairs by simp
    from map_res_input [OF pairs this] show ?thesis by auto
  qed
  then have "\<exists>p. sample_metadata (sa_name s) s = Inr p \<and> fst p = protocol \<and> snd p = source"
    if "s \<in> set ss" for s
    using that all by (metis (no_types, lifting) imageE imageI singletonD)
  then show ?thesis
    using hd by (fastforce simp: clock_described_by_def sample_metadata_def split: option.splits if_splits)
qed

lemma timing_names: "fst ` set METRIC_UNITS = {OFFSET_METRIC, DRIFT_METRIC, AGE_METRIC, MONOTONIC_METRIC}"
  by (simp add: METRIC_UNITS_def)

lemma observation_verdict:
  assumes "aligned_points (group_by sa_name ss) = Inr points"
    and names: "fst ` set METRIC_UNITS \<subseteq> sa_name ` set ss"
  shows "ho_within_policy (hardware_observation policy protocol source points) \<longleftrightarrow> clock_in_policy policy ss"
proof -
  let ?V = "\<lambda>name. sa_value ` {s \<in> set ss. sa_name s = name}"
  have v: "set (map (\<lambda>(t, v). the (v name)) points) = ?V name" if "name \<in> fst ` set METRIC_UNITS" for name
    using assms(1) that names by (rule aligned_values)
  have ne: "?V name \<noteq> {}" if "name \<in> fst ` set METRIC_UNITS" for name
  proof -
    from that names have "name \<in> sa_name ` set ss" by (rule rev_subsetD)
    then show ?thesis by blast
  qed
  have len: "length points = card (sa_observed_at_ns ` set ss)"
    using aligned_values(2,3) [OF assms(1) _ names, of OFFSET_METRIC]
    by (metis distinct_card insertI1 length_map set_map timing_names)
  have vs: "set (map (\<lambda>(t, v). the (v OFFSET_METRIC)) points) = ?V OFFSET_METRIC"
    "set (map (\<lambda>(t, v). the (v DRIFT_METRIC)) points) = ?V DRIFT_METRIC"
    "set (map (\<lambda>(t, v). the (v AGE_METRIC)) points) = ?V AGE_METRIC"
    "set (map (\<lambda>(t, v). the (v MONOTONIC_METRIC)) points) = ?V MONOTONIC_METRIC"
    by (rule v; simp add: timing_names)+
  have nes: "?V OFFSET_METRIC \<noteq> {}" "?V DRIFT_METRIC \<noteq> {}" "?V AGE_METRIC \<noteq> {}"
    by (rule ne; simp add: timing_names)+
  have fin: "finite (?V n)" for n by simp
  have max: "\<bar>Max (abs ` V)\<bar> \<le> b \<longleftrightarrow> (\<forall>x \<in> V. \<bar>x\<bar> \<le> b)" if "finite V" "V \<noteq> {}" for V :: "rat set" and b
  proof -
    have "0 \<le> Max (abs ` V)" using that by (auto simp: Max_ge_iff)
    with that show ?thesis by simp
  qed
  have "ho_within_policy (hardware_observation policy protocol source points) \<longleftrightarrow>
      (\<forall>x \<in> ?V MONOTONIC_METRIC. x = 1) \<and>
      time_authority_min_samples policy \<le> int (length points) \<and>
      (\<forall>x \<in> ?V OFFSET_METRIC. \<bar>x\<bar> \<le> max_clock_offset_ms policy) \<and>
      (\<forall>x \<in> ?V DRIFT_METRIC. \<bar>x\<bar> \<le> max_clock_drift_ppm policy) \<and>
      (\<forall>x \<in> ?V AGE_METRIC. x \<le> max_sample_age_limit_ms policy)"
    unfolding hardware_observation_def hardware_clock_within_policy_def Let_def
      vs clock_observation.select_convs hardware_timing_observation.select_convs
      max [OF fin nes(1)] max [OF fin nes(2)] Max_le_iff [OF fin nes(3)] ..
  then show ?thesis unfolding clock_in_policy_def len ball_conj_distrib by auto
qed

lemma evaluated_clock:
  assumes "evaluate_hardware_timing protocol policy samples = Inr ob"
  shows "(ho_within_policy ob \<longleftrightarrow> clock_in_policy policy (timing_points samples)) \<and>
    ho_sync_protocol ob = protocol \<and>
    clock_described_by protocol (ho_source ob) (timing_points samples)"
proof -
  obtain grouped source points where g: "timing_samples samples = Inr grouped"
    "clock_metadata grouped = Inr (protocol, source)" "aligned_points grouped = Inr points"
    "ob = hardware_observation policy protocol source points"
    using assms by (auto simp: evaluate_hardware_timing_def split: if_splits)
  note gr = timing_samples_groups [OF g(1)]
  show ?thesis
    using observation_verdict [OF g(3) [unfolded gr(1)] gr(2)]
      clock_metadata_described [OF g(2) [unfolded gr(1)]]
    by (simp add: g(4)) (simp add: hardware_observation_def Let_def)
qed

text \<open>
  C37: An accepted hardware clock observation was measured by one supported source with the
  protocol of the policy, in the declared units, and it is within policy exactly when enough
  instants were sampled and at every one of them the offset, the drift, the message age and the
  monotonicity flag each lie within the policy's limits.
\<close>

theorem hardware_verdict_reads_samples:
  assumes "evaluate_hardware_timing protocol policy samples = Inr ob"
  shows "(ho_within_policy ob \<longleftrightarrow> clock_in_policy policy (timing_points samples)) \<and>
    ho_sync_protocol ob = protocol \<and>
    clock_described_by protocol (ho_source ob) (timing_points samples)"
  using assms by (rule evaluated_clock)

definition example_clock_sample :: "string \<Rightarrow> string \<Rightarrow> int \<Rightarrow> rat \<Rightarrow> metric_point" where
  "example_clock_sample name unit t v = Scalar
     \<lparr>sa_name = name, sa_value = v, sa_unit = unit, sa_observed_at_ns = t,
      sa_attributes = [(PROTOCOL_ATTRIBUTE, AStr ''ptp''), (SOURCE_ATTRIBUTE, AStr ''pmc'')],
      sa_instrument_kind = Gauge, sa_temporality = None, sa_start_time_ns = 0, sa_monotonic = False\<rparr>"

definition example_clock_samples :: "metric_point list" where
  "example_clock_samples = concat (map (\<lambda>(t, offset).
     [example_clock_sample OFFSET_METRIC ''ms'' t offset, example_clock_sample DRIFT_METRIC ''ppm'' t 2,
      example_clock_sample AGE_METRIC ''ms'' t 3, example_clock_sample MONOTONIC_METRIC ''1'' t 1])
     [(2000, -1), (1000, 1 / 2)])"

definition example_clock_policy :: clock_policy where
  "example_clock_policy = \<lparr>time_authority_min_samples = 2, max_clock_offset_ms = 1,
     max_clock_drift_ppm = 2, max_sample_age_limit_ms = 4\<rparr>"

definition clock_verdict :: "hardware_error + hardware_timing_observation \<Rightarrow> bool" where
  "clock_verdict r = (case r of Inl _ \<Rightarrow> False | Inr ob \<Rightarrow> ho_within_policy ob)"

theorem hardware_verdict_reads_samples_witness:
  "\<exists>ob. evaluate_hardware_timing ''ptp'' example_clock_policy example_clock_samples = Inr ob \<and>
     clock_in_policy example_clock_policy (timing_points example_clock_samples) \<and>
     clock_described_by ''ptp'' (ho_source ob) (timing_points example_clock_samples)"
proof -
  have "clock_verdict (evaluate_hardware_timing ''ptp'' example_clock_policy example_clock_samples)"
    by code_simp
  then obtain ob where "evaluate_hardware_timing ''ptp'' example_clock_policy example_clock_samples = Inr ob"
    "ho_within_policy ob"
    by (auto simp: clock_verdict_def split: sum.splits)
  with hardware_verdict_reads_samples [OF this(1)] show ?thesis by blast
qed

end
