(* ===== verification/Clock_Timing.thy ===== *)
theory Clock_Timing
  imports Histogram_Estimates
begin

text \<open>
  Clock timing of a run (harness/timing.py): the real-time factor of the source clock over a
  sliding window, bounded from below and from above by recorded callbacks only, the deadline
  ratios, and the checks of playback and stepped clocks. Violations are proven, conclusions
  that the recording does not determine are reported apart. Instants are integer nanoseconds,
  ratios are floats.
\<close>

section \<open>Samples, windows and issues\<close>

record clock_sample =
  cs_observed_at_ns :: int
  cs_source_time_ns :: int
  cs_deadline_miss_ratio :: "rat option"

record clock_window =
  cw_start_ns :: int
  cw_end_ns :: int
  cw_max_sample_gap_ns :: int
  cw_deadline_miss_ratio :: "rat option"

datatype timing_input_error =
    Bounds_not_increasing_nonnegative
  | Gap_allowance_not_positive
  | Rtf_window_too_short
  | Step_rounds_to_zero

definition validate_clock_window :: "clock_window \<Rightarrow> timing_input_error option" where
  "validate_clock_window w = first_error
     [require (\<not> (cw_start_ns w < 0 \<or> cw_end_ns w \<le> cw_start_ns w)) Bounds_not_increasing_nonnegative,
      require (\<not> cw_max_sample_gap_ns w \<le> 0) Gap_allowance_not_positive]"

datatype timing_issue =
    No_clock_samples
  | Monotonicity_unavailable
  | Source_moved_backwards
  | Two_samples_needed
  | Times_do_not_increase
  | Samples_outside_bounds
  | Coverage_gap int
  | Deadline_not_observed
  | Deadline_not_a_ratio
  | Rtf_below bound rat
  | Rtf_undetermined rat bound
  | Deadline_exceeded rat
  | Clock_hz_too_low rat
  | Playback_did_not_advance
  | Stepped_did_not_advance
  | Step_not_positive nat
  | Not_a_step_multiple nat int
  | Too_many_skipped_steps nat int

fun timing_path :: "timing_issue \<Rightarrow> string" where
  "timing_path Monotonicity_unavailable = ''$.clock_observation.monotonic''"
| "timing_path Two_samples_needed = ''$.time_policy.min_realtime_factor''"
| "timing_path (Coverage_gap _) = ''$.time_policy.min_realtime_factor''"
| "timing_path (Rtf_below _ _) = ''$.time_policy.min_realtime_factor''"
| "timing_path (Rtf_undetermined _ _) = ''$.time_policy.min_realtime_factor''"
| "timing_path Deadline_not_observed = ''$.time_policy.max_deadline_miss_ratio''"
| "timing_path Deadline_not_a_ratio = ''$.time_policy.max_deadline_miss_ratio''"
| "timing_path (Deadline_exceeded _) = ''$.time_policy.max_deadline_miss_ratio''"
| "timing_path (Clock_hz_too_low _) = ''$.time_policy.min_clock_hz''"
| "timing_path (Step_not_positive _) = ''$.time_policy.step_size_sec''"
| "timing_path (Not_a_step_multiple _ _) = ''$.time_policy.step_size_sec''"
| "timing_path (Too_many_skipped_steps _ _) = ''$.time_policy.max_skipped_steps''"
| "timing_path _ = ''$.time_policy''"

text \<open>Violations and insufficient conclusions, in the order the code appends them.\<close>

type_synonym timing_issues = "timing_issue list \<times> timing_issue list"

definition when_issue :: "bool \<Rightarrow> timing_issue \<Rightarrow> timing_issue list" where
  "when_issue b i = (if b then [i] else [])"

lemma when_issue_Nil [simp]: "when_issue b i = [] \<longleftrightarrow> \<not> b"
  by (simp add: when_issue_def)

section \<open>Coverage of the measurement window\<close>

definition observed :: "clock_sample list \<Rightarrow> nat \<Rightarrow> int" where
  "observed samples i = cs_observed_at_ns (samples ! i)"

definition source :: "clock_sample list \<Rightarrow> nat \<Rightarrow> int" where
  "source samples i = cs_source_time_ns (samples ! i)"

definition clock_coverage :: "clock_sample list \<Rightarrow> clock_window \<Rightarrow> timing_issues \<times> bool" where
  "clock_coverage samples w =
     (let first = cs_observed_at_ns (hd samples); last = cs_observed_at_ns (last samples) in
      if first < cw_start_ns w \<or> cw_end_ns w < last then (([Samples_outside_bounds], []), False)
      else (let gaps = map (\<lambda>(a, b). cs_observed_at_ns b - cs_observed_at_ns a) (pairwise_of samples);
                maximum = max (first - cw_start_ns w) (max (cw_end_ns w - last)
                  (if gaps = [] then 0 else Max (set gaps)))
            in if cw_max_sample_gap_ns w < maximum then (([], [Coverage_gap maximum]), False)
               else (([], []), True)))"

section \<open>The lower bound\<close>

text \<open>\<open>bisect_left\<close> and \<open>bisect_right\<close> by the observation instant, which increases.\<close>

definition first_at_or_after :: "clock_sample list \<Rightarrow> int \<Rightarrow> nat" where
  "first_at_or_after samples t = length (takeWhile (\<lambda>c. cs_observed_at_ns c < t) samples)"

definition count_at_or_before :: "clock_sample list \<Rightarrow> int \<Rightarrow> nat" where
  "count_at_or_before samples t = length (takeWhile (\<lambda>c. cs_observed_at_ns c \<le> t) samples)"

definition interval_realtime_factor :: "clock_sample list \<Rightarrow> int \<Rightarrow> int \<Rightarrow> rat" where
  "interval_realtime_factor samples start_ns end_ns =
     (let first = first_at_or_after samples start_ns; last = int (count_at_or_before samples end_ns) - 1 in
      if last \<le> int first then 0
      else fl (of_int (source samples (nat last) - source samples first) / of_int (end_ns - start_ns)))"

text \<open>
  \<open>while samples[left].observed_at_ns < start_ns: left += 1\<close>. The loop of the source stops
  inside the list; here the end of the list stops it too.
\<close>

function advance_left :: "clock_sample list \<Rightarrow> int \<Rightarrow> nat \<Rightarrow> nat" where
  "advance_left samples start_ns left =
     (if left < length samples \<and> observed samples left < start_ns
      then advance_left samples start_ns (Suc left) else left)"
  by pat_completeness auto
termination by (relation "measure (\<lambda>(samples, _, left). length samples - left)") auto

declare advance_left.simps [simp del]

text \<open>\<open>0 if left >= right else samples[right].source_time_ns - samples[left].source_time_ns\<close>\<close>

definition recorded_progress :: "clock_sample list \<Rightarrow> nat \<Rightarrow> int \<Rightarrow> int" where
  "recorded_progress samples left right =
     (if right \<le> int left then 0 else source samples (nat right) - source samples left)"

text \<open>One pass of the inner loop: the left pointer and the minimum so far.\<close>

definition lower_step ::
  "clock_sample list \<Rightarrow> int \<Rightarrow> int \<Rightarrow> nat \<times> rat \<Rightarrow> int \<times> int \<Rightarrow> nat \<times> rat" where
  "lower_step samples window_start window_ns st c =
     (case st of (left, minimum) \<Rightarrow> case c of (end_ns, right) \<Rightarrow>
       let start_ns = end_ns - window_ns in
       if start_ns < window_start then (left, minimum)
       else (let left' = advance_left samples start_ns left in
             (left', min minimum (fl (of_int (recorded_progress samples left' right)
                      / of_int window_ns)))))"

definition window_ends :: "clock_sample list \<Rightarrow> (int \<times> int) list" where
  "window_ends samples = concat (map (\<lambda>(i, c).
     [(cs_observed_at_ns c - 1, int i - 1), (cs_observed_at_ns c, int i)]) (enumerate 0 samples))"

definition measurement_realtime_factor :: "clock_sample list \<Rightarrow> clock_window \<Rightarrow> int \<Rightarrow> rat" where
  "measurement_realtime_factor samples w window_ns =
     (let s = cw_start_ns w; e = cw_end_ns w; integral = interval_realtime_factor samples s e in
      if e - s < window_ns then max 0 integral
      else (let edges = min integral (min (interval_realtime_factor samples s (s + window_ns))
                          (interval_realtime_factor samples (e - window_ns) e))
            in max 0 (snd (foldl (lower_step samples s window_ns) (0, edges) (window_ends samples)))))"

section \<open>The upper bound\<close>

function advance_before :: "clock_sample list \<Rightarrow> int \<Rightarrow> nat \<Rightarrow> nat \<Rightarrow> nat" where
  "advance_before samples start_ns index left =
     (if left + 1 < index \<and> observed samples (left + 1) \<le> start_ns
      then advance_before samples start_ns index (left + 1) else left)"
  by pat_completeness auto
termination by (relation "measure (\<lambda>(_, _, index, left). index - left)") auto

declare advance_before.simps [simp del]

definition upper_step ::
  "clock_sample list \<Rightarrow> int \<Rightarrow> int \<Rightarrow> nat \<times> bound \<Rightarrow> nat \<times> clock_sample \<Rightarrow> nat \<times> bound" where
  "upper_step samples window_start window_ns st c =
     (case st of (left, upper) \<Rightarrow> case c of (index, current) \<Rightarrow>
       let start_ns = cs_observed_at_ns current - window_ns in
       if start_ns < window_start then (left, upper)
       else (let left' = advance_before samples start_ns index left in
             (left', if observed samples left' \<le> start_ns
                     then min upper (Fin (fl (of_int (cs_source_time_ns current - source samples left')
                            / of_int window_ns)))
                     else upper)))"

definition measurement_realtime_factor_upper :: "clock_sample list \<Rightarrow> clock_window \<Rightarrow> int \<Rightarrow> bound" where
  "measurement_realtime_factor_upper samples w window_ns =
     (let first = hd samples; last = last samples;
          upper = (if cs_observed_at_ns first = cw_start_ns w \<and> cs_observed_at_ns last = cw_end_ns w
            then Fin (fl (of_int (cs_source_time_ns last - cs_source_time_ns first)
                   / of_int (cw_end_ns w - cw_start_ns w)))
            else PosInf)
      in max (Fin 0) (snd (foldl (upper_step samples (cw_start_ns w) window_ns) (0, upper)
           (enumerate 0 samples))))"

section \<open>The windowed factor\<close>

text \<open>Without bounds: each callback ends a window that starts at an earlier callback.\<close>

definition span_step :: "clock_sample list \<Rightarrow> int \<Rightarrow> nat \<times> rat \<Rightarrow> nat \<times> clock_sample \<Rightarrow> nat \<times> rat" where
  "span_step samples window_ns st c =
     (case st of (left, minimum) \<Rightarrow> case c of (index, current) \<Rightarrow>
       let left' = advance_before samples (cs_observed_at_ns current - window_ns) index left;
           duration = cs_observed_at_ns current - observed samples left'
       in (left', if window_ns \<le> duration
                  then min minimum (fl (of_int (cs_source_time_ns current - source samples left')
                         / of_int duration))
                  else minimum))"

definition span_realtime_factor :: "clock_sample list \<Rightarrow> int \<Rightarrow> rat" where
  "span_realtime_factor samples window_ns =
     (let elapsed = cs_observed_at_ns (last samples) - cs_observed_at_ns (hd samples);
          minimum = fl (of_int (cs_source_time_ns (last samples) - cs_source_time_ns (hd samples))
            / of_int elapsed)
      in max 0 (snd (foldl (span_step samples window_ns) (0, minimum) (enumerate 0 samples))))"

definition times_increase :: "clock_sample list \<Rightarrow> bool" where
  "times_increase samples \<longleftrightarrow>
     \<not> (\<exists>(previous, current) \<in> set (pairwise_of samples).
         cs_observed_at_ns current \<le> cs_observed_at_ns previous)"

definition windowed_realtime_factor ::
  "clock_sample list \<Rightarrow> int \<Rightarrow> clock_window option \<Rightarrow> timing_issues \<times> rat \<times> bound" where
  "windowed_realtime_factor samples window_ns window =
     (if length samples < 2 then (([], [Two_samples_needed]), 0, PosInf)
      else if \<not> times_increase samples then (([Times_do_not_increase], []), 0, PosInf)
      else (case window of
              Some w \<Rightarrow> (case clock_coverage samples w of (issues, covered) \<Rightarrow>
                (issues, if covered then measurement_realtime_factor samples w window_ns else 0,
                 measurement_realtime_factor_upper samples w window_ns))
            | None \<Rightarrow> (let m = span_realtime_factor samples window_ns in (([], []), m, Fin m))))"

section \<open>Policy\<close>

datatype time_mode = Simulation_realtime | Playback_clocked | Simulation_stepped | Other_mode

record time_policy =
  tp_min_realtime_factor :: rat
  tp_max_deadline_miss_ratio :: rat
  tp_min_clock_hz :: rat
  tp_step_size_sec :: rat
  tp_max_skipped_steps :: int

definition required_ratios :: "clock_sample list \<Rightarrow> timing_issue list \<times> rat list" where
  "required_ratios samples =
     (let values = map cs_deadline_miss_ratio samples in
      (when_issue (values = [] \<or> None \<in> set values) Deadline_not_observed,
       List.map_filter id values))"

text \<open>The ratios of the window's own gauge and of every sample that carries one.\<close>

definition deadline_values ::
  "clock_sample list \<Rightarrow> clock_window option \<Rightarrow> timing_issue list \<times> rat list" where
  "deadline_values samples window =
     (case (case window of None \<Rightarrow> None | Some w \<Rightarrow> cw_deadline_miss_ratio w) of
        None \<Rightarrow> required_ratios samples
      | Some r \<Rightarrow> ([], r # List.map_filter cs_deadline_miss_ratio samples))"

definition realtime_issues :: "time_policy \<Rightarrow> rat \<Rightarrow> bound \<Rightarrow> timing_issues" where
  "realtime_issues policy lower upper =
     (let limit = tp_min_realtime_factor policy in
      if upper < Fin limit then ([Rtf_below upper lower], [])
      else if lower < limit then ([], [Rtf_undetermined lower upper]) else ([], []))"

definition join_issues :: "timing_issues \<Rightarrow> timing_issues \<Rightarrow> timing_issues" where
  "join_issues a b = (fst a @ fst b, snd a @ snd b)"

definition evaluate_realtime ::
  "time_policy \<Rightarrow> clock_sample list \<Rightarrow> int \<Rightarrow> clock_window option \<Rightarrow> timing_issues \<times> rat \<times> rat" where
  "evaluate_realtime policy samples window_ns window =
     (case windowed_realtime_factor samples window_ns window of (factor_issues, lower, upper) \<Rightarrow>
      case deadline_values samples window of (missing, given) \<Rightarrow>
      let outside = (\<exists>v \<in> set given. \<not> (0 \<le> v \<and> v \<le> 1));
          values = (if outside then [] else given);
          deadline = (if values = [] then 0 else Max (set values))
      in (join_issues (join_issues factor_issues (when_issue outside Deadline_not_a_ratio, missing))
            (join_issues (realtime_issues policy lower upper)
              (when_issue (tp_max_deadline_miss_ratio policy < deadline) (Deadline_exceeded deadline), [])),
          lower, deadline))"

definition clock_progress :: "clock_sample list \<Rightarrow> timing_issue list \<times> bool \<times> rat" where
  "clock_progress samples =
     (let monotonic = (samples \<noteq> [] \<and> (\<forall>(previous, current) \<in> set (pairwise_of samples).
            cs_source_time_ns previous \<le> cs_source_time_ns current));
          elapsed = (if samples = [] then 0
            else cs_observed_at_ns (last samples) - cs_observed_at_ns (hd samples));
          transitions = length (filter (\<lambda>(previous, current).
            cs_source_time_ns current \<noteq> cs_source_time_ns previous) (pairwise_of samples))
      in (when_issue (samples = []) Monotonicity_unavailable, monotonic,
          if 0 < elapsed then fl (of_int (int transitions * 1000000000) / of_int elapsed) else 0))"

definition playback_issues :: "time_policy \<Rightarrow> clock_sample list \<Rightarrow> rat \<Rightarrow> timing_issue list" where
  "playback_issues policy samples clock_hz =
     when_issue (clock_hz < tp_min_clock_hz policy) (Clock_hz_too_low clock_hz)
     @ when_issue (cs_source_time_ns (last samples) \<le> cs_source_time_ns (hd samples))
         Playback_did_not_advance"

text \<open>The source times at the first sample and after every change of the stepped clock.\<close>

definition step_deltas :: "clock_sample list \<Rightarrow> int list" where
  "step_deltas samples =
     (let transitions = map snd (filter (\<lambda>(previous, current).
            cs_source_time_ns current \<noteq> cs_source_time_ns previous) (pairwise_of samples))
      in map (\<lambda>(previous, current). cs_source_time_ns current - cs_source_time_ns previous)
           (pairwise_of (hd samples # transitions)))"

definition observed_steps :: "int \<Rightarrow> int \<Rightarrow> int" where
  "observed_steps step_ns delta = max 1 (round_even (fl (of_int delta / of_int step_ns)))"

definition delta_issues :: "int \<Rightarrow> int \<Rightarrow> nat \<times> int \<Rightarrow> timing_issue list" where
  "delta_issues step_ns max_skipped c = (case c of (index, delta) \<Rightarrow>
     if delta \<le> 0 then [Step_not_positive index]
     else (let steps = observed_steps step_ns delta in
       when_issue (1 < \<bar>delta - steps * step_ns\<bar>) (Not_a_step_multiple index delta)
       @ when_issue (max_skipped < steps - 1) (Too_many_skipped_steps index (steps - 1))))"

text \<open>A step size that rounds to zero nanoseconds divides by zero at the first positive delta.\<close>

definition stepped_issues ::
  "time_policy \<Rightarrow> clock_sample list \<Rightarrow> timing_input_error + timing_issue list" where
  "stepped_issues policy samples =
     (let step_ns = round_even (fl (fl (tp_step_size_sec policy) * 1000000000));
          deltas = step_deltas samples
      in if step_ns = 0 \<and> (\<exists>d \<in> set deltas. 0 < d) then Inl Step_rounds_to_zero
         else Inr (when_issue (deltas = [] \<or>
                cs_source_time_ns (last samples) \<le> cs_source_time_ns (hd samples)) Stepped_did_not_advance
              @ concat (map (delta_issues step_ns (tp_max_skipped_steps policy)) (enumerate 0 deltas))))"

record timing_observation =
  tm_monotonic :: bool
  tm_real_time_factor :: rat
  tm_deadline_miss_ratio :: rat
  tm_clock_hz :: rat

definition evaluate_timing_issues ::
  "time_mode \<Rightarrow> time_policy \<Rightarrow> clock_sample list \<Rightarrow> rat \<Rightarrow> clock_window option
    \<Rightarrow> timing_input_error + timing_observation \<times> timing_issues" where
  "evaluate_timing_issues mode policy samples rtf_window_sec window =
     (if rtf_window_sec < 1 then Inl Rtf_window_too_short
      else if samples = [] \<and> mode \<noteq> Simulation_realtime
      then Inr (\<lparr>tm_monotonic = False, tm_real_time_factor = 0, tm_deadline_miss_ratio = 0,
                 tm_clock_hz = 0\<rparr>, ([No_clock_samples], []))
      else (case clock_progress samples of (unavailable, monotonic, clock_hz) \<Rightarrow>
        let progress = (when_issue (samples \<noteq> [] \<and> \<not> monotonic) Source_moved_backwards, unavailable);
            observation = (\<lambda>rtf deadline. \<lparr>tm_monotonic = monotonic, tm_real_time_factor = rtf,
              tm_deadline_miss_ratio = deadline, tm_clock_hz = clock_hz\<rparr>)
        in case mode of
             Simulation_realtime \<Rightarrow>
               (case evaluate_realtime policy samples (round_even (fl (rtf_window_sec * 1000000000)))
                       window of
                  (issues, rtf, deadline) \<Rightarrow> Inr (observation rtf deadline, join_issues progress issues))
           | Playback_clocked \<Rightarrow> Inr (observation 0 0,
               join_issues progress (playback_issues policy samples clock_hz, []))
           | Simulation_stepped \<Rightarrow> and_then (stepped_issues policy samples) (\<lambda>issues.
               Inr (observation 0 0, join_issues progress (issues, [])))
           | Other_mode \<Rightarrow> Inr (observation 0 0, progress)))"

text \<open>\<open>evaluate_timing\<close> raises \<open>TimingValidationError\<close> when there is any issue.\<close>

datatype timing_result =
    Timing_observed timing_observation
  | Timing_refused timing_observation timing_issues

definition evaluate_timing ::
  "time_mode \<Rightarrow> time_policy \<Rightarrow> clock_sample list \<Rightarrow> rat \<Rightarrow> clock_window option
    \<Rightarrow> timing_input_error + timing_result" where
  "evaluate_timing mode policy samples rtf_window_sec window =
     and_then (evaluate_timing_issues mode policy samples rtf_window_sec window) (\<lambda>(observation, issues).
       Inr (if fst issues \<noteq> [] \<or> snd issues \<noteq> [] then Timing_refused observation issues
            else Timing_observed observation))"

text \<open>The attributes of the error: proven violation, and the paths left without a conclusion.\<close>

definition timing_failed :: "timing_issues \<Rightarrow> bool" where
  "timing_failed issues \<longleftrightarrow> fst issues \<noteq> []"

definition unevaluated_path :: "string \<Rightarrow> string" where
  "unevaluated_path path =
     (if path = ''$.time_policy.min_realtime_factor'' then ''$.clock_observation.real_time_factor''
      else if path = ''$.time_policy.max_deadline_miss_ratio''
      then ''$.clock_observation.deadline_miss_ratio'' else path)"

definition timing_unevaluated :: "timing_issues \<Rightarrow> string list" where
  "timing_unevaluated issues =
     sorted_list_of_set (set (map (unevaluated_path \<circ> timing_path) (snd issues)))"

section \<open>The bounds are sound for the true clock\<close>

text \<open>
  The true source clock: a function of the instant that never moves backwards and agrees with
  the recorded samples. Its rate over an interval is rounded like every ratio of the code.
\<close>

definition records :: "(int \<Rightarrow> int) \<Rightarrow> clock_sample list \<Rightarrow> bool" where
  "records clock samples \<longleftrightarrow>
     mono clock \<and> (\<forall>c \<in> set samples. clock (cs_observed_at_ns c) = cs_source_time_ns c)"

definition true_rate :: "(int \<Rightarrow> int) \<Rightarrow> int \<Rightarrow> int \<Rightarrow> rat" where
  "true_rate clock u d = fl (of_int (clock (u + d) - clock u) / of_int d)"

lemma records_source:
  "records clock samples \<Longrightarrow> i < length samples \<Longrightarrow> source samples i = clock (observed samples i)"
  by (simp add: records_def source_def observed_def)

lemma records_mono: "records clock samples \<Longrightarrow> u \<le> e \<Longrightarrow> clock u \<le> clock e"
  by (simp add: records_def monoD)

lemma rate_le: "x \<le> y \<Longrightarrow> 0 < d \<Longrightarrow> fl (of_int x / of_int d) \<le> fl (of_int y / of_int d)"
  by (intro f64.mono divide_right_mono) simp_all

lemma true_rate_nonneg: "records clock samples \<Longrightarrow> 0 < d \<Longrightarrow> 0 \<le> true_rate clock u d"
  using rate_le [of 0 "clock (u + d) - clock u" d] records_mono [of clock samples u "u + d"]
  by (simp add: true_rate_def)

text \<open>Progress between two recorded instants inside an interval.\<close>

lemma progress_le:
  assumes rec: "records clock samples" and "u \<le> e"
    and inside: "int left < right \<Longrightarrow> nat right < length samples \<and> u \<le> observed samples left \<and>
      observed samples (nat right) \<le> e"
  shows "recorded_progress samples left right \<le> clock e - clock u"
proof (cases "right \<le> int left")
  case True
  with records_mono [OF rec \<open>u \<le> e\<close>] show ?thesis by (simp add: recorded_progress_def)
next
  case False
  with inside have i: "nat right < length samples" "left < length samples"
    "u \<le> observed samples left" "observed samples (nat right) \<le> e" by auto
  have "source samples (nat right) \<le> clock e" "clock u \<le> source samples left"
    using records_source [OF rec] i records_mono [OF rec] by metis+
  with False show ?thesis by (simp add: recorded_progress_def)
qed

lemma first_at_or_after_bound:
  "first_at_or_after samples t < length samples \<Longrightarrow> t \<le> observed samples (first_at_or_after samples t)"
  using nth_length_takeWhile [of "\<lambda>c. cs_observed_at_ns c < t" samples]
  by (simp add: first_at_or_after_def observed_def)

lemma count_at_or_before_in:
  "k < count_at_or_before samples t \<Longrightarrow> k < length samples \<and> observed samples k \<le> t"
proof -
  assume k: "k < count_at_or_before samples t"
  then have "takeWhile (\<lambda>c. cs_observed_at_ns c \<le> t) samples ! k = samples ! k"
    by (simp add: count_at_or_before_def takeWhile_nth)
  moreover have "takeWhile (\<lambda>c. cs_observed_at_ns c \<le> t) samples ! k \<in>
      set (takeWhile (\<lambda>c. cs_observed_at_ns c \<le> t) samples)"
    using k by (simp add: count_at_or_before_def)
  ultimately have "observed samples k \<le> t" by (auto simp: observed_def dest: set_takeWhileD)
  moreover have "count_at_or_before samples t \<le> length samples"
    by (simp add: count_at_or_before_def length_takeWhile_le)
  ultimately show ?thesis using k by simp
qed

lemma count_at_or_before_next:
  "count_at_or_before samples t < length samples \<Longrightarrow> t < observed samples (count_at_or_before samples t)"
  using nth_length_takeWhile [of "\<lambda>c. cs_observed_at_ns c \<le> t" samples]
  by (simp add: count_at_or_before_def observed_def)

lemma interval_rate_le:
  assumes rec: "records clock samples" and "u \<le> s" "s < e" "u \<le> e'"
    and late: "\<forall>k < length samples. observed samples k \<le> e \<longrightarrow> observed samples k \<le> e'"
  shows "interval_realtime_factor samples s e \<le> fl (of_int (clock e' - clock u) / of_int (e - s))"
proof -
  define first right where "first = first_at_or_after samples s"
    and "right = int (count_at_or_before samples e) - 1"
  have "recorded_progress samples first right \<le> clock e' - clock u"
  proof (rule progress_le [OF rec \<open>u \<le> e'\<close>])
    assume lt: "int first < right"
    then have "nat right < count_at_or_before samples e" by (simp add: right_def)
    then have r: "nat right < length samples" "observed samples (nat right) \<le> e'"
      using count_at_or_before_in late by auto
    moreover have "s \<le> observed samples first"
      using lt r first_at_or_after_bound [of samples s] unfolding first_def by linarith
    then have "u \<le> observed samples first" using \<open>u \<le> s\<close> by simp
    ultimately show "nat right < length samples \<and> u \<le> observed samples first \<and>
        observed samples (nat right) \<le> e'" by simp
  qed
  from rate_le [OF this, of "e - s"] \<open>s < e\<close> show ?thesis
    by (simp add: interval_realtime_factor_def first_def right_def recorded_progress_def Let_def
        split: if_splits)
qed

lemma advance_left_stops:
  "advance_left samples t left < length samples \<Longrightarrow> t \<le> observed samples (advance_left samples t left)"
proof (induction samples t left rule: advance_left.induct)
  case (1 samples t left)
  then show ?case
    by (cases "left < length samples \<and> observed samples left < t") (auto simp: advance_left.simps)
qed

text \<open>Every window end of the loop contributes a bound.\<close>

lemma lower_loop:
  "snd (foldl (lower_step samples ws W) st cs) \<le> snd st \<and>
   (\<forall>(e, right) \<in> set cs. ws \<le> e - W \<longrightarrow> (\<exists>left. (left < length samples \<longrightarrow> e - W \<le> observed samples left) \<and>
      snd (foldl (lower_step samples ws W) st cs) \<le>
        fl (of_int (recorded_progress samples left right) / of_int W)))"
proof (induction cs arbitrary: st)
  case (Cons c cs)
  obtain left m where st: "st = (left, m)" by (cases st)
  obtain e right where c: "c = (e, right)" by (cases c)
  define st' where "st' = lower_step samples ws W st c"
  note IH = Cons.IH [of st']
  have fold: "foldl (lower_step samples ws W) st (c # cs) = foldl (lower_step samples ws W) st' cs"
    by (simp add: st'_def)
  show ?case
  proof (cases "e - W < ws")
    case True
    then have "st' = st" by (simp add: st'_def lower_step_def st c Let_def)
    with IH True show ?thesis unfolding fold by (auto simp: c)
  next
    case False
    define left' where "left' = advance_left samples (e - W) left"
    have step: "snd st' = min m (fl (of_int (recorded_progress samples left' right) / of_int W))"
      using False by (simp add: st'_def lower_step_def st c Let_def left'_def)
    have "left' < length samples \<longrightarrow> e - W \<le> observed samples left'"
      by (simp add: left'_def advance_left_stops)
    with IH step show ?thesis
      unfolding fold by (auto simp: c st intro!: exI [of _ left'] elim: order_trans)
  qed
qed simp

lemma window_ends_member:
  "r < length samples \<Longrightarrow> (observed samples r - 1, int r - 1) \<in> set (window_ends samples)"
  by (force simp: window_ends_def observed_def in_set_enumerate_eq)

lemma lower_bound_sound:
  assumes rec: "records clock samples" and W: "0 < W" and u: "cw_start_ns w \<le> u" "u + W \<le> cw_end_ns w"
  shows "measurement_realtime_factor samples w W \<le> true_rate clock u W"
proof -
  let ?s = "cw_start_ns w" and ?e = "cw_end_ns w" and ?t = "u + W"
  define edges where "edges = min (interval_realtime_factor samples ?s ?e)
    (min (interval_realtime_factor samples ?s (?s + W)) (interval_realtime_factor samples (?e - W) ?e))"
  define m where "m = snd (foldl (lower_step samples ?s W) (0, edges) (window_ends samples))"
  note loop = lower_loop [of samples ?s W "(0, edges)" "window_ends samples", folded m_def]
  have "m \<le> true_rate clock u W"
  proof (cases "count_at_or_before samples ?t < length samples")
    case False
    have "interval_realtime_factor samples (?e - W) ?e \<le> fl (of_int (clock ?t - clock u) / of_int (?e - (?e - W)))"
    proof (rule interval_rate_le [OF rec])
      show "\<forall>k < length samples. observed samples k \<le> ?e \<longrightarrow> observed samples k \<le> ?t"
        using False count_at_or_before_in [of _ samples ?t] by simp
    qed (use W u in auto)
    then have "edges \<le> true_rate clock u W" by (simp add: edges_def true_rate_def)
    with loop show ?thesis by simp
  next
    case True
    define r where "r = count_at_or_before samples ?t"
    have next_obs: "?t < observed samples r" "r < length samples"
      using True count_at_or_before_next r_def by auto
    define e where "e = observed samples r - 1"
    have "(e, int r - 1) \<in> set (window_ends samples)"
      using next_obs(2) by (simp add: e_def window_ends_member)
    moreover have start: "?s \<le> e - W" "u \<le> e - W" using next_obs(1) u by (simp_all add: e_def)
    ultimately obtain left where left: "left < length samples \<longrightarrow> e - W \<le> observed samples left"
      "m \<le> fl (of_int (recorded_progress samples left (int r - 1)) / of_int W)"
      using loop by fastforce
    have "recorded_progress samples left (int r - 1) \<le> clock ?t - clock u"
    proof (rule progress_le [OF rec])
      assume lt: "int left < int r - 1"
      then have "nat (int r - 1) < count_at_or_before samples ?t" by (simp add: r_def)
      from count_at_or_before_in [OF this] lt left(1) start(2) next_obs(2)
      show "nat (int r - 1) < length samples \<and> u \<le> observed samples left \<and>
          observed samples (nat (int r - 1)) \<le> ?t" by auto
    qed (use W in simp)
    from left(2) rate_le [OF this W] show ?thesis by (simp add: true_rate_def)
  qed
  then show ?thesis
    using u true_rate_nonneg [OF rec W, of u]
    by (simp add: measurement_realtime_factor_def edges_def m_def Let_def)
qed

lemma integral_lower_sound:
  assumes rec: "records clock samples" and w: "cw_start_ns w < cw_end_ns w"
  shows "measurement_realtime_factor samples w W \<le> true_rate clock (cw_start_ns w) (cw_end_ns w - cw_start_ns w)"
proof -
  let ?s = "cw_start_ns w" and ?e = "cw_end_ns w"
  let ?i = "interval_realtime_factor samples ?s ?e"
  have i: "?i \<le> true_rate clock ?s (?e - ?s)"
    using interval_rate_le [OF rec, of ?s ?s ?e ?e] w by (simp add: true_rate_def)
  define edges where "edges = min ?i
    (min (interval_realtime_factor samples ?s (?s + W)) (interval_realtime_factor samples (?e - W) ?e))"
  have "snd (foldl (lower_step samples ?s W) (0, edges) (window_ends samples)) \<le> ?i"
    using lower_loop [of samples ?s W "(0, edges)" "window_ends samples"] by (simp add: edges_def)
  with i true_rate_nonneg [OF rec, of "?e - ?s" ?s] w show ?thesis
    by (auto simp: measurement_realtime_factor_def edges_def Let_def)
qed

lemma advance_before_less:
  "left < n \<Longrightarrow> index \<le> n \<Longrightarrow> advance_before samples t index left < n"
proof (induction samples t index left rule: advance_before.induct)
  case (1 samples t index left)
  then show ?case
    by (cases "left + 1 < index \<and> observed samples (left + 1) \<le> t") (auto simp: advance_before.simps)
qed

text \<open>A finite bound of the loop comes from a recorded end and a sample before its window.\<close>

definition upper_from :: "clock_sample list \<Rightarrow> int \<Rightarrow> int \<Rightarrow> clock_sample \<Rightarrow> bound \<Rightarrow> bool" where
  "upper_from samples ws W c b \<longleftrightarrow> (\<exists>left < length samples. ws \<le> cs_observed_at_ns c - W \<and>
     observed samples left \<le> cs_observed_at_ns c - W \<and>
     b = Fin (fl (of_int (cs_source_time_ns c - source samples left) / of_int W)))"

lemma upper_loop:
  assumes "fst st < length samples" and "\<forall>(index, c) \<in> set cs. index \<le> length samples"
  shows "snd (foldl (upper_step samples ws W) st cs) = snd st \<or>
    (\<exists>(index, c) \<in> set cs. upper_from samples ws W c (snd (foldl (upper_step samples ws W) st cs)))"
  using assms
proof (induction cs arbitrary: st)
  case (Cons x cs)
  obtain left up where st: "st = (left, up)" by (cases st)
  obtain index c where x: "x = (index, c)" by (cases x)
  define st' where "st' = upper_step samples ws W st x"
  have fold: "foldl (upper_step samples ws W) st (x # cs) = foldl (upper_step samples ws W) st' cs"
    by (simp add: st'_def)
  have less: "advance_before samples t index left < length samples" for t
    using Cons.prems by (intro advance_before_less) (auto simp: st x)
  then have "fst st' < length samples"
    using Cons.prems by (simp add: st'_def upper_step_def st x Let_def)
  with Cons have IH: "snd (foldl (upper_step samples ws W) st' cs) = snd st' \<or>
    (\<exists>(index, c) \<in> set cs. upper_from samples ws W c (snd (foldl (upper_step samples ws W) st' cs)))"
    by simp
  have "snd st' = snd st \<or> upper_from samples ws W c (snd st')"
    using less by (auto simp: st'_def upper_step_def st x Let_def upper_from_def min_def)
  with IH show ?case unfolding fold by (auto simp: x)
qed simp

text \<open>The windows a measurement is judged on: every one of length W, and the whole.\<close>

definition measured_windows :: "clock_window \<Rightarrow> int \<Rightarrow> (int \<times> int) set" where
  "measured_windows w W = {(u, d). cw_start_ns w \<le> u \<and> u + d \<le> cw_end_ns w \<and>
     (d = W \<or> d = cw_end_ns w - cw_start_ns w)}"

lemma upper_bound_sound:
  assumes rec: "records clock samples" and W: "0 < W" and w: "cw_start_ns w < cw_end_ns w"
    and ne: "samples \<noteq> []" and inside: "\<forall>c \<in> set samples. cs_observed_at_ns c \<le> cw_end_ns w"
    and below: "measurement_realtime_factor_upper samples w W < Fin limit"
  shows "\<exists>(u, d) \<in> measured_windows w W. true_rate clock u d < limit"
proof -
  let ?s = "cw_start_ns w" and ?e = "cw_end_ns w"
  define up where "up = (if cs_observed_at_ns (hd samples) = ?s \<and> cs_observed_at_ns (last samples) = ?e
    then Fin (fl (of_int (cs_source_time_ns (last samples) - cs_source_time_ns (hd samples)) / of_int (?e - ?s)))
    else PosInf)"
  define r where "r = snd (foldl (upper_step samples ?s W) (0, up) (enumerate 0 samples))"
  have r: "r < Fin limit"
    using below by (simp add: measurement_realtime_factor_upper_def up_def r_def Let_def)
  have "\<forall>(index, c) \<in> set (enumerate 0 samples). index \<le> length samples"
    by (auto simp: in_set_enumerate_eq)
  then consider "r = up" | index c where "(index, c) \<in> set (enumerate 0 samples)" "upper_from samples ?s W c r"
    using upper_loop [of "(0, up)" samples "enumerate 0 samples" ?s W] ne by (auto simp: r_def)
  then show ?thesis
  proof cases
    case 1
    with r have edges: "cs_observed_at_ns (hd samples) = ?s" "cs_observed_at_ns (last samples) = ?e"
      by (auto simp: up_def split: if_splits)
    have "clock ?s = cs_source_time_ns (hd samples)" "clock ?e = cs_source_time_ns (last samples)"
      using rec edges hd_in_set [OF ne] last_in_set [OF ne] unfolding records_def by metis+
    with 1 r edges have "true_rate clock ?s (?e - ?s) < limit" by (simp add: up_def true_rate_def)
    moreover have "(?s, ?e - ?s) \<in> measured_windows w W" by (simp add: measured_windows_def)
    ultimately show ?thesis by blast
  next
    case 2
    then have c: "c \<in> set samples" by (auto simp: in_set_enumerate_eq)
    define u where "u = cs_observed_at_ns c - W"
    from 2 obtain left where left: "left < length samples" "?s \<le> u" "observed samples left \<le> u"
      "r = Fin (fl (of_int (cs_source_time_ns c - source samples left) / of_int W))"
      by (auto simp: upper_from_def u_def)
    have "source samples left \<le> clock u" "clock (u + W) = cs_source_time_ns c"
      using records_source [OF rec left(1)] records_mono [OF rec left(3)] rec c
      by (auto simp: records_def u_def)
    then have "true_rate clock u W \<le> fl (of_int (cs_source_time_ns c - source samples left) / of_int W)"
      unfolding true_rate_def using W by (intro rate_le) auto
    with r left(4) have "true_rate clock u W < limit" by simp
    moreover have "(u, W) \<in> measured_windows w W"
      using inside c left(2) by (simp add: u_def measured_windows_def)
    ultimately show ?thesis by blast
  qed
qed

definition rtf_violated :: "timing_issues \<Rightarrow> bool" where
  "rtf_violated issues \<longleftrightarrow> (\<exists>upper lower. Rtf_below upper lower \<in> set (fst issues))"

definition realtime_truth ::
  "(int \<Rightarrow> int) \<Rightarrow> rat \<Rightarrow> clock_window \<Rightarrow> int \<Rightarrow> timing_result \<Rightarrow> bool" where
  "realtime_truth clock limit w W result \<longleftrightarrow> (case result of
     Timing_observed _ \<Rightarrow> \<forall>(u, d) \<in> measured_windows w W. limit \<le> true_rate clock u d
   | Timing_refused _ issues \<Rightarrow>
       rtf_violated issues \<longrightarrow> (\<exists>(u, d) \<in> measured_windows w W. true_rate clock u d < limit))"

definition rtf_window_ns :: "rat \<Rightarrow> int" where
  "rtf_window_ns seconds = round_even (fl (seconds * 1000000000))"

lemma rtf_window_pos: "1 \<le> seconds \<Longrightarrow> 0 < rtf_window_ns seconds"
proof -
  assume "1 \<le> seconds"
  moreover have "fl 1000000000 = 1000000000"
    using f64_int [of 1000000000] by (simp add: is_f64_def)
  ultimately have "1000000000 \<le> fl (seconds * 1000000000)" by (intro f64.ge_fixed) simp_all
  then have "1000000000 \<le> rtf_window_ns seconds"
    unfolding rtf_window_ns_def by (intro round_even_ge) simp
  then show ?thesis by simp
qed

lemma rtf_violated_parts [simp]:
  "rtf_violated (join_issues a b) \<longleftrightarrow> rtf_violated a \<or> rtf_violated b"
  "rtf_violated (realtime_issues policy lower upper) \<longleftrightarrow> upper < Fin (tp_min_realtime_factor policy)"
  "\<not> rtf_violated (when_issue p Deadline_not_a_ratio, xs)"
  "\<not> rtf_violated (when_issue p (Deadline_exceeded v), xs)"
  "\<not> rtf_violated (when_issue p Source_moved_backwards, xs)"
  by (auto simp: rtf_violated_def join_issues_def realtime_issues_def when_issue_def Let_def)

text \<open>The factor part of a realtime evaluation.\<close>

lemma windowed_factor_cases:
  assumes "windowed_realtime_factor samples W (Some w) = (issues, lower, upper)"
  shows "issues = ([], []) \<Longrightarrow> lower = measurement_realtime_factor samples w W"
    and "upper < Fin limit \<Longrightarrow> samples \<noteq> [] \<and> upper = measurement_realtime_factor_upper samples w W"
    and "\<not> rtf_violated issues"
  using assms
  by (auto simp: windowed_realtime_factor_def clock_coverage_def Let_def rtf_violated_def
      split: if_splits prod.splits)

lemma evaluate_realtime_cases:
  assumes "evaluate_realtime policy samples W (Some w) = (issues, rtf, deadline)"
  obtains factor_issues lower upper
  where "windowed_realtime_factor samples W (Some w) = (factor_issues, lower, upper)"
    and "issues = ([], []) \<Longrightarrow> factor_issues = ([], []) \<and> tp_min_realtime_factor policy \<le> lower"
    and "rtf_violated issues \<Longrightarrow> rtf_violated factor_issues \<or> upper < Fin (tp_min_realtime_factor policy)"
proof -
  obtain factor_issues lower upper where f:
    "windowed_realtime_factor samples W (Some w) = (factor_issues, lower, upper)"
    by (cases "windowed_realtime_factor samples W (Some w)") auto
  show ?thesis
  proof (rule that [OF f])
    assume "issues = ([], [])"
    with assms f show "factor_issues = ([], []) \<and> tp_min_realtime_factor policy \<le> lower"
      by (cases factor_issues) (auto simp: evaluate_realtime_def realtime_issues_def join_issues_def
          Let_def split: prod.splits if_splits)
  next
    assume "rtf_violated issues"
    with assms f show "rtf_violated factor_issues \<or> upper < Fin (tp_min_realtime_factor policy)"
      by (auto simp: evaluate_realtime_def Let_def split: prod.splits)
  qed
qed

text \<open>
  C32: The realtime verdict is the truth about the source clock. Whatever clock produced the
  recorded callbacks, an accepted measurement means that the clock kept the required factor in
  every window of the requested length inside the measurement and over the whole of it, also
  between callbacks; and a reported violation of the factor names a window in which the clock
  really ran slower. What the callbacks do not determine is neither accepted nor a violation.
\<close>

theorem realtime_verdict_sound:
  assumes "evaluate_timing Simulation_realtime policy samples rtf_window_sec (Some w) = Inr result"
    and "validate_clock_window w = None" and "records clock samples"
    and "\<forall>c \<in> set samples. cs_observed_at_ns c \<le> cw_end_ns w"
  shows "realtime_truth clock (tp_min_realtime_factor policy) w (rtf_window_ns rtf_window_sec) result"
proof -
  let ?W = "rtf_window_ns rtf_window_sec" and ?limit = "tp_min_realtime_factor policy"
  have w: "cw_start_ns w < cw_end_ns w" using assms(2) by (simp add: validate_clock_window_def)
  have W: "0 < ?W"
    using assms(1) by (intro rtf_window_pos) (auto simp: evaluate_timing_def evaluate_timing_issues_def
        split: if_splits)
  obtain unavailable monotonic hz where progress: "clock_progress samples = (unavailable, monotonic, hz)"
    by (cases "clock_progress samples") auto
  obtain issues rtf deadline where ev: "evaluate_realtime policy samples ?W (Some w) = (issues, rtf, deadline)"
    by (cases "evaluate_realtime policy samples ?W (Some w)") auto
  define all_issues where "all_issues =
    join_issues (when_issue (samples \<noteq> [] \<and> \<not> monotonic) Source_moved_backwards, unavailable) issues"
  have "\<not> rtf_window_sec < 1"
    using assms(1) by (auto simp: evaluate_timing_def evaluate_timing_issues_def)
  then have "\<exists>ob. evaluate_timing_issues Simulation_realtime policy samples rtf_window_sec (Some w)
      = Inr (ob, all_issues)"
    using ev by (simp add: evaluate_timing_issues_def progress rtf_window_ns_def all_issues_def Let_def)
  then have result: "result = Timing_observed ob \<Longrightarrow> all_issues = ([], [])"
    "result = Timing_refused ob issues' \<Longrightarrow> issues' = all_issues" for ob issues'
    using assms(1) by (cases all_issues; auto simp: evaluate_timing_def split: if_splits)+
  obtain factor_issues lower upper where
    f: "windowed_realtime_factor samples ?W (Some w) = (factor_issues, lower, upper)"
    and clean: "issues = ([], []) \<Longrightarrow> factor_issues = ([], []) \<and> ?limit \<le> lower"
    and viol: "rtf_violated issues \<Longrightarrow> rtf_violated factor_issues \<or> upper < Fin ?limit"
    using evaluate_realtime_cases [OF ev] by blast
  show ?thesis
  proof (cases result)
    case (Timing_observed ob)
    with result have "issues = ([], [])"
      by (cases issues) (auto simp: all_issues_def join_issues_def)
    with clean windowed_factor_cases(1) [OF f]
    have "?limit \<le> measurement_realtime_factor samples w ?W" by simp
    then have "?limit \<le> true_rate clock u d" if "(u, d) \<in> measured_windows w ?W" for u d
      using that lower_bound_sound [OF assms(3) W] integral_lower_sound [OF assms(3) w, of ?W]
      by (fastforce simp: measured_windows_def)
    with Timing_observed show ?thesis by (auto simp: realtime_truth_def)
  next
    case (Timing_refused ob issues')
    have "\<exists>(u, d) \<in> measured_windows w ?W. true_rate clock u d < ?limit" if "rtf_violated issues'"
    proof -
      have "upper < Fin ?limit"
        using that result(2) [OF Timing_refused] viol windowed_factor_cases(3) [OF f]
        by (auto simp: all_issues_def)
      with windowed_factor_cases(2) [OF f, of ?limit]
      show ?thesis using upper_bound_sound [OF assms(3) W w _ assms(4)] by auto
    qed
    with Timing_refused show ?thesis by (simp add: realtime_truth_def)
  qed
qed

section \<open>A clock at half speed\<close>

definition example_policy :: "rat \<Rightarrow> time_policy" where
  "example_policy limit = \<lparr>tp_min_realtime_factor = limit, tp_max_deadline_miss_ratio = 1,
     tp_min_clock_hz = 1, tp_step_size_sec = 1, tp_max_skipped_steps = 0\<rparr>"

definition example_callbacks :: "clock_sample list" where
  "example_callbacks = map (\<lambda>k. \<lparr>cs_observed_at_ns = 500000000 * k, cs_source_time_ns = 250000000 * k,
     cs_deadline_miss_ratio = Some 0\<rparr>) [0, 1, 2, 3, 4]"

definition example_measurement :: clock_window where
  "example_measurement = \<lparr>cw_start_ns = 0, cw_end_ns = 2000000000, cw_max_sample_gap_ns = 500000000,
     cw_deadline_miss_ratio = None\<rparr>"

definition half_speed :: "int \<Rightarrow> int" where
  "half_speed t = t div 2"

lemma half_speed_records: "records half_speed example_callbacks"
  by (auto simp: records_def half_speed_def example_callbacks_def mono_def zdiv_mono1)

definition timing_accepted :: "timing_input_error + timing_result \<Rightarrow> bool" where
  "timing_accepted r \<longleftrightarrow> (case r of Inr (Timing_observed _) \<Rightarrow> True | _ \<Rightarrow> False)"

lemma example_accepted:
  "timing_accepted (evaluate_timing Simulation_realtime (example_policy (1 / 5)) example_callbacks 1
     (Some example_measurement))"
  by code_simp

theorem realtime_verdict_sound_witness:
  "\<exists>observation. evaluate_timing Simulation_realtime (example_policy (1 / 5)) example_callbacks 1
       (Some example_measurement) = Inr (Timing_observed observation) \<and>
     realtime_truth half_speed (1 / 5) example_measurement (rtf_window_ns 1) (Timing_observed observation)"
proof -
  obtain observation where ob: "evaluate_timing Simulation_realtime (example_policy (1 / 5))
      example_callbacks 1 (Some example_measurement) = Inr (Timing_observed observation)"
    using example_accepted by (auto simp: timing_accepted_def split: sum.splits timing_result.splits)
  have "validate_clock_window example_measurement = None"
    by (simp add: validate_clock_window_def example_measurement_def)
  moreover have "\<forall>c \<in> set example_callbacks. cs_observed_at_ns c \<le> cw_end_ns example_measurement"
    by (simp add: example_callbacks_def example_measurement_def)
  ultimately have "realtime_truth half_speed (tp_min_realtime_factor (example_policy (1 / 5)))
      example_measurement (rtf_window_ns 1) (Timing_observed observation)"
    by (rule realtime_verdict_sound [OF ob _ half_speed_records])
  with ob show ?thesis by (simp add: example_policy_def)
qed

end
