(* ===== verification/Readiness.thy ===== *)
theory Readiness
  imports Metric_Windows
begin

text \<open>
  ROS graph readiness (harness/readiness.py). A snapshot is compared with the expected graph,
  and \<open>wait_for_readiness\<close> polls until the graph stays ready for one uninterrupted window. The
  observer and the clock are the environment: the sequence of (snapshot, instant after it)
  pairs the loop sees. An issue keeps the values its message shows, so two issues are equal
  exactly when the source's path, message and status agree.
\<close>

section \<open>Snapshots and the expected graph\<close>

record topic_observation =
  to_types :: "string list"
  to_publishers :: int
  to_subscribers :: int
  to_first_message_at_ns :: "int option"
  to_qos_compatible :: bool

record endpoint_observation =
  eo_types :: "string list"
  eo_server_nodes :: int
  eo_client_nodes :: int

record lifecycle_observation =
  lo_state :: string
  lo_observed_at_ns :: int

record graph_snapshot =
  gs_observed_at_ns :: int
  gs_topics :: "(string \<times> topic_observation) list"
  gs_services :: "(string \<times> endpoint_observation) list"
  gs_actions :: "(string \<times> endpoint_observation) list"
  gs_lifecycle_nodes :: "(string \<times> lifecycle_observation) list"
  gs_node_names :: "string list option"

record expected_topic =
  xt_name :: string
  xt_type :: string
  xt_min_publishers :: int
  xt_min_subscribers :: int
  xt_first_message_timeout_sec :: rat

record expected_endpoint =
  xe_name :: string
  xe_type :: string

record expected_node =
  xn_name :: string
  xn_required_state :: string
  xn_timeout_sec :: rat
  xn_stable_for_sec :: rat

record expected_graph =
  xg_topics :: "expected_topic list"
  xg_services :: "expected_endpoint list"
  xg_actions :: "expected_endpoint list"
  xg_lifecycle_nodes :: "expected_node list"

datatype endpoint_kind = Services | Actions

datatype issue =
    Topic_absent nat string
  | Topic_type nat string "string list"
  | Too_few_publishers nat int int
  | Too_few_subscribers nat int int
  | Qos_incompatible nat
  | No_message nat
  | Server_absent endpoint_kind nat string
  | Endpoint_type endpoint_kind nat string "string list"
  | Node_absent nat string
  | State_unavailable nat string
  | Wrong_state nat string string string
  | Message_expired nat rat
  | State_expired nat string "string option"
  | No_graph_snapshot

text \<open>An unavailable observation is an error, everything else a failure.\<close>

fun issue_status :: "issue \<Rightarrow> outcome" where
  "issue_status (No_message _) = Error"
| "issue_status (State_unavailable _ _) = Error"
| "issue_status No_graph_snapshot = Error"
| "issue_status _ = Failed"

section \<open>One snapshot\<close>

text \<open>The issues of a loop over enumerate: each index and item contributes a list.\<close>

definition issues_of :: "(nat \<Rightarrow> 'a \<Rightarrow> 'i list) \<Rightarrow> 'a list \<Rightarrow> 'i list" where
  "issues_of f xs = concat (map (\<lambda>(i, x). f i x) (enumerate 0 xs))"

definition when_issue :: "bool \<Rightarrow> 'i \<Rightarrow> 'i list" where
  "when_issue b i = (if b then [i] else [])"

definition check_topic :: "graph_snapshot \<Rightarrow> nat \<Rightarrow> expected_topic \<Rightarrow> issue list" where
  "check_topic snapshot i x =
     (case map_of (gs_topics snapshot) (xt_name x) of
        None \<Rightarrow> [Topic_absent i (xt_name x)]
      | Some o' \<Rightarrow>
          when_issue (xt_type x \<notin> set (to_types o')) (Topic_type i (xt_type x) (to_types o'))
        @ when_issue (to_publishers o' < xt_min_publishers x)
            (Too_few_publishers i (xt_min_publishers x) (to_publishers o'))
        @ when_issue (to_subscribers o' < xt_min_subscribers x)
            (Too_few_subscribers i (xt_min_subscribers x) (to_subscribers o'))
        @ when_issue (\<not> to_qos_compatible o') (Qos_incompatible i)
        @ when_issue (to_first_message_at_ns o' = None) (No_message i))"

definition check_topics :: "expected_topic list \<Rightarrow> graph_snapshot \<Rightarrow> issue list" where
  "check_topics expected snapshot = issues_of (check_topic snapshot) expected"

definition check_endpoint ::
  "endpoint_kind \<Rightarrow> (string \<times> endpoint_observation) list \<Rightarrow> nat \<Rightarrow> expected_endpoint \<Rightarrow> issue list" where
  "check_endpoint kind observed i x =
     (case map_of observed (xe_name x) of
        None \<Rightarrow> [Server_absent kind i (xe_name x)]
      | Some o' \<Rightarrow> if eo_server_nodes o' < 1 then [Server_absent kind i (xe_name x)]
          else when_issue (xe_type x \<notin> set (eo_types o'))
                 (Endpoint_type kind i (xe_type x) (eo_types o')))"

definition check_endpoints ::
  "endpoint_kind \<Rightarrow> expected_endpoint list \<Rightarrow> (string \<times> endpoint_observation) list \<Rightarrow> issue list" where
  "check_endpoints kind expected observed = issues_of (check_endpoint kind observed) expected"

definition check_node :: "graph_snapshot \<Rightarrow> nat \<Rightarrow> expected_node \<Rightarrow> issue list" where
  "check_node snapshot i x =
     (let name = xn_name x in
      if (case gs_node_names snapshot of None \<Rightarrow> False | Some names \<Rightarrow> name \<notin> set names)
      then [Node_absent i name]
      else (case map_of (gs_lifecycle_nodes snapshot) name of
              None \<Rightarrow> [State_unavailable i name]
            | Some o' \<Rightarrow> if lo_state o' = ''unknown'' then [State_unavailable i name]
                else when_issue (lo_state o' \<noteq> xn_required_state x)
                       (Wrong_state i name (xn_required_state x) (lo_state o'))))"

definition check_lifecycle :: "expected_node list \<Rightarrow> graph_snapshot \<Rightarrow> issue list" where
  "check_lifecycle expected snapshot = issues_of (check_node snapshot) expected"

definition evaluate_graph :: "expected_graph \<Rightarrow> graph_snapshot \<Rightarrow> issue list" where
  "evaluate_graph graph snapshot =
     check_topics (xg_topics graph) snapshot
     @ check_endpoints Services (xg_services graph) (gs_services snapshot)
     @ check_endpoints Actions (xg_actions graph) (gs_actions snapshot)
     @ check_lifecycle (xg_lifecycle_nodes graph) snapshot"

definition expired_topic :: "graph_snapshot \<Rightarrow> rat \<Rightarrow> nat \<Rightarrow> expected_topic \<Rightarrow> issue list" where
  "expired_topic snapshot elapsed i x = when_issue
     (fl (xt_first_message_timeout_sec x) \<le> elapsed \<and>
      (case map_of (gs_topics snapshot) (xt_name x) of
         None \<Rightarrow> True | Some o' \<Rightarrow> to_first_message_at_ns o' = None))
     (Message_expired i (xt_first_message_timeout_sec x))"

definition expired_node :: "graph_snapshot \<Rightarrow> rat \<Rightarrow> nat \<Rightarrow> expected_node \<Rightarrow> issue list" where
  "expired_node snapshot elapsed i x =
     (let observed = map_of (gs_lifecycle_nodes snapshot) (xn_name x) in when_issue
       (fl (xn_timeout_sec x) \<le> elapsed \<and>
        (case observed of None \<Rightarrow> True | Some o' \<Rightarrow> lo_state o' \<noteq> xn_required_state x))
       (State_expired i (xn_required_state x) (map_option lo_state observed)))"

definition expired_readiness_issues :: "expected_graph \<Rightarrow> graph_snapshot \<Rightarrow> rat \<Rightarrow> issue list" where
  "expired_readiness_issues graph snapshot elapsed =
     issues_of (expired_topic snapshot elapsed) (xg_topics graph)
     @ issues_of (expired_node snapshot elapsed) (xg_lifecycle_nodes graph)"

section \<open>The polling loop\<close>

text \<open>\<open>int(seconds * 1_000_000_000)\<close> of a float.\<close>

definition whole_ns :: "rat \<Rightarrow> int" where
  "whole_ns seconds = py_int (fl (seconds * 1000000000))"

definition required_stability :: "expected_graph \<Rightarrow> rat \<Rightarrow> rat" where
  "required_stability graph stable_for_sec =
     max stable_for_sec
       (case map (\<lambda>n. fl (xn_stable_for_sec n)) (xg_lifecycle_nodes graph) of
          [] \<Rightarrow> 0 | v # vs \<Rightarrow> Max (set (v # vs)))"

record wait_config =
  wc_graph :: expected_graph
  wc_started_at_ns :: int
  wc_deadline_ns :: int
  wc_required_ns :: int

datatype wait_outcome =
    Graph_ready graph_snapshot int rat
  | Readiness_timeout "issue list"

type_synonym poll = "graph_snapshot \<times> int"

text \<open>One pass of the loop body: an outcome, or the first-ready instant to go on with.\<close>

definition poll_step :: "wait_config \<Rightarrow> poll \<Rightarrow> int option \<Rightarrow> wait_outcome + int option" where
  "poll_step cfg p first_ready =
     (case p of (snapshot, current) \<Rightarrow>
       let issues = evaluate_graph (wc_graph cfg) snapshot;
           elapsed = fl (of_int (current - wc_started_at_ns cfg) / 1000000000);
           expired = expired_readiness_issues (wc_graph cfg) snapshot elapsed;
           ready_at = (case first_ready of None \<Rightarrow> current | Some t \<Rightarrow> t);
           go_on = (\<lambda>next_ready. if wc_deadline_ns cfg \<le> current then Inl (Readiness_timeout issues)
                                 else Inr next_ready)
       in if expired \<noteq> [] then Inl (Readiness_timeout expired)
          else if issues \<noteq> [] then go_on None
          else if wc_required_ns cfg \<le> current - ready_at
          then Inl (Graph_ready snapshot ready_at (fl (of_int (current - ready_at) / 1000000000)))
          else go_on (Some ready_at))"

text \<open>The loop may wait forever when the clock never reaches the deadline: that is None.\<close>

partial_function (option) wait_loop ::
  "wait_config \<Rightarrow> (nat \<Rightarrow> poll) \<Rightarrow> nat \<Rightarrow> int option \<Rightarrow> (nat \<times> wait_outcome) option" where
  "wait_loop cfg polls n first_ready =
     (case poll_step cfg (polls n) first_ready of
        Inl outcome \<Rightarrow> Some (n, outcome)
      | Inr first' \<Rightarrow> wait_loop cfg polls (Suc n) first')"

definition wait_config_of :: "expected_graph \<Rightarrow> rat \<Rightarrow> rat \<Rightarrow> int \<Rightarrow> wait_config" where
  "wait_config_of graph timeout_sec stable_for_sec started_at =
     \<lparr>wc_graph = graph, wc_started_at_ns = started_at,
      wc_deadline_ns = started_at + whole_ns timeout_sec,
      wc_required_ns = whole_ns (required_stability graph stable_for_sec)\<rparr>"

definition wait_for_readiness ::
  "expected_graph \<Rightarrow> rat \<Rightarrow> rat \<Rightarrow> int \<Rightarrow> (nat \<Rightarrow> poll) \<Rightarrow> (nat \<times> wait_outcome) option" where
  "wait_for_readiness graph timeout_sec stable_for_sec started_at polls =
     wait_loop (wait_config_of graph timeout_sec stable_for_sec started_at) polls 0 None"

section \<open>Reachable states of the loop\<close>

inductive waiting :: "wait_config \<Rightarrow> (nat \<Rightarrow> poll) \<Rightarrow> nat \<Rightarrow> int option \<Rightarrow> bool"
  for cfg :: wait_config and polls :: "nat \<Rightarrow> poll" where
  start: "waiting cfg polls 0 None"
| again: "waiting cfg polls n f \<Longrightarrow> poll_step cfg (polls n) f = Inr f' \<Longrightarrow>
    waiting cfg polls (Suc n) f'"

definition ready :: "wait_config \<Rightarrow> poll \<Rightarrow> bool" where
  "ready cfg p \<longleftrightarrow> evaluate_graph (wc_graph cfg) (fst p) = []"

definition expired :: "wait_config \<Rightarrow> poll \<Rightarrow> bool" where
  "expired cfg p \<longleftrightarrow> expired_readiness_issues (wc_graph cfg) (fst p)
     (fl (of_int (snd p - wc_started_at_ns cfg) / 1000000000)) \<noteq> []"

definition ready_at :: "poll \<Rightarrow> int option \<Rightarrow> int" where
  "ready_at p f = (case f of None \<Rightarrow> snd p | Some t \<Rightarrow> t)"

lemma poll_step_Inr:
  "poll_step cfg p f = Inr f' \<longleftrightarrow> \<not> expired cfg p \<and> snd p < wc_deadline_ns cfg \<and>
     (if ready cfg p then snd p - ready_at p f < wc_required_ns cfg \<and> f' = Some (ready_at p f)
      else f' = None)"
  by (cases p; cases f) (auto simp: poll_step_def ready_def expired_def ready_at_def Let_def not_le)

lemma poll_step_ready:
  "poll_step cfg p f = Inl (Graph_ready snapshot t d) \<longleftrightarrow> \<not> expired cfg p \<and> ready cfg p \<and>
     wc_required_ns cfg \<le> snd p - ready_at p f \<and> snapshot = fst p \<and> t = ready_at p f \<and>
     d = fl (of_int (snd p - t) / 1000000000)"
  by (cases p; cases f) (auto simp: poll_step_def ready_def expired_def ready_at_def Let_def not_le)

text \<open>The polls from the j-th up to before the n-th form one maximal run of ready graphs.\<close>

definition ready_run :: "wait_config \<Rightarrow> (nat \<Rightarrow> poll) \<Rightarrow> nat \<Rightarrow> nat \<Rightarrow> bool" where
  "ready_run cfg polls j n \<longleftrightarrow> j < n \<and> (\<forall>k. j \<le> k \<and> k < n \<longrightarrow> ready cfg (polls k)) \<and>
     (j = 0 \<or> \<not> ready cfg (polls (j - 1)))"

lemma ready_run_Suc: "ready_run cfg polls j n \<Longrightarrow> ready cfg (polls n) \<Longrightarrow> ready_run cfg polls j (Suc n)"
  by (auto simp: ready_run_def less_Suc_eq)

lemma waiting_invariant:
  assumes "waiting cfg polls n f"
  shows "(\<forall>k < n. \<not> expired cfg (polls k) \<and> snd (polls k) < wc_deadline_ns cfg) \<and>
    (case f of None \<Rightarrow> n = 0 \<or> \<not> ready cfg (polls (n - 1))
     | Some t \<Rightarrow> \<exists>j. ready_run cfg polls j n \<and> t = snd (polls j))"
  using assms
proof (induction rule: waiting.induct)
  case (again n f f')
  note step = again.hyps(2) [unfolded poll_step_Inr]
  have before: "\<forall>k < Suc n. \<not> expired cfg (polls k) \<and> snd (polls k) < wc_deadline_ns cfg"
    using again.IH step by (auto simp: less_Suc_eq)
  show ?case
  proof (cases "ready cfg (polls n)")
    case False
    with step before show ?thesis by simp
  next
    case True
    have "\<exists>j. ready_run cfg polls j (Suc n) \<and> ready_at (polls n) f = snd (polls j)"
    proof (cases f)
      case None
      with again.IH True show ?thesis
        by (intro exI [of _ n]) (auto simp: ready_run_def ready_at_def less_Suc_eq)
    next
      case (Some t)
      with again.IH obtain j where "ready_run cfg polls j n" "t = snd (polls j)" by auto
      with True Some show ?thesis by (auto simp: ready_at_def intro: ready_run_Suc)
    qed
    with step True before show ?thesis by simp
  qed
qed simp

lemma wait_loop_outcome:
  assumes "wait_loop cfg polls n f = Some r"
  shows "waiting cfg polls n f \<longrightarrow>
    (\<exists>f'. waiting cfg polls (fst r) f' \<and> poll_step cfg (polls (fst r)) f' = Inl (snd r))"
proof (rule wait_loop.raw_induct [OF _ assms], goal_cases)
  case (1 loop cfg polls n f r)
  from 1(2) show ?case by (auto split: sum.splits dest: 1(1) intro: waiting.again)
qed

lemma wait_loop_returns:
  assumes "\<And>f. waiting cfg polls m f \<Longrightarrow> \<exists>outcome. poll_step cfg (polls m) f = Inl outcome"
    and "n \<le> m" and "waiting cfg polls n f"
  shows "\<exists>k outcome. wait_loop cfg polls n f = Some (k, outcome) \<and> k \<le> m"
  using assms(2,3)
proof (induction "m - n" arbitrary: n f)
  case 0
  then obtain outcome where "poll_step cfg (polls n) f = Inl outcome"
    using assms(1) by (metis diff_is_0_eq le_antisym)
  then show ?case using \<open>n \<le> m\<close> by (subst wait_loop.simps) simp
next
  case (Suc d)
  show ?case
  proof (cases "poll_step cfg (polls n) f")
    case (Inl outcome)
    then show ?thesis using \<open>n \<le> m\<close> by (subst wait_loop.simps) simp
  next
    case (Inr f')
    then have "waiting cfg polls (Suc n) f'" using Suc.prems by (auto intro: waiting.again)
    with Suc have "\<exists>k outcome. wait_loop cfg polls (Suc n) f' = Some (k, outcome) \<and> k \<le> m"
      by (intro Suc.hyps(1)) auto
    with Inr show ?thesis by (subst wait_loop.simps) simp
  qed
qed

lemma poll_step_timeout:
  "poll_step cfg p f = Inl (Readiness_timeout late) \<Longrightarrow> expired cfg p \<or>
     wc_deadline_ns cfg \<le> snd p \<and> (\<not> ready cfg p \<or> snd p - ready_at p f < wc_required_ns cfg)"
  by (cases p; cases f)
    (auto simp: poll_step_def ready_def expired_def ready_at_def Let_def not_le split: if_splits)

section \<open>What readiness means\<close>

definition stable_readiness ::
  "wait_config \<Rightarrow> (nat \<Rightarrow> poll) \<Rightarrow> nat \<Rightarrow> graph_snapshot \<Rightarrow> int \<Rightarrow> bool" where
  "stable_readiness cfg polls n snapshot first \<longleftrightarrow>
     (\<exists>j. ready_run cfg polls j (Suc n) \<and> first = snd (polls j)) \<and>
     wc_required_ns cfg \<le> snd (polls n) - first \<and> snapshot = fst (polls n) \<and>
     (\<forall>k < n. \<not> expired cfg (polls k) \<and> snd (polls k) < wc_deadline_ns cfg)"

text \<open>
  C26: A graph reported ready was ready in every poll of one uninterrupted run, from the
  reported first instant to the reported snapshot, for at least the required stability, and
  no deadline had passed before.
\<close>

theorem readiness_is_stable:
  assumes "wait_for_readiness graph timeout stability started polls = Some (n, Graph_ready snapshot first d)"
  shows "stable_readiness (wait_config_of graph timeout stability started) polls n snapshot first"
proof -
  let ?cfg = "wait_config_of graph timeout stability started"
  obtain f where w: "waiting ?cfg polls n f"
    and step: "poll_step ?cfg (polls n) f = Inl (Graph_ready snapshot first d)"
    using wait_loop_outcome [OF assms [unfolded wait_for_readiness_def]] waiting.start by auto
  note inv = waiting_invariant [OF w]
  have r: "ready ?cfg (polls n)" "first = ready_at (polls n) f"
    "wc_required_ns ?cfg \<le> snd (polls n) - first" "snapshot = fst (polls n)"
    using step by (simp_all add: poll_step_ready)
  have "\<exists>j. ready_run ?cfg polls j (Suc n) \<and> first = snd (polls j)"
  proof (cases f)
    case None
    with inv r show ?thesis
      by (intro exI [of _ n]) (auto simp: ready_run_def ready_at_def less_Suc_eq)
  next
    case (Some t)
    with inv obtain j where "ready_run ?cfg polls j n" "t = snd (polls j)" by auto
    with r Some show ?thesis by (auto simp: ready_at_def intro: ready_run_Suc)
  qed
  with r inv show ?thesis by (simp add: stable_readiness_def)
qed

text \<open>
  C27: The wait always ends: as soon as one poll is taken at or after the deadline, the loop
  has returned a ready graph or a timeout by that poll.
\<close>

theorem readiness_wait_ends:
  assumes "started + whole_ns timeout \<le> snd (polls m)"
  shows "\<exists>n outcome. wait_for_readiness graph timeout stability started polls = Some (n, outcome) \<and> n \<le> m"
  unfolding wait_for_readiness_def
proof (rule wait_loop_returns)
  let ?cfg = "wait_config_of graph timeout stability started"
  show "\<exists>outcome. poll_step ?cfg (polls m) f = Inl outcome" for f
  proof (cases "poll_step ?cfg (polls m) f")
    case (Inr f')
    with assms show ?thesis by (simp add: poll_step_Inr wait_config_of_def)
  qed simp
qed (simp_all add: waiting.start)

definition persistently_ready :: "wait_config \<Rightarrow> (nat \<Rightarrow> poll) \<Rightarrow> nat \<Rightarrow> nat \<Rightarrow> bool" where
  "persistently_ready cfg polls j m \<longleftrightarrow> j \<le> m \<and>
     (\<forall>k \<le> m. \<not> expired cfg (polls k) \<and> (k < m \<longrightarrow> snd (polls k) < wc_deadline_ns cfg)) \<and>
     (\<forall>k. j \<le> k \<and> k \<le> m \<longrightarrow> ready cfg (polls k)) \<and> (\<forall>k \<le> j. snd (polls k) \<le> snd (polls j)) \<and>
     wc_required_ns cfg \<le> snd (polls m) - snd (polls j)"

lemma persistent_ready_at:
  assumes "persistently_ready cfg polls j m" and w: "waiting cfg polls m f"
  shows "wc_required_ns cfg \<le> snd (polls m) - ready_at (polls m) f"
proof -
  note p = assms(1) [unfolded persistently_ready_def]
  note inv = waiting_invariant [OF w, THEN conjunct2]
  have "ready_at (polls m) f \<le> snd (polls j)"
  proof (cases f)
    case None
    have "j = m"
    proof (rule ccontr)
      assume "j \<noteq> m"
      with p have "j \<le> m - 1" "m \<noteq> 0" by linarith+
      with p have "ready cfg (polls (m - 1))" by (metis diff_le_self)
      with inv None \<open>m \<noteq> 0\<close> show False by simp
    qed
    with None show ?thesis by (simp add: ready_at_def)
  next
    case (Some t)
    with inv obtain i where i: "ready_run cfg polls i m" "t = snd (polls i)" by auto
    have "i \<le> j"
    proof (rule ccontr)
      assume "\<not> i \<le> j"
      moreover have "i < m" using i(1) by (simp add: ready_run_def)
      ultimately have "j \<le> i - 1" "i - 1 \<le> m" by linarith+
      with p have "ready cfg (polls (i - 1))" by blast
      with i(1) \<open>\<not> i \<le> j\<close> show False by (simp add: ready_run_def)
    qed
    with p i Some show ?thesis by (simp add: ready_at_def)
  qed
  with p show ?thesis by linarith
qed

text \<open>
  C28: A graph that becomes ready and stays ready for the required stability, before the
  deadline and with no per-item timeout expired, is reported ready, by the poll that
  completes the window at the latest.
\<close>

theorem persistent_readiness_detected:
  assumes "persistently_ready (wait_config_of graph timeout stability started) polls j m"
  shows "\<exists>n snapshot first d. wait_for_readiness graph timeout stability started polls
    = Some (n, Graph_ready snapshot first d) \<and> n \<le> m"
proof -
  let ?cfg = "wait_config_of graph timeout stability started"
  note p = assms [unfolded persistently_ready_def]
  have last_step: "\<exists>outcome. poll_step ?cfg (polls m) f = Inl outcome" if "waiting ?cfg polls m f" for f
    using p persistent_ready_at [OF assms that]
    by (cases "poll_step ?cfg (polls m) f") (auto simp: poll_step_Inr)
  then obtain n outcome where loop: "wait_loop ?cfg polls 0 None = Some (n, outcome)" "n \<le> m"
    using wait_loop_returns [of ?cfg polls m 0 None] waiting.start by blast
  obtain f where w: "waiting ?cfg polls n f" and step: "poll_step ?cfg (polls n) f = Inl outcome"
    using wait_loop_outcome [OF loop(1)] waiting.start by auto
  show ?thesis
  proof (cases outcome)
    case (Graph_ready snapshot first d)
    with loop show ?thesis unfolding wait_for_readiness_def by blast
  next
    case (Readiness_timeout late)
    with step have "wc_deadline_ns ?cfg \<le> snd (polls n)"
      "\<not> ready ?cfg (polls n) \<or> snd (polls n) - ready_at (polls n) f < wc_required_ns ?cfg"
      using poll_step_timeout [of ?cfg "polls n" f late] p loop(2) by auto
    moreover from this(1) p loop(2) have "n = m" by (metis le_neq_implies_less not_le)
    ultimately show ?thesis using p w persistent_ready_at [OF assms] by fastforce
  qed
qed

section \<open>A wait of two seconds\<close>

text \<open>One expected topic; its publisher is there from the second poll, polls a second apart.\<close>

definition example_graph :: expected_graph where
  "example_graph = \<lparr>xg_topics = [\<lparr>xt_name = ''/odom'', xt_type = ''nav_msgs/msg/Odometry'',
       xt_min_publishers = 1, xt_min_subscribers = 0, xt_first_message_timeout_sec = 9\<rparr>],
     xg_services = [], xg_actions = [], xg_lifecycle_nodes = []\<rparr>"

definition example_snapshot :: "int \<Rightarrow> int \<Rightarrow> graph_snapshot" where
  "example_snapshot t publishers = \<lparr>gs_observed_at_ns = t,
     gs_topics = [(''/odom'', \<lparr>to_types = [''nav_msgs/msg/Odometry''], to_publishers = publishers,
       to_subscribers = 0, to_first_message_at_ns = Some 1, to_qos_compatible = True\<rparr>)],
     gs_services = [], gs_actions = [], gs_lifecycle_nodes = [], gs_node_names = None\<rparr>"

definition example_poll :: "nat \<Rightarrow> poll" where
  "example_poll k = (let t = 1000000000 * int k in (example_snapshot t (if k = 0 then 0 else 1), t))"

definition example_config :: wait_config where
  "example_config = wait_config_of example_graph 5 1 0"

lemma example_config_ns: "wc_deadline_ns example_config = 5000000000"
  "wc_required_ns example_config = 1000000000" "wc_graph example_config = example_graph"
  "wc_started_at_ns example_config = 0"
  by (code_simp, code_simp, simp_all add: example_config_def wait_config_of_def)

lemma example_ready: "ready example_config (example_poll k) \<longleftrightarrow> k \<noteq> 0"
  by (simp add: ready_def example_config_ns example_poll_def Let_def evaluate_graph_def
      example_graph_def example_snapshot_def check_topics_def check_endpoints_def
      check_lifecycle_def issues_of_def check_topic_def when_issue_def)

lemma example_not_expired: "\<not> expired example_config (example_poll k)"
  by (simp add: expired_def example_config_ns example_poll_def Let_def example_graph_def
      example_snapshot_def expired_readiness_issues_def issues_of_def expired_topic_def
      when_issue_def)

lemma example_persistent: "persistently_ready example_config example_poll 1 2"
  unfolding persistently_ready_def
  by (auto simp: example_ready example_not_expired example_config_ns)
    (simp_all add: example_poll_def Let_def)

theorem persistent_readiness_detected_witness:
  "\<exists>n snapshot first d. wait_for_readiness example_graph 5 1 0 example_poll
    = Some (n, Graph_ready snapshot first d) \<and> n \<le> 2"
  by (rule persistent_readiness_detected [OF example_persistent [unfolded example_config_def]])

lemma example_wait:
  "\<exists>d. wait_for_readiness example_graph 5 1 0 example_poll =
     Some (2, Graph_ready (example_snapshot 2000000000 1) 1000000000 d)"
proof -
  have clock: "snd (example_poll k) = 1000000000 * int k" for k by (simp add: example_poll_def Let_def)
  have "poll_step example_config (example_poll 0) None = Inr None"
    "poll_step example_config (example_poll 1) None = Inr (Some 1000000000)"
    by (simp_all add: poll_step_Inr example_not_expired example_ready example_config_ns clock ready_at_def)
  moreover have "\<exists>d. poll_step example_config (example_poll 2) (Some 1000000000) =
      Inl (Graph_ready (example_snapshot 2000000000 1) 1000000000 d)"
    by (simp add: poll_step_ready example_not_expired example_ready example_config_ns clock ready_at_def)
      (simp add: example_poll_def)
  ultimately show ?thesis
    unfolding wait_for_readiness_def example_config_def [symmetric]
    by (auto simp: wait_loop.simps [of _ _ 0] wait_loop.simps [of _ _ "Suc 0"]
        wait_loop.simps [of _ _ "Suc (Suc 0)"] numeral_2_eq_2)
qed

theorem readiness_is_stable_witness:
  "stable_readiness (wait_config_of example_graph 5 1 0) example_poll 2
     (example_snapshot 2000000000 1) 1000000000"
  using example_wait readiness_is_stable by blast

theorem readiness_wait_ends_witness:
  "\<exists>n outcome. wait_for_readiness example_graph 5 1 0 example_poll = Some (n, outcome) \<and> n \<le> 5"
proof (rule readiness_wait_ends)
  have "whole_ns 5 = 5000000000" by code_simp
  then show "0 + whole_ns 5 \<le> snd (example_poll 5)" by (simp add: example_poll_def Let_def)
qed

end
