(* ===== verification/Decimal.thy ===== *)
theory Decimal
  imports Prelude
begin

text \<open>
  The decimal text of a natural number, as \<open>str(n)\<close> and f-strings write it, and its inverse.
\<close>

fun decimal :: "nat \<Rightarrow> string" where
  "decimal n = (if n < 10 then [char_of (48 + n)]
                else decimal (n div 10) @ [char_of (48 + n mod 10)])"

declare decimal.simps [simp del]

definition undecimal :: "string \<Rightarrow> nat" where
  "undecimal s = foldl (\<lambda>n c. 10 * n + (of_char c - 48)) 0 s"

lemma undecimal_decimal [simp]: "undecimal (decimal n) = n"
proof (induction n rule: decimal.induct)
  case (1 n)
  then show ?case
    by (subst decimal.simps) (simp add: undecimal_def)
qed

lemma decimal_inj: "decimal m = decimal n \<longleftrightarrow> m = n"
  by (metis undecimal_decimal)

section \<open>The first unused name\<close>

text \<open>\<open>base\<close>, then \<open>base-1\<close>, \<open>base-2\<close>, ... until a name is unused.\<close>

definition suffixed :: "string \<Rightarrow> nat \<Rightarrow> string" where
  "suffixed base k = base @ ''-'' @ decimal k"

lemma suffixed_inj: "suffixed base j = suffixed base k \<longleftrightarrow> j = k"
  by (simp add: suffixed_def decimal_inj)

lemma finite_suffixes: "finite {j. k \<le> j \<and> suffixed base j \<in> set used}"
  by (rule finite_subset [OF _ finite_vimageI [of "set used" "suffixed base"]])
    (auto intro: injI simp: suffixed_inj)

function first_suffix :: "string \<Rightarrow> string list \<Rightarrow> nat \<Rightarrow> string" where
  "first_suffix base used k =
     (if suffixed base k \<in> set used then first_suffix base used (Suc k) else suffixed base k)"
  by pat_completeness auto

termination
proof (relation "measure (\<lambda>(base, used, k). card {j. k \<le> j \<and> suffixed base j \<in> set used})",
    goal_cases)
  case (2 base used k)
  then have "{j. Suc k \<le> j \<and> suffixed base j \<in> set used} \<subset> {j. k \<le> j \<and> suffixed base j \<in> set used}"
    by (auto simp: Suc_le_eq)
  then show ?case by (simp add: psubset_card_mono finite_suffixes)
qed simp

declare first_suffix.simps [simp del]

lemma first_suffix_unused: "first_suffix base used k \<notin> set used"
  by (induction base used k rule: first_suffix.induct) (simp add: first_suffix.simps)

definition fresh_name :: "string \<Rightarrow> string list \<Rightarrow> string" where
  "fresh_name base used = (if base \<in> set used then first_suffix base used 1 else base)"

lemma fresh_name_unused: "fresh_name base used \<notin> set used"
  by (simp add: fresh_name_def first_suffix_unused)

end
