(* ===== verification/Graph_Monitors.thy ===== *)
theory Graph_Monitors
  imports Readiness Metric_Assertions Decimal
begin

text \<open>
  The monitors that watch the ROS graph during the measurement: forbidden command interfaces
  (harness/forbidden_graph.py) and the expected graph inside the measurement window
  (harness/graph_window.py). Both accumulate facts snapshot by snapshot; what they conclude
  depends on the whole sequence of snapshots, by one shared contract.
\<close>

section \<open>Accumulating monitors\<close>

text \<open>
  The contract: every observation adds the facts of its snapshot, which depend on the
  configuration only, and leaves the configuration as it is.
\<close>

locale accumulator =
  fixes observe :: "'s \<Rightarrow> 'x \<Rightarrow> 's"
    and facts :: "'s \<Rightarrow> 'f set"
    and config :: "'s \<Rightarrow> 'c"
    and contributed :: "'c \<Rightarrow> 'x \<Rightarrow> 'f set"
  assumes adds: "facts (observe s x) = facts s \<union> contributed (config s) x"
    and keeps: "config (observe s x) = config s"
begin

lemma config_foldl: "config (foldl observe s xs) = config s"
  by (induction xs arbitrary: s) (simp_all add: keeps)

lemma facts_foldl:
  "facts (foldl observe s xs) = facts s \<union> (\<Union>x \<in> set xs. contributed (config s) x)"
  by (induction xs arbitrary: s) (auto simp: adds keeps)

lemma order_irrelevant:
  "set xs = set ys \<Longrightarrow> facts (foldl observe s xs) = facts (foldl observe s ys)"
  by (simp add: facts_foldl)

end

section \<open>Forbidden interfaces\<close>

datatype interface_kind = Topic | Service | Action

text \<open>\<open>order=True\<close>: violations sort by the kind's name, then by the interface's name.\<close>

instantiation interface_kind :: linorder
begin

fun interface_rank :: "interface_kind \<Rightarrow> nat" where
  "interface_rank Action = 0"
| "interface_rank Service = 1"
| "interface_rank Topic = 2"

definition less_eq_interface_kind :: "interface_kind \<Rightarrow> interface_kind \<Rightarrow> bool" where
  "less_eq_interface_kind a b \<longleftrightarrow> interface_rank a \<le> interface_rank b"

definition less_interface_kind :: "interface_kind \<Rightarrow> interface_kind \<Rightarrow> bool" where
  "less_interface_kind a b \<longleftrightarrow> interface_rank a < interface_rank b"

instance
proof
  fix x y z :: interface_kind
  show "x \<le> y \<Longrightarrow> y \<le> x \<Longrightarrow> x = y" by (cases x; cases y) (simp_all add: less_eq_interface_kind_def)
qed (auto simp: less_eq_interface_kind_def less_interface_kind_def)

end

type_synonym violation = "interface_kind \<times> string"

record forbidden_graph =
  fg_topics :: "string list"
  fg_services :: "string list"
  fg_actions :: "string list"

definition forbidden_topic :: "graph_snapshot \<Rightarrow> string \<Rightarrow> bool" where
  "forbidden_topic snapshot name \<longleftrightarrow>
     (case map_of (gs_topics snapshot) name of None \<Rightarrow> False | Some o' \<Rightarrow> 0 < to_publishers o')"

definition forbidden_server :: "(string \<times> endpoint_observation) list \<Rightarrow> string \<Rightarrow> bool" where
  "forbidden_server endpoints name \<longleftrightarrow>
     (case map_of endpoints name of None \<Rightarrow> False | Some o' \<Rightarrow> 0 < eo_server_nodes o')"

definition find_forbidden_graph_violations :: "forbidden_graph \<Rightarrow> graph_snapshot \<Rightarrow> violation list" where
  "find_forbidden_graph_violations graph snapshot = sort
     (map (Pair Topic) (filter (forbidden_topic snapshot) (fg_topics graph))
      @ map (Pair Service) (filter (forbidden_server (gs_services snapshot)) (fg_services graph))
      @ map (Pair Action) (filter (forbidden_server (gs_actions snapshot)) (fg_actions graph)))"

record forbidden_monitor =
  fm_forbidden_graph :: forbidden_graph
  fm_violations :: "violation set"

definition new_forbidden_monitor :: "forbidden_graph \<Rightarrow> forbidden_monitor" where
  "new_forbidden_monitor graph = \<lparr>fm_forbidden_graph = graph, fm_violations = {}\<rparr>"

definition forbidden_observe :: "forbidden_monitor \<Rightarrow> graph_snapshot \<Rightarrow> forbidden_monitor" where
  "forbidden_observe m snapshot = m\<lparr>fm_violations := fm_violations m \<union>
     set (find_forbidden_graph_violations (fm_forbidden_graph m) snapshot)\<rparr>"

record forbidden_observation =
  fo_checked_topics :: "string list"
  fo_checked_services :: "string list"
  fo_checked_actions :: "string list"
  fo_violations :: "violation list"

definition forbidden_result :: "forbidden_monitor \<Rightarrow> forbidden_observation" where
  "forbidden_result m = (let graph = fm_forbidden_graph m in
     \<lparr>fo_checked_topics = sort (fg_topics graph), fo_checked_services = sort (fg_services graph),
      fo_checked_actions = sort (fg_actions graph),
      fo_violations = sorted_list_of_set (fm_violations m)\<rparr>)"

definition forbidden_passed :: "forbidden_observation \<Rightarrow> bool" where
  "forbidden_passed o' \<longleftrightarrow> fo_violations o' = []"

interpretation forbidden: accumulator forbidden_observe fm_violations fm_forbidden_graph
    "\<lambda>graph snapshot. set (find_forbidden_graph_violations graph snapshot)"
  by unfold_locales (simp_all add: forbidden_observe_def)

text \<open>The interfaces offered in a snapshot that the scenario forbids.\<close>

definition offers_forbidden :: "forbidden_graph \<Rightarrow> graph_snapshot \<Rightarrow> violation \<Rightarrow> bool" where
  "offers_forbidden graph snapshot v \<longleftrightarrow> (case v of
     (Topic, name) \<Rightarrow> name \<in> set (fg_topics graph) \<and> forbidden_topic snapshot name
   | (Service, name) \<Rightarrow> name \<in> set (fg_services graph) \<and> forbidden_server (gs_services snapshot) name
   | (Action, name) \<Rightarrow> name \<in> set (fg_actions graph) \<and> forbidden_server (gs_actions snapshot) name)"

lemma violations_set:
  "v \<in> set (find_forbidden_graph_violations graph snapshot) \<longleftrightarrow> offers_forbidden graph snapshot v"
  by (cases v; cases "fst v") (auto simp: find_forbidden_graph_violations_def offers_forbidden_def)

lemma forbidden_facts: "fm_violations (foldl forbidden_observe (new_forbidden_monitor graph) snapshots) =
    (\<Union>s \<in> set snapshots. set (find_forbidden_graph_violations graph s))"
  by (simp add: forbidden.facts_foldl new_forbidden_monitor_def)

lemma forbidden_clean: "forbidden_passed (forbidden_result (foldl forbidden_observe
    (new_forbidden_monitor graph) snapshots)) \<longleftrightarrow>
    (\<forall>snapshot \<in> set snapshots. \<forall>v. \<not> offers_forbidden graph snapshot v)"
proof -
  have "finite (\<Union>s \<in> set snapshots. set (find_forbidden_graph_violations graph s))" by simp
  then show ?thesis
    by (auto simp: forbidden_passed_def forbidden_result_def forbidden_facts Let_def
        sorted_list_of_set_eq_Nil_iff simp flip: violations_set)
qed


section \<open>The expected graph during the measurement\<close>

record graph_monitor =
  gm_expected_graph :: expected_graph
  gm_start_ns :: int
  gm_end_ns :: int
  gm_samples :: nat
  gm_issues :: "(issue \<times> int) list"

datatype window_error = Graph_window_not_positive

definition new_graph_monitor :: "expected_graph \<Rightarrow> int \<Rightarrow> int \<Rightarrow> window_error + graph_monitor" where
  "new_graph_monitor graph start_ns end_ns =
     (if end_ns \<le> start_ns then Inl Graph_window_not_positive
      else Inr \<lparr>gm_expected_graph = graph, gm_start_ns = start_ns, gm_end_ns = end_ns,
                gm_samples = 0, gm_issues = []\<rparr>)"

text \<open>\<open>dict.setdefault\<close>: a later observation does not move the first one.\<close>

definition setdefault :: "'k \<Rightarrow> 'v \<Rightarrow> ('k \<times> 'v) list \<Rightarrow> ('k \<times> 'v) list" where
  "setdefault k v d = (if map_of d k = None then d @ [(k, v)] else d)"

lemma setdefault_keys: "fst ` set (setdefault k v d) = insert k (fst ` set d)"
  by (auto simp: setdefault_def map_of_eq_None_iff image_iff dest: map_of_SomeD)

definition in_graph_window :: "graph_monitor \<Rightarrow> graph_snapshot \<Rightarrow> bool" where
  "in_graph_window m snapshot \<longleftrightarrow>
     gm_start_ns m \<le> gs_observed_at_ns snapshot \<and> gs_observed_at_ns snapshot < gm_end_ns m"

definition graph_observe :: "graph_monitor \<Rightarrow> graph_snapshot \<Rightarrow> graph_monitor" where
  "graph_observe m snapshot =
     (if \<not> in_graph_window m snapshot then m
      else m\<lparr>gm_samples := gm_samples m + 1,
             gm_issues := foldl (\<lambda>d i. setdefault i (gs_observed_at_ns snapshot) d) (gm_issues m)
               (evaluate_graph (gm_expected_graph m) snapshot)\<rparr>)"

definition expects_nothing :: "expected_graph \<Rightarrow> bool" where
  "expects_nothing graph \<longleftrightarrow> xg_topics graph = [] \<and> xg_services graph = [] \<and>
     xg_actions graph = [] \<and> xg_lifecycle_nodes graph = []"

definition graph_assertion_id :: "metric_evaluation list \<Rightarrow> string" where
  "graph_assertion_id existing = fresh_name ''expected-ros-graph'' (map me_assertion_id existing)"

definition graph_assertions :: "graph_monitor \<Rightarrow> metric_evaluation list \<Rightarrow> metric_evaluation list" where
  "graph_assertions m existing =
     (let issues = map fst (gm_issues m)
            @ (if gm_samples m = 0 \<and> \<not> expects_nothing (gm_expected_graph m)
               then [No_graph_snapshot] else [])
      in if issues = [] then []
         else [\<lparr>me_assertion_id = graph_assertion_id existing,
                me_status = (if \<exists>i \<in> set issues. issue_status i = Error then Error else Failed),
                me_observed = None, me_unit = ''1''\<rparr>])"

text \<open>The window is part of the configuration; samples are facts too, by their snapshots.\<close>

definition graph_config :: "graph_monitor \<Rightarrow> expected_graph \<times> int \<times> int" where
  "graph_config m = (gm_expected_graph m, gm_start_ns m, gm_end_ns m)"

definition window_facts :: "expected_graph \<times> int \<times> int \<Rightarrow> graph_snapshot \<Rightarrow> issue set" where
  "window_facts c snapshot = (case c of (graph, s, e) \<Rightarrow>
     if s \<le> gs_observed_at_ns snapshot \<and> gs_observed_at_ns snapshot < e
     then set (evaluate_graph graph snapshot) else {})"

lemma foldl_setdefault_keys:
  "fst ` set (foldl (\<lambda>d i. setdefault i t d) d issues) = fst ` set d \<union> set issues"
  by (induction issues arbitrary: d) (auto simp: setdefault_keys)

interpretation window: accumulator graph_observe "\<lambda>m. fst ` set (gm_issues m)" graph_config window_facts
  by unfold_locales
    (auto simp: graph_observe_def graph_config_def window_facts_def in_graph_window_def
      foldl_setdefault_keys)

lemma graph_samples_foldl:
  "gm_samples (foldl graph_observe m snapshots) =
     gm_samples m + length (filter (in_graph_window m) snapshots)"
proof (induction snapshots arbitrary: m)
  case (Cons s rest)
  have "in_graph_window (graph_observe m s) = in_graph_window m"
    by (rule ext) (simp add: in_graph_window_def graph_observe_def)
  with Cons show ?case by (simp add: graph_observe_def)
qed simp

text \<open>The reference: the verdict of the snapshots inside the window, taken together.\<close>

definition window_verdict :: "expected_graph \<Rightarrow> graph_snapshot list \<Rightarrow> outcome option" where
  "window_verdict graph window =
     (if window = [] then (if expects_nothing graph then None else Some Error)
      else (let issues = concat (map (evaluate_graph graph) window) in
        if issues = [] then None
        else if \<exists>i \<in> set issues. issue_status i = Error then Some Error else Some Failed))"

definition snapshots_in :: "int \<Rightarrow> int \<Rightarrow> graph_snapshot list \<Rightarrow> graph_snapshot list" where
  "snapshots_in start_ns end_ns snapshots =
     filter (\<lambda>s. start_ns \<le> gs_observed_at_ns s \<and> gs_observed_at_ns s < end_ns) snapshots"

text \<open>
  C30: The monitor that keeps one first-seen table while snapshots arrive gives the verdict of
  the whole window computed at once: no assertion when every snapshot in [start, end) is
  clean, an error when an observation was unavailable or the window is empty, a failure
  otherwise; snapshots outside the window never count.
\<close>

theorem graph_monitor_equals_window:
  assumes "new_graph_monitor graph start_ns end_ns = Inr m"
  shows "map me_status (graph_assertions (foldl graph_observe m snapshots) existing) =
    (case window_verdict graph (snapshots_in start_ns end_ns snapshots) of
       None \<Rightarrow> [] | Some status \<Rightarrow> [status])"
proof -
  let ?final = "foldl graph_observe m snapshots" and ?w = "snapshots_in start_ns end_ns snapshots"
  have m: "gm_expected_graph m = graph" "gm_start_ns m = start_ns" "gm_end_ns m = end_ns"
    "gm_samples m = 0" "gm_issues m = []"
    using assms by (auto simp: new_graph_monitor_def split: if_splits)
  have w: "filter (in_graph_window m) snapshots = ?w"
    unfolding snapshots_in_def in_graph_window_def m ..
  have samples: "gm_samples ?final = length ?w"
    by (simp add: graph_samples_foldl m w)
  have graph: "gm_expected_graph ?final = graph"
    using window.config_foldl [of m snapshots] by (simp add: graph_config_def m)
  have issues: "fst ` set (gm_issues ?final) = (\<Union>s \<in> set ?w. set (evaluate_graph graph s))"
    by (auto simp: window.facts_foldl m graph_config_def window_facts_def snapshots_in_def split: if_splits)
  define all where "all = concat (map (evaluate_graph graph) ?w)"
  have set_eq: "fst ` set (gm_issues ?final) = set all" using issues by (simp add: all_def)
  then have empty: "gm_issues ?final = [] \<longleftrightarrow> all = []" by (metis image_is_empty set_empty)
  have errors: "(\<exists>i \<in> set (gm_issues ?final). issue_status (fst i) = Error) \<longleftrightarrow>
      (\<exists>i \<in> set all. issue_status i = Error)"
    unfolding set_eq [symmetric] by simp
  show ?thesis
  proof (cases "?w = []")
    case True
    with empty samples graph show ?thesis
      by (simp add: graph_assertions_def window_verdict_def all_def)
  next
    case False
    with empty errors samples graph show ?thesis
      by (simp add: graph_assertions_def window_verdict_def all_def [symmetric])
  qed
qed

theorem graph_monitor_equals_window_witness:
  "\<exists>m. new_graph_monitor example_graph 5 9 = Inr m \<and>
     map me_status (graph_assertions (foldl graph_observe m
       [example_snapshot 3 0, example_snapshot 6 1, example_snapshot 7 0]) []) = [Failed]"
proof -
  obtain m where m: "new_graph_monitor example_graph 5 9 = Inr m"
    by (simp add: new_graph_monitor_def)
  have "window_verdict example_graph (snapshots_in 5 9
      [example_snapshot 3 0, example_snapshot 6 1, example_snapshot 7 0]) = Some Failed"
    by (simp add: window_verdict_def snapshots_in_def evaluate_graph_def example_graph_def
        example_snapshot_def check_topics_def check_endpoints_def check_lifecycle_def
        issues_of_def check_topic_def when_issue_def)
  with graph_monitor_equals_window [OF m, of "[example_snapshot 3 0, example_snapshot 6 1,
      example_snapshot 7 0]" "[]"] m
  show ?thesis by (intro exI [of _ m]) (simp only: option.simps simp_thms)
qed

text \<open>
  The search for an unused assertion id ends, and the id of the expected-graph assertion
  differs from that of every existing assertion.
\<close>

theorem graph_assertion_id_fresh: "graph_assertion_id existing \<notin> me_assertion_id ` set existing"
  using fresh_name_unused [of "''expected-ros-graph''" "map me_assertion_id existing"]
  by (simp add: graph_assertion_id_def)

end
