(* ===== verification/Domain_Result.thy ===== *)
theory Domain_Result
  imports Time_Authority Hardware_Timing Clock_Timing Graph_Monitors Decimal Sem_Result
begin

text \<open>
  The domain result the harness writes (harness/result.py): \<open>build_acceptance_result\<close> assembles
  the observations of one run into the result document of the contracts, derives its status
  from the same rows that JUnit reports, and has the contract validator accept it. Identifiers,
  digests and texts that no rule reads are left out of the document, as in the validator's model.
\<close>

section \<open>Inputs\<close>

record assertion_evaluation =
  av_assertion_id :: string
  av_status :: outcome
  av_observed_value :: "rat option"
  av_source :: assertion_source
  av_namespace :: "string option"
  av_evidence_sha256 :: "string list"

text \<open>\<open>ri_fallback_count\<close> is None for the workload kind "none".\<close>

record result_inputs =
  ri_run_id :: string
  ri_evidence_run_id :: string
  ri_scenario_environment :: environment
  ri_runtime_environment :: environment
  ri_has_permit :: bool
  ri_verification_environment :: "environment option"
  ri_fallback_count :: "int option"
  ri_evaluators :: "string list"
  ri_evidence :: "evidence_item list"
  ri_snapshot :: graph_snapshot
  ri_clock_monotonic :: bool
  ri_time_authority :: time_authority_observation
  ri_time_authority_evidence :: "string option"
  ri_assertions :: "assertion_evaluation list"
  ri_unevaluated :: "string list"
  ri_started_at :: int
  ri_finished_at :: int
  ri_shutdown :: "bool list"
  ri_forbidden :: forbidden_observation
  ri_hardware :: "hardware_timing_observation option"
  ri_hardware_evidence :: "string option"
  ri_mode :: evaluation_mode

datatype build_error =
    Evidence_of_another_run
  | Physical_without_hardware_timing
  | Simulation_with_hardware_timing
  | Physical_without_authorization
  | Status_underivable
  | Hardware_value_unknown
  | Bound_not_finite
  | Document_rejected result_error

section \<open>Assertions and their rows\<close>

definition core_evaluation :: "metric_evaluation \<Rightarrow> assertion_evaluation" where
  "core_evaluation e = \<lparr>av_assertion_id = me_assertion_id e, av_status = me_status e,
     av_observed_value = me_observed e, av_source = Core, av_namespace = None, av_evidence_sha256 = []\<rparr>"

definition append_time_evidence ::
  "assertion_evaluation list \<Rightarrow> assertion_evaluation \<Rightarrow> assertion_evaluation list" where
  "append_time_evidence assertions evaluation =
     (let existing = map av_assertion_id assertions; base = av_assertion_id evaluation;
          identifier = (if base \<in> set existing then first_suffix base existing 2 else base)
      in assertions @ [evaluation\<lparr>av_assertion_id := identifier\<rparr>])"

definition effective_assertions :: "result_inputs \<Rightarrow> assertion_evaluation list" where
  "effective_assertions i =
     (case to_evaluation (ri_time_authority i) of None \<Rightarrow> ri_assertions i
      | Some e \<Rightarrow> append_time_evidence (ri_assertions i) (core_evaluation e))"

definition effective_unevaluated :: "result_inputs \<Rightarrow> string list" where
  "effective_unevaluated i = sorted_list_of_set
     (set (ri_unevaluated i)
      \<union> (if ri_assertions i = [] then {''$.assertions''} else {})
      \<union> (case to_evaluation (ri_time_authority i) of None \<Rightarrow> {}
         | Some e \<Rightarrow> if me_status e \<in> {Skipped, Error} then {''$.time_authority_observation''} else {})
      \<union> (\<lambda>a. ''$.assertions.'' @ av_assertion_id a) `
          set (filter (\<lambda>a. av_status a = Skipped) (effective_assertions i)))"

definition assertion_document :: "assertion_evaluation \<Rightarrow> assertion_result" where
  "assertion_document a = \<lparr>ar_assertion_id = av_assertion_id a, ar_status = av_status a,
     ar_source = av_source a,
     ar_namespace = (if av_namespace a = Some [] then None else av_namespace a),
     ar_evidence_sha256 = av_evidence_sha256 a\<rparr>"

text \<open>One observation that the verdict and JUnit report beside the assertions.\<close>

definition observation_row :: "string list \<Rightarrow> string \<Rightarrow> string \<Rightarrow> bool option \<Rightarrow> (string \<times> outcome) list" where
  "observation_row unevaluated assertion_id path passed =
     (case passed of None \<Rightarrow> []
      | Some ok \<Rightarrow> [(assertion_id,
          if path \<in> set unevaluated then Skipped else if ok then Passed else Failed)])"

definition result_assertions :: "domain_result \<Rightarrow> (string \<times> outcome) list" where
  "result_assertions d =
     map (\<lambda>a. (ar_assertion_id a, ar_status a)) (rs_assertion_results d)
     @ observation_row (rs_unevaluated d) ''forbidden-ros-graph''
         ''$.forbidden_graph_observation'' (Some (rs_forbidden_passed d))
     @ observation_row (rs_unevaluated d) ''hardware-clock-policy''
         ''$.hardware_clock_observation'' (map_option hc_within_policy (rs_hardware_clock d))
     @ observation_row (rs_unevaluated d) ''time-authority-policy''
         ''$.time_authority_observation'' (Some (ta_within_policy (rs_time_authority d)))
     @ (if rs_unevaluated d \<noteq> [] then [(''evaluation-coverage'', Skipped)] else [])"

definition counted_status :: "outcome \<Rightarrow> outcome" where
  "counted_status s = (if s = Skipped then Incomplete else s)"

text \<open>The JUnit element of a row; a passed or other row has none.\<close>

datatype junit_element = Junit_failure | Junit_error | Junit_skipped

definition junit_result :: "outcome \<Rightarrow> junit_element option" where
  "junit_result s = (if s = Failed then Some Junit_failure
     else if s = Error then Some Junit_error
     else if s = Skipped then Some Junit_skipped else None)"

definition junit_cases :: "domain_result \<Rightarrow> (string \<times> junit_element option) list" where
  "junit_cases d = map (\<lambda>(i, s). (i, junit_result s)) (result_assertions d)"

section \<open>The document\<close>

definition observed_topics :: "graph_snapshot \<Rightarrow> string list" where
  "observed_topics snapshot = map fst (filter
     (\<lambda>(name, o'). to_first_message_at_ns o' \<noteq> None \<and> to_types o' \<noteq> [])
     (sort_key fst (gs_topics snapshot)))"

definition observed_endpoints :: "(string \<times> endpoint_observation) list \<Rightarrow> string list" where
  "observed_endpoints endpoints = map fst (filter
     (\<lambda>(name, o'). (0 < eo_server_nodes o' \<or> 0 < eo_client_nodes o') \<and> eo_types o' \<noteq> [])
     (sort_key fst endpoints))"

definition lifecycle_states :: "graph_snapshot \<Rightarrow> (string \<times> int) list" where
  "lifecycle_states snapshot = map (\<lambda>(name, o'). (name, lo_observed_at_ns o'))
     (sort_key fst (gs_lifecycle_nodes snapshot))"

fun kind_value :: "interface_kind \<Rightarrow> string" where
  "kind_value Action = ''action''"
| "kind_value Service = ''service''"
| "kind_value Topic = ''topic''"

definition protocol_of_text :: "string \<Rightarrow> sync_protocol option" where
  "protocol_of_text s = map_of
     [(''ptp'', Ptp), (''chrony_ntp'', Chrony_ntp), (''mavlink_timesync'', Mavlink_timesync),
      (''micro_xrce_dds'', Micro_xrce_dds), (''external'', External_sync)] s"

definition source_of_text :: "string \<Rightarrow> clock_source option" where
  "source_of_text s = map_of
     [(''pmc'', Pmc), (''chronyc_tracking'', Chronyc_tracking),
      (''mavlink_timesync_status'', Mavlink_timesync_status),
      (''controller_telemetry'', Controller_telemetry),
      (''external_attestation'', External_attestation)] s"

definition hardware_clock_result ::
  "hardware_timing_observation \<Rightarrow> string \<Rightarrow> build_error + hardware_clock" where
  "hardware_clock_result ob evidence =
     (case (protocol_of_text (ho_sync_protocol ob), source_of_text (ho_source ob)) of
        (Some protocol, Some instrument) \<Rightarrow>
          Inr \<lparr>hc_sync_protocol = protocol, hc_source = instrument, hc_evidence_sha256 = evidence,
               hc_measured_at = format_utc_datetime (ho_measured_at ob),
               hc_within_policy = ho_within_policy ob\<rparr>
      | _ \<Rightarrow> Inl Hardware_value_unknown)"

definition finite_bound :: "bound \<Rightarrow> build_error + rat" where
  "finite_bound b = (case b of Fin x \<Rightarrow> Inr x | _ \<Rightarrow> Inl Bound_not_finite)"

definition time_authority_result ::
  "time_authority_observation \<Rightarrow> string option \<Rightarrow> build_error + time_authority" where
  "time_authority_result ob evidence =
     and_then (finite_bound (to_p50_ms ob)) (\<lambda>p50.
     and_then (finite_bound (to_p95_ms ob)) (\<lambda>p95.
     and_then (finite_bound (to_max_ms ob)) (\<lambda>maximum.
     Inr \<lparr>ta_window_start_ns = to_window_start_ns ob, ta_window_end_ns = to_window_end_ns ob,
          ta_p50_ms = p50, ta_p95_ms = p95, ta_max_ms = maximum,
          ta_evidence_sha256 = evidence, ta_within_policy = to_within_policy ob\<rparr>)))"

definition authorization_result :: "result_inputs \<Rightarrow> build_error + environment option" where
  "authorization_result i =
     (if ri_scenario_environment i = Simulation then Inr None
      else if \<not> ri_has_permit i then Inl Physical_without_authorization
      else case ri_verification_environment i of
        None \<Rightarrow> Inl Physical_without_authorization
      | Some env \<Rightarrow> Inr (Some env))"

definition check_result_inputs :: "result_inputs \<Rightarrow> build_error option" where
  "check_result_inputs i =
     (let physical = is_physical (ri_scenario_environment i) in first_error
      [require (ri_evidence_run_id i = ri_run_id i) Evidence_of_another_run,
       require (\<not> (physical \<and> (ri_hardware i = None \<or> ri_hardware_evidence i = None)))
         Physical_without_hardware_timing,
       require (\<not> (\<not> physical \<and> (ri_hardware i \<noteq> None \<or> ri_hardware_evidence i \<noteq> None)))
         Simulation_with_hardware_timing])"

definition result_document ::
  "result_inputs \<Rightarrow> environment option \<Rightarrow> time_authority \<Rightarrow> hardware_clock option \<Rightarrow> domain_result" where
  "result_document i authorization authority clock =
     \<lparr>rs_schema_version = ''acceptance-result.v1'',
      rs_started_at = format_utc_datetime (ri_started_at i),
      rs_finished_at = format_utc_datetime (ri_finished_at i), rs_status = Passed,
      rs_assertion_results = map assertion_document (effective_assertions i),
      rs_evaluators = ri_evaluators i, rs_evidence = ri_evidence i,
      rs_graph_topics = observed_topics (ri_snapshot i),
      rs_graph_services = observed_endpoints (gs_services (ri_snapshot i)),
      rs_graph_actions = observed_endpoints (gs_actions (ri_snapshot i)),
      rs_lifecycle_states = lifecycle_states (ri_snapshot i), rs_evaluation_mode = ri_mode i,
      rs_unevaluated = effective_unevaluated i,
      rs_violations = map (\<lambda>(k, n). (kind_value k, n)) (fo_violations (ri_forbidden i)),
      rs_forbidden_passed = forbidden_passed (ri_forbidden i),
      rs_target_environment = ri_runtime_environment i,
      rs_authorization_environment = authorization, rs_hardware_clock = clock,
      rs_workload_kind =
        (if ri_fallback_count i = None then Workload_none else Workload_inference),
      rs_fallback_count = (case ri_fallback_count i of None \<Rightarrow> 0 | Some n \<Rightarrow> n),
      rs_clock_monotonic = ri_clock_monotonic i, rs_shutdown = ri_shutdown i,
      rs_time_authority = authority\<rparr>"

definition clock_document :: "result_inputs \<Rightarrow> build_error + hardware_clock option" where
  "clock_document i =
     (case (ri_hardware i, ri_hardware_evidence i) of
        (Some ob, Some evidence) \<Rightarrow> and_then (hardware_clock_result ob evidence) (\<lambda>c. Inr (Some c))
      | _ \<Rightarrow> Inr None)"

definition with_status :: "domain_result \<Rightarrow> build_error + domain_result" where
  "with_status d =
     (case worst_of (map (counted_status \<circ> snd) (result_assertions d)) False of
        Inl _ \<Rightarrow> Inl Status_underivable
      | Inr status \<Rightarrow>
          (let d' = d\<lparr>rs_status := status\<rparr> in
           checked (map_option Document_rejected (validate_result d')) (Inr d')))"

definition build_acceptance_result :: "result_inputs \<Rightarrow> build_error + domain_result" where
  "build_acceptance_result i = checked (check_result_inputs i)
     (and_then (authorization_result i) (\<lambda>authorization.
      and_then (time_authority_result (ri_time_authority i) (ri_time_authority_evidence i)) (\<lambda>authority.
      and_then (clock_document i) (\<lambda>clock.
      with_status (result_document i authorization authority clock)))))"

section \<open>When a run passes\<close>

definition all_clear :: "result_inputs \<Rightarrow> bool" where
  "all_clear i \<longleftrightarrow> ri_assertions i \<noteq> [] \<and> ri_unevaluated i = [] \<and>
     (\<forall>a \<in> set (ri_assertions i). av_status a = Passed) \<and>
     (\<forall>e. to_evaluation (ri_time_authority i) = Some e \<longrightarrow> me_status e = Passed) \<and>
     to_within_policy (ri_time_authority i) \<and> fo_violations (ri_forbidden i) = [] \<and>
     (\<forall>ob. ri_hardware i = Some ob \<longrightarrow> ho_within_policy ob)"

lemma counted_status_Passed [simp]: "counted_status s = Passed \<longleftrightarrow> s = Passed"
  by (simp add: counted_status_def)

lemma effective_statuses: "av_status ` set (effective_assertions i) =
    av_status ` set (ri_assertions i) \<union> me_status ` set_option (to_evaluation (ri_time_authority i))"
  by (auto simp: effective_assertions_def append_time_evidence_def core_evaluation_def Let_def
      split: option.split)

lemma effective_unevaluated_Nil: "effective_unevaluated i = [] \<longleftrightarrow>
    ri_unevaluated i = [] \<and> ri_assertions i \<noteq> [] \<and>
    (\<forall>e. to_evaluation (ri_time_authority i) = Some e \<longrightarrow> me_status e \<notin> {Skipped, Error}) \<and>
    Skipped \<notin> av_status ` set (effective_assertions i)"
  by (auto simp: effective_unevaluated_def sorted_list_of_set_eq_Nil_iff filter_empty_conv image_iff
      split: option.split)

lemma passed_rows: "worst_of (map (counted_status \<circ> snd) rows) False = Inr status \<Longrightarrow>
    status = Passed \<longleftrightarrow> (\<forall>r \<in> set rows. snd r = Passed)"
proof -
  assume w: "worst_of (map (counted_status \<circ> snd) rows) False = Inr status"
  have ne: "rows \<noteq> []"
  proof
    assume "rows = []"
    with w show False by simp
  qed
  have filled: "set (map (counted_status \<circ> snd) rows) \<noteq> {}" using ne by simp
  have image: "X = {Passed} \<longleftrightarrow> (\<forall>x \<in> X. x = Passed)" if "X \<noteq> {}" for X :: "outcome set"
    using that subset_singletonD [of X Passed] by auto
  have "status = worst (map (counted_status \<circ> snd) rows)" using w ne by (simp add: worst_of_worst)
  then have "status = Passed \<longleftrightarrow> set (map (counted_status \<circ> snd) rows) = {Passed}"
    using ne by (simp only: worst_Passed_iff map_is_Nil_conv not_False_eq_True)
  also have "\<dots> \<longleftrightarrow> (\<forall>r \<in> set rows. snd r = Passed)"
    unfolding image [OF filled] by (simp del: split_paired_All)
  finally show ?thesis .
qed

text \<open>What the builder returns: the document with its status, accepted by the contract.\<close>

lemma with_status_Inr: "with_status d = Inr d' \<longleftrightarrow> (\<exists>status.
    worst_of (map (counted_status \<circ> snd) (result_assertions d)) False = Inr status \<and>
    d' = d\<lparr>rs_status := status\<rparr> \<and> validate_result d' = None)"
  by (auto simp: with_status_def checked_Inr Let_def split: sum.split)

lemma clock_document_policy:
  assumes "clock_document i = Inr clock" and "check_result_inputs i = None"
  shows "map_option hc_within_policy clock = map_option ho_within_policy (ri_hardware i)"
proof -
  have "ri_hardware_evidence i \<noteq> None" if "ri_hardware i \<noteq> None"
    using assms(2) that by (auto simp: check_result_inputs_def Let_def)
  with assms(1) show ?thesis
    by (auto simp: clock_document_def hardware_clock_result_def split: option.splits)
qed

lemma built_result_parts:
  assumes "build_acceptance_result i = Inr d"
  obtains authorization authority clock where
    "with_status (result_document i authorization authority clock) = Inr d"
    "ta_within_policy authority = to_within_policy (ri_time_authority i)"
    "map_option hc_within_policy clock = map_option ho_within_policy (ri_hardware i)"
proof -
  obtain authorization authority clock where
    "check_result_inputs i = None" "clock_document i = Inr clock"
    "time_authority_result (ri_time_authority i) (ri_time_authority_evidence i) = Inr authority"
    "with_status (result_document i authorization authority clock) = Inr d"
    using assms unfolding build_acceptance_result_def checked_Inr and_then_Inr by blast
  moreover from this have "ta_within_policy authority = to_within_policy (ri_time_authority i)"
    by (auto simp: time_authority_result_def)
  ultimately show ?thesis using that clock_document_policy by blast
qed

lemma observation_row_clear: "(\<forall>r \<in> set (observation_row u a path passed). snd r = Passed) \<longleftrightarrow>
    passed = None \<or> (path \<notin> set u \<and> passed = Some True)"
proof (cases passed)
  case (Some ok)
  then show ?thesis by (cases ok) (simp_all add: observation_row_def)
qed (simp add: observation_row_def)

lemma rows_clear: "(\<forall>r \<in> set (result_assertions d). snd r = Passed) \<longleftrightarrow>
    rs_unevaluated d = [] \<and> (\<forall>a \<in> set (rs_assertion_results d). ar_status a = Passed) \<and>
    rs_forbidden_passed d \<and> ta_within_policy (rs_time_authority d) \<and>
    map_option hc_within_policy (rs_hardware_clock d) \<noteq> Some False"
proof (cases "rs_unevaluated d = []")
  case True
  then show ?thesis
    by (cases "rs_hardware_clock d")
      (auto simp: result_assertions_def observation_row_clear ball_Un simp del: Option.map_option_case)
next
  case False
  then show ?thesis by (auto simp: result_assertions_def ball_Un)
qed

lemma built_status:
  assumes "build_acceptance_result i = Inr d"
  shows "rs_status d = Passed \<longleftrightarrow> all_clear i"
proof -
  obtain authorization authority clock where
    d: "with_status (result_document i authorization authority clock) = Inr d"
    and within: "ta_within_policy authority = to_within_policy (ri_time_authority i)"
    and c: "map_option hc_within_policy clock = map_option ho_within_policy (ri_hardware i)"
    using assms by (rule built_result_parts)
  define doc where "doc = result_document i authorization authority clock"
  have doc: "rs_unevaluated doc = effective_unevaluated i"
    "rs_assertion_results doc = map assertion_document (effective_assertions i)"
    "rs_forbidden_passed doc = forbidden_passed (ri_forbidden i)"
    "rs_time_authority doc = authority" "rs_hardware_clock doc = clock"
    by (simp_all add: doc_def result_document_def)
  have "rs_status d = Passed \<longleftrightarrow> (\<forall>r \<in> set (result_assertions doc). snd r = Passed)"
    using d passed_rows unfolding doc_def with_status_Inr by fastforce
  also have "\<dots> \<longleftrightarrow> effective_unevaluated i = [] \<and> av_status ` set (effective_assertions i) \<subseteq> {Passed} \<and>
      forbidden_passed (ri_forbidden i) \<and> ta_within_policy authority \<and>
      map_option hc_within_policy clock \<noteq> Some False"
    unfolding rows_clear doc by (auto simp: assertion_document_def)
  also have "\<dots> \<longleftrightarrow> all_clear i"
    unfolding c within effective_unevaluated_Nil effective_statuses all_clear_def forbidden_passed_def
    by (cases "to_evaluation (ri_time_authority i)"; cases "ri_hardware i") auto
  finally show ?thesis .
qed

text \<open>
  C8: A result the harness writes passes exactly when something was asserted and nothing was left
  unevaluated, every assertion passed, the time authority was judged and is within policy, no
  forbidden interface was seen and the hardware clock, when one is observed, is within policy.
\<close>

theorem built_result_passes_iff:
  assumes "build_acceptance_result i = Inr d"
  shows "rs_status d = Passed \<longleftrightarrow> all_clear i"
  using assms by (rule built_status)


section \<open>From the observations to a passed run\<close>

text \<open>
  A run: the metric points and graph snapshots that were recorded, and the policies they are
  judged by. The inputs of its result are what the evaluators made of them.
\<close>

record run_record =
  rr_points :: "metric_point list"
  rr_snapshots :: "graph_snapshot list"
  rr_context :: latency_context
  rr_latency_policy :: latency_policy
  rr_clock_policy :: clock_policy
  rr_protocol :: string
  rr_forbidden_graph :: forbidden_graph

definition inputs_of_run :: "run_record \<Rightarrow> result_inputs \<Rightarrow> bool" where
  "inputs_of_run r i \<longleftrightarrow>
     observe_latency (rr_latency_policy r) (rr_points r) (rr_context r) = Inr (ri_time_authority i) \<and>
     ri_forbidden i = forbidden_result (foldl forbidden_observe
       (new_forbidden_monitor (rr_forbidden_graph r)) (rr_snapshots r)) \<and>
     (\<forall>ob. ri_hardware i = Some ob \<longrightarrow>
        evaluate_hardware_timing (rr_protocol r) (rr_clock_policy r) (rr_points r) = Inr ob)"

definition run_is_sound :: "run_record \<Rightarrow> rat list list \<Rightarrow> bool \<Rightarrow> bool" where
  "run_is_sound r ess physical \<longleftrightarrow>
     latency_within (rr_latency_policy r) (concat ess) \<and>
     (\<forall>snapshot \<in> set (rr_snapshots r). \<forall>v. \<not> offers_forbidden (rr_forbidden_graph r) snapshot v) \<and>
     (physical \<longrightarrow> clock_in_policy (rr_clock_policy r) (timing_points (rr_points r)))"

lemma run_sound:
  assumes "build_acceptance_result i = Inr d" and "rs_status d = Passed" and "inputs_of_run r i"
    and "latency_events (rr_points r) (rr_context r) ess"
  shows "run_is_sound r ess (is_physical (ri_scenario_environment i)) \<and> passed_guarantees d"
proof -
  have clear: "all_clear i" using built_status [OF assms(1)] assms(2) by simp
  have latency: "observe_latency (rr_latency_policy r) (rr_points r) (rr_context r) = Inr (ri_time_authority i)"
    and forbidden: "ri_forbidden i = forbidden_result (foldl forbidden_observe
       (new_forbidden_monitor (rr_forbidden_graph r)) (rr_snapshots r))"
    using assms(3) by (simp_all add: inputs_of_run_def)
  have "latency_within (rr_latency_policy r) (concat ess)"
    using observed_latency_true [OF latency assms(4)] clear by (simp add: all_clear_def)
  moreover have "forbidden_passed (ri_forbidden i)" using clear by (simp add: all_clear_def forbidden_passed_def)
  then have "\<forall>snapshot \<in> set (rr_snapshots r). \<forall>v. \<not> offers_forbidden (rr_forbidden_graph r) snapshot v"
    unfolding forbidden by (simp only: forbidden_clean)
  moreover have "clock_in_policy (rr_clock_policy r) (timing_points (rr_points r))"
    if "is_physical (ri_scenario_environment i)"
  proof -
    have "check_result_inputs i = None"
      using assms(1) by (auto simp: build_acceptance_result_def checked_Inr)
    with that obtain ob where ob: "ri_hardware i = Some ob"
      by (auto simp: check_result_inputs_def Let_def)
    then have "evaluate_hardware_timing (rr_protocol r) (rr_clock_policy r) (rr_points r) = Inr ob"
      using assms(3) by (simp add: inputs_of_run_def)
    from evaluated_clock [OF this] clear ob show ?thesis by (simp add: all_clear_def)
  qed
  moreover obtain d0 where "with_status d0 = Inr d" using assms(1) by (rule built_result_parts)
  then have "validate_result d = None" by (auto simp: with_status_Inr)
  from accepted_passed_guarantees [OF this assms(2)] have "passed_guarantees d" .
  ultimately show ?thesis by (simp add: run_is_sound_def)
qed

text \<open>
  C4: From recorded evidence to the verdict: when the harness writes a passed result for a run, the
  recorded latencies themselves are within the time policy, no snapshot ever offered a
  forbidden interface, on physical targets every hardware clock sample is within policy, all
  assertions passed, and the document gives the contract's guarantees of a passed result.
\<close>

theorem passed_run_is_sound:
  assumes "build_acceptance_result i = Inr d" and "rs_status d = Passed" and "inputs_of_run r i"
    and "latency_events (rr_points r) (rr_context r) ess"
  shows "run_is_sound r ess (is_physical (ri_scenario_environment i)) \<and> passed_guarantees d"
  by (rule run_sound [OF assms])

definition example_run :: run_record where
  "example_run =
     \<lparr>rr_points = example_clock_samples @ [example_latency],
      rr_snapshots = [\<lparr>gs_observed_at_ns = 5, gs_topics = [], gs_services = [], gs_actions = [],
        gs_lifecycle_nodes = [], gs_node_names = None\<rparr>],
      rr_context = example_latency_context, rr_latency_policy = example_latency_policy,
      rr_clock_policy = example_clock_policy, rr_protocol = ''ptp'',
      rr_forbidden_graph = \<lparr>fg_topics = [''/bad''], fg_services = [], fg_actions = []\<rparr>\<rparr>"

definition example_inputs ::
  "time_authority_observation \<Rightarrow> hardware_timing_observation \<Rightarrow> result_inputs" where
  "example_inputs authority clock =
     \<lparr>ri_run_id = ''r'', ri_evidence_run_id = ''r'', ri_scenario_environment = Hil,
      ri_runtime_environment = Hil, ri_has_permit = True, ri_verification_environment = Some Hil,
      ri_fallback_count = None, ri_evaluators = [], ri_evidence =
        [\<lparr>ei_artifact_id = ''m'', ei_sha256 = ''m'', ei_uri = ''u'', ei_segment_index = None\<rparr>],
      ri_snapshot = hd (rr_snapshots example_run), ri_clock_monotonic = True,
      ri_time_authority = authority, ri_time_authority_evidence = Some ''m'',
      ri_assertions = [\<lparr>av_assertion_id = ''a'', av_status = Passed, av_observed_value = Some 1,
        av_source = Core, av_namespace = None, av_evidence_sha256 = []\<rparr>],
      ri_unevaluated = [], ri_started_at = unix_epoch, ri_finished_at = unix_epoch + 10,
      ri_shutdown = [True], ri_forbidden = forbidden_result (foldl forbidden_observe
        (new_forbidden_monitor (rr_forbidden_graph example_run)) (rr_snapshots example_run)),
      ri_hardware = Some clock, ri_hardware_evidence = Some ''m'', ri_mode = Live_evaluation\<rparr>"

definition run_verdict ::
  "run_record \<Rightarrow> (time_authority_observation \<Rightarrow> hardware_timing_observation \<Rightarrow> result_inputs) \<Rightarrow> outcome option" where
  "run_verdict r inputs =
     (case (observe_latency (rr_latency_policy r) (rr_points r) (rr_context r),
            evaluate_hardware_timing (rr_protocol r) (rr_clock_policy r) (rr_points r)) of
        (Inr authority, Inr clock) \<Rightarrow>
          (case build_acceptance_result (inputs authority clock) of
             Inr d \<Rightarrow> Some (rs_status d) | Inl _ \<Rightarrow> None)
      | _ \<Rightarrow> None)"

lemma example_run_passes: "run_verdict example_run example_inputs = Some Passed"
  by code_simp

lemma example_run_events:
  "latency_events (rr_points example_run) (rr_context example_run) [[7, 2, 10, 14]]"
proof -
  have "latency_points (rr_points example_run) example_latency_context =
      latency_points [example_latency] example_latency_context"
    by (simp add: latency_points_def example_run_def example_clock_samples_def example_clock_sample_def
        DELIVERY_LATENCY_METRIC_def OFFSET_METRIC_def DRIFT_METRIC_def AGE_METRIC_def MONOTONIC_METRIC_def)
  moreover have "rr_context example_run = example_latency_context" by (simp add: example_run_def)
  ultimately show ?thesis using example_latency_events by (simp add: latency_events_def)
qed

lemma example_run_built:
  obtains i d where "build_acceptance_result i = Inr d" "rs_status d = Passed" "inputs_of_run example_run i"
    "is_physical (ri_scenario_environment i)"
proof -
  obtain authority clock d where p:
    "observe_latency (rr_latency_policy example_run) (rr_points example_run) (rr_context example_run) = Inr authority"
    "evaluate_hardware_timing (rr_protocol example_run) (rr_clock_policy example_run) (rr_points example_run) = Inr clock"
    "build_acceptance_result (example_inputs authority clock) = Inr d" "rs_status d = Passed"
    using example_run_passes by (auto simp: run_verdict_def split: sum.splits)
  have "inputs_of_run example_run (example_inputs authority clock)"
    using p(1,2) by (simp add: inputs_of_run_def example_inputs_def)
  moreover have "is_physical (ri_scenario_environment (example_inputs authority clock))"
    by (simp add: example_inputs_def is_physical_def)
  ultimately show ?thesis using p(3,4) that by blast
qed

theorem built_result_passes_iff_witness:
  "\<exists>i d. build_acceptance_result i = Inr d \<and> rs_status d = Passed \<and> all_clear i"
proof -
  obtain i d where "build_acceptance_result i = Inr d" "rs_status d = Passed" by (rule example_run_built)
  with built_result_passes_iff [OF this(1)] show ?thesis by blast
qed

theorem passed_run_is_sound_witness:
  "\<exists>d. rs_status d = Passed \<and> run_is_sound example_run [[7, 2, 10, 14]] True \<and> passed_guarantees d"
proof -
  obtain i d where i: "build_acceptance_result i = Inr d" "rs_status d = Passed"
    "inputs_of_run example_run i" "is_physical (ri_scenario_environment i)" by (rule example_run_built)
  from passed_run_is_sound [OF i(1-3) example_run_events] i(2,4) show ?thesis by auto
qed

end
