(* ===== verification/Otlp_Messages.thy ===== *)
theory Otlp_Messages
  imports Vocabulary Json
begin

text \<open>
  Reading OTLP evidence (harness/otel.py): the bytes of a file with the checks that they did
  not change while they were read and have the declared digest, and the attributes of a
  protobuf message. Hashing, UTF-8 decoding and the protobuf parser are not code of the
  program: the digest and the decoder are arguments, and a parsed message is a record.
\<close>

section \<open>Reading a file\<close>

text \<open>Size, modification time and change time of the file, from \<open>fstat\<close>.\<close>

type_synonym file_stat = "nat \<times> int \<times> int"

record file_read =
  fr_before :: file_stat
  fr_content :: "nat list"
  fr_after :: file_stat

datatype read_error =
    Budget_not_positive
  | Evidence_exceeds_budget
  | Evidence_changed
  | Evidence_digest_differs
  | Evidence_not_utf8

definition validate_raw_evidence_budget :: "int option \<Rightarrow> read_error option" where
  "validate_raw_evidence_budget budget =
     require (case budget of None \<Rightarrow> True | Some b \<Rightarrow> \<not> b \<le> 0) Budget_not_positive"

definition within_budget :: "int option \<Rightarrow> nat \<Rightarrow> bool" where
  "within_budget budget n = (case budget of None \<Rightarrow> True | Some b \<Rightarrow> \<not> int n > b)"

text \<open>One byte more than the declared size is read, so that growth shows.\<close>

definition payload_bytes :: "file_read \<Rightarrow> nat list" where
  "payload_bytes f = take (fst (fr_before f) + 1) (fr_content f)"

definition read_otlp_json_lines ::
  "(nat list \<Rightarrow> string) \<Rightarrow> (nat list \<Rightarrow> string list option) \<Rightarrow> int option \<Rightarrow> string option \<Rightarrow> file_read
    \<Rightarrow> read_error + string list" where
  "read_otlp_json_lines digest decode budget expected f =
     (let payload = payload_bytes f in
      checked (first_error
        [validate_raw_evidence_budget budget,
         require (within_budget budget (fst (fr_before f))) Evidence_exceeds_budget,
         require (within_budget budget (length payload)) Evidence_exceeds_budget,
         require (\<not> (length payload \<noteq> fst (fr_before f) \<or> fr_before f \<noteq> fr_after f)) Evidence_changed,
         require (\<not> (expected \<noteq> None \<and> Some (digest payload) \<noteq> expected)) Evidence_digest_differs])
      (case decode payload of None \<Rightarrow> Inl Evidence_not_utf8 | Some lines \<Rightarrow> Inr lines))"

text \<open>What was decoded is the whole file, as long as \<open>fstat\<close> says, with the declared digest.\<close>

lemma lines_of_whole_file:
  assumes "read_otlp_json_lines digest decode budget expected f = Inr lines"
  shows "decode (fr_content f) = Some lines"
    and "length (fr_content f) = fst (fr_before f)" "fr_before f = fr_after f"
    and "expected = Some d \<Longrightarrow> digest (fr_content f) = d"
    and "budget = Some b \<Longrightarrow> int (length (fr_content f)) \<le> b"
proof -
  let ?n = "fst (fr_before f)"
  have len: "length (take (?n + 1) (fr_content f)) = ?n"
  proof -
    have "length (payload_bytes f) = ?n"
      using assms by (simp add: read_otlp_json_lines_def Let_def checked_Inr)
    then show ?thesis by (simp only: payload_bytes_def)
  qed
  then have whole: "length (fr_content f) = ?n" by simp
  then have payload: "payload_bytes f = fr_content f" by (simp add: payload_bytes_def)
  show "length (fr_content f) = fst (fr_before f)" by (rule whole)
  show "decode (fr_content f) = Some lines"
    using assms by (simp add: read_otlp_json_lines_def Let_def checked_Inr payload split: option.splits)
  show "fr_before f = fr_after f"
    using assms by (simp add: read_otlp_json_lines_def Let_def checked_Inr)
  show "expected = Some d \<Longrightarrow> digest (fr_content f) = d"
    using assms by (simp add: read_otlp_json_lines_def Let_def checked_Inr payload)
  show "budget = Some b \<Longrightarrow> int (length (fr_content f)) \<le> b"
  proof -
    have "within_budget budget (length (payload_bytes f))"
      using assms unfolding read_otlp_json_lines_def Let_def checked_Inr first_error_Cons_None require_None
      by blast
    then show "budget = Some b \<Longrightarrow> int (length (fr_content f)) \<le> b"
      by (simp add: payload within_budget_def)
  qed
qed

section \<open>Blank lines\<close>

text \<open>\<open>str.strip\<close> removes these characters (of the first 256).\<close>

definition is_space :: "char \<Rightarrow> bool" where
  "is_space c \<longleftrightarrow> (let n = of_char c :: nat in
     (9 \<le> n \<and> n \<le> 13) \<or> (28 \<le> n \<and> n \<le> 32) \<or> n = 133 \<or> n = 160)"

definition blank :: "string \<Rightarrow> bool" where
  "blank line \<longleftrightarrow> list_all is_space line"

section \<open>Parsing a request\<close>

text \<open>
  The protobuf library: the message-typed fields of a descriptor (by JSON or proto name, with
  whether the field is repeated), the descriptor of the request, and \<open>ParseDict\<close>, which raises
  or returns the message.
\<close>

record ('d, 'r) protobuf =
  pb_fields :: "'d \<Rightarrow> string \<Rightarrow> (bool \<times> 'd) option"
  pb_descriptor :: 'd
  pb_parse :: "json \<Rightarrow> 'r option"

text \<open>Every value of a message field is a JSON object; field-level nulls and scalars pass.\<close>

fun message_objects :: "('d \<Rightarrow> string \<Rightarrow> (bool \<times> 'd) option) \<Rightarrow> 'd \<Rightarrow> json \<Rightarrow> bool"
  and member_objects :: "('d \<Rightarrow> string \<Rightarrow> (bool \<times> 'd) option) \<Rightarrow> 'd \<Rightarrow> members \<Rightarrow> bool"
  and item_objects :: "('d \<Rightarrow> string \<Rightarrow> (bool \<times> 'd) option) \<Rightarrow> 'd \<Rightarrow> json list \<Rightarrow> bool" where
  "message_objects sub d (JObj ms) = member_objects sub d ms"
| "message_objects sub d _ = False"
| "member_objects sub d [] = True"
| "member_objects sub d ((name, item) # ms) =
     ((case sub d name of
         None \<Rightarrow> True
       | Some (repeated, t) \<Rightarrow>
           if item = JNull then True
           else if repeated then (case item of JArr xs \<Rightarrow> item_objects sub t xs | _ \<Rightarrow> True)
           else message_objects sub t item) \<and> member_objects sub d ms)"
| "item_objects sub d [] = True"
| "item_objects sub d (x # xs) = (message_objects sub d x \<and> item_objects sub d xs)"

definition parse_otlp_request :: "('d, 'r) protobuf \<Rightarrow> json \<Rightarrow> 'r option" where
  "parse_otlp_request pb payload =
     (if message_objects (pb_fields pb) (pb_descriptor pb) payload then pb_parse pb payload else None)"

section \<open>Attributes\<close>

datatype any_value =
    String_value string
  | Bool_value bool
  | Int_value int
  | Double_value rat
  | Composite_value

record key_value =
  kv_key :: string
  kv_value :: any_value

fun otlp_attribute_value :: "any_value \<Rightarrow> attribute option" where
  "otlp_attribute_value (String_value s) = Some (AStr s)"
| "otlp_attribute_value (Bool_value b) = Some (ABool b)"
| "otlp_attribute_value (Int_value i) = Some (AInt i)"
| "otlp_attribute_value (Double_value d) = Some (AFloat d)"
| "otlp_attribute_value Composite_value = None"

text \<open>\<open>d[key] = value\<close> keeps the position of a key that is there.\<close>

fun dict_set :: "'k \<Rightarrow> 'v \<Rightarrow> ('k \<times> 'v) list \<Rightarrow> ('k \<times> 'v) list" where
  "dict_set k v [] = [(k, v)]"
| "dict_set k v ((k', w) # d) = (if k' = k then (k, v) # d else (k', w) # dict_set k v d)"

lemma map_of_dict_set [simp]: "map_of (dict_set k v d) = (map_of d)(k \<mapsto> v)"
  by (induction k v d rule: dict_set.induct) (auto simp: fun_eq_iff)

lemma keys_dict_set: "fst ` set (dict_set k v d) = insert k (fst ` set d)"
  by (induction k v d rule: dict_set.induct) auto

lemma distinct_dict_set [simp]: "distinct (map fst d) \<Longrightarrow> distinct (map fst (dict_set k v d))"
  by (induction k v d rule: dict_set.induct) (auto simp: keys_dict_set)

text \<open>\<open>{**a, **b}\<close>\<close>

definition dict_update :: "('k \<times> 'v) list \<Rightarrow> ('k \<times> 'v) list \<Rightarrow> ('k \<times> 'v) list" where
  "dict_update a b = foldl (\<lambda>d (k, v). dict_set k v d) a b"

lemma dict_update_simps [simp]:
  "dict_update a [] = a"
  "dict_update a ((k, v) # b) = dict_update (dict_set k v a) b"
  by (simp_all add: dict_update_def)

lemma distinct_dict_update [simp]: "distinct (map fst a) \<Longrightarrow> distinct (map fst (dict_update a b))"
  by (induction b arbitrary: a) auto

lemma map_of_dict_update: "distinct (map fst b) \<Longrightarrow> map_of (dict_update a b) = map_of a ++ map_of b"
proof (induction b arbitrary: a)
  case (Cons x b)
  obtain k v where x: "x = (k, v)" by (cases x)
  from Cons.prems have "k \<notin> dom (map_of b)" by (simp add: x dom_map_of_conv_image_fst)
  with Cons show ?case by (auto simp: x map_add_def fun_eq_iff split: option.splits)
qed simp

definition otlp_attributes :: "key_value list \<Rightarrow> attributes" where
  "otlp_attributes items = foldl (\<lambda>d item.
     case otlp_attribute_value (kv_value item) of
       None \<Rightarrow> d
     | Some v \<Rightarrow> dict_set (kv_key item) v d) [] items"

lemma distinct_otlp_attributes [simp]: "distinct (map fst (otlp_attributes items))"
proof -
  have "distinct (map fst (foldl (\<lambda>d item. case otlp_attribute_value (kv_value item) of
      None \<Rightarrow> d | Some v \<Rightarrow> dict_set (kv_key item) v d) d items))"
    if "distinct (map fst d)" for d
    using that by (induction items arbitrary: d) (auto split: option.splits)
  then show ?thesis by (simp add: otlp_attributes_def)
qed

text \<open>The attributes of a point or span: its own win over those of its scope, these over the resource's.\<close>

definition effective_attributes ::
  "key_value list \<Rightarrow> key_value list \<Rightarrow> key_value list \<Rightarrow> attributes" where
  "effective_attributes resource scope item =
     dict_update (dict_update (otlp_attributes resource) (otlp_attributes scope)) (otlp_attributes item)"

lemma distinct_effective [simp]: "distinct (map fst (effective_attributes r s i))"
  by (simp add: effective_attributes_def)

lemma effective_lookup: "map_of (effective_attributes r s i) =
    map_of (otlp_attributes r) ++ map_of (otlp_attributes s) ++ map_of (otlp_attributes i)"
  by (simp add: effective_attributes_def map_of_dict_update)

end
