(* ===== verification/Evidence.thy ===== *)
theory Evidence
  imports Otlp_Messages Bindings Datasets
begin

text \<open>
  Verified evidence: opening a file beneath a directory (harness/_evidence_files.py), artifact
  receipts with their verifications and dependencies (harness/receipts.py) and the evidence
  index whose links are all verified (harness/evidence.py). The file system is a tree; hashing,
  document parsing and the resolution of paths and URIs by the standard library are arguments
  or fields of the inputs.
\<close>

section \<open>Opening a file beneath a directory\<close>

datatype fs_entry =
    Directory "(string \<times> fs_entry) list"
  | Regular file_read
  | Symlink string
  | Special

datatype evidence_read_error =
    Outside_directory
  | Not_below_directory
  | Not_regular
  | File_not_found
  | Os_error
  | Exceeds_capture_limit
  | Size_differs
  | Grew_while_read
  | Changed_while_read
  | Digest_differs

text \<open>
  \<open>_descriptor\<close>: every component but the last is opened as a directory without following a
  link, the last one without following a link either.
\<close>

fun descriptor :: "fs_entry \<Rightarrow> string list \<Rightarrow> evidence_read_error + fs_entry" where
  "descriptor (Directory entries) [name] =
     (case map_of entries name of
        None \<Rightarrow> Inl File_not_found
      | Some (Symlink _) \<Rightarrow> Inl Os_error
      | Some entry \<Rightarrow> Inr entry)"
| "descriptor (Directory entries) (component # rest) =
     (case map_of entries component of
        None \<Rightarrow> Inl File_not_found
      | Some entry \<Rightarrow> (case entry of Directory _ \<Rightarrow> descriptor entry rest | _ \<Rightarrow> Inl Os_error))"
| "descriptor _ _ = Inl Os_error"

text \<open>The directory of the index: its resolved path and the tree below it.\<close>

record evidence_root =
  er_path :: "string list"
  er_entry :: fs_entry

definition relative_to :: "string list \<Rightarrow> string list \<Rightarrow> string list option" where
  "relative_to path base = (if take (length base) path = base then Some (drop (length base) path) else None)"

definition open_evidence :: "string list \<Rightarrow> evidence_root \<Rightarrow> evidence_read_error + file_read" where
  "open_evidence path base =
     (case relative_to path (er_path base) of
        None \<Rightarrow> Inl Outside_directory
      | Some relative \<Rightarrow>
          if relative = [] \<or> ''..'' \<in> set relative then Inl Not_below_directory
          else and_then (descriptor (er_entry base) relative) (\<lambda>entry.
            case entry of Regular f \<Rightarrow> Inr f | _ \<Rightarrow> Inl Not_regular))"

section \<open>Reading verified bytes\<close>

text \<open>The loop reads one byte more than is left, so that growth shows.\<close>

function read_chunks :: "nat \<Rightarrow> nat list \<Rightarrow> nat list \<Rightarrow> evidence_read_error + nat list" where
  "read_chunks expected seen rest =
     (let chunk = take (min 1048576 (expected - length seen + 1)) rest in
      if chunk = [] then Inr seen
      else if expected < length seen + length chunk then Inl Grew_while_read
      else read_chunks expected (seen @ chunk) (drop (length chunk) rest))"
  by pat_completeness auto
termination
  by (relation "measure (\<lambda>(expected, seen, rest). length rest)") auto

declare read_chunks.simps [simp del]

record artifact_bytes =
  ab_sha256 :: string
  ab_size_bytes :: nat

definition verified_payload ::
  "(nat list \<Rightarrow> string) \<Rightarrow> string list \<Rightarrow> artifact_bytes \<Rightarrow> evidence_root \<Rightarrow> nat option
    \<Rightarrow> evidence_read_error + nat list" where
  "verified_payload digest path reference base capture_limit =
     checked (case capture_limit of None \<Rightarrow> None
       | Some limit \<Rightarrow> require (\<not> limit < ab_size_bytes reference) Exceeds_capture_limit)
     (and_then (open_evidence path base) (\<lambda>f.
      checked (require (fst (fr_before f) = ab_size_bytes reference) Size_differs)
      (and_then (read_chunks (ab_size_bytes reference) [] (fr_content f)) (\<lambda>payload.
       checked (first_error
         [require (\<not> (length payload \<noteq> ab_size_bytes reference \<or> fr_before f \<noteq> fr_after f))
            Changed_while_read,
          require (digest payload = ab_sha256 reference) Digest_differs])
       (Inr (case capture_limit of None \<Rightarrow> [] | Some _ \<Rightarrow> payload))))))"

lemma read_chunks_reads:
  "length seen \<le> expected \<Longrightarrow> read_chunks expected seen rest =
     (if length seen + length rest \<le> expected then Inr (seen @ rest) else Inl Grew_while_read)"
proof (induction expected seen rest rule: read_chunks.induct)
  case (1 expected seen rest)
  define k where "k = min 1048576 (expected - length seen + 1)"
  define chunk where "chunk = take k rest"
  have k: "0 < k" "k \<le> expected - length seen + 1" by (simp_all add: k_def)
  have step: "read_chunks expected seen rest =
      (if chunk = [] then Inr seen
       else if expected < length seen + length chunk then Inl Grew_while_read
       else read_chunks expected (seen @ chunk) (drop (length chunk) rest))"
    by (subst read_chunks.simps) (simp add: Let_def chunk_def k_def)
  show ?case
  proof (cases "chunk = []")
    case True
    with k have "rest = []" by (simp add: chunk_def)
    with True step 1(2) show ?thesis by simp
  next
    case False
    have split: "chunk @ drop (length chunk) rest = rest"
      unfolding chunk_def by (cases "length rest \<le> k") simp_all
    then have len: "length chunk + length (drop (length chunk) rest) = length rest"
      by (metis length_append)
    show ?thesis
    proof (cases "expected < length seen + length chunk")
      case True
      with step False len show ?thesis by simp
    next
      case more: False
      have "read_chunks expected (seen @ chunk) (drop (length chunk) rest) =
          (if length (seen @ chunk) + length (drop (length chunk) rest) \<le> expected
           then Inr ((seen @ chunk) @ drop (length chunk) rest) else Inl Grew_while_read)"
        using 1(1) [of chunk] False more by (simp add: chunk_def k_def)
      with step False more len split show ?thesis by simp
    qed
  qed
qed

lemma read_chunks_whole [code_unfold]:
  "read_chunks expected [] content = (if length content \<le> expected then Inr content else Inl Grew_while_read)"
  by (simp add: read_chunks_reads)

text \<open>
  The bytes returned are the whole file as long as the reference says, with its digest, read
  from a regular file below the directory that no component reaches through a link.
\<close>

lemma payload_verified:
  assumes "verified_payload digest path reference base limit = Inr payload"
  obtains f where "open_evidence path base = Inr f" "length (fr_content f) = ab_size_bytes reference"
    "digest (fr_content f) = ab_sha256 reference" "fr_before f = fr_after f"
    "payload = (case limit of None \<Rightarrow> [] | Some _ \<Rightarrow> fr_content f)"
proof -
  obtain f p where f: "open_evidence path base = Inr f" and
    p: "read_chunks (ab_size_bytes reference) [] (fr_content f) = Inr p" and
    facts: "length p = ab_size_bytes reference" "fr_before f = fr_after f"
      "digest p = ab_sha256 reference" "payload = (case limit of None \<Rightarrow> [] | Some _ \<Rightarrow> p)"
    using assms unfolding verified_payload_def
    by (auto simp only: checked_Inr and_then_Inr first_error_Cons_None require_None de_Morgan_disj
        not_not sum.inject)
  from p have "p = fr_content f"
    using read_chunks_reads [of "[]" "ab_size_bytes reference" "fr_content f"] by (simp split: if_splits)
  with f facts that show ?thesis by blast
qed

lemma regular_entry: "(case entry of Regular f \<Rightarrow> Inr f | _ \<Rightarrow> Inl e) = Inr g \<longleftrightarrow> entry = Regular g"
  by (cases entry) auto

lemma opened_below:
  assumes "open_evidence path base = Inr f"
  obtains relative where "path = er_path base @ relative" "relative \<noteq> []" "''..'' \<notin> set relative"
    "descriptor (er_entry base) relative = Inr (Regular f)"
proof -
  obtain relative where r: "relative_to path (er_path base) = Some relative" "relative \<noteq> []"
    "''..'' \<notin> set relative" "descriptor (er_entry base) relative = Inr (Regular f)"
    using assms by (auto simp: open_evidence_def regular_entry split: option.splits if_splits)
  have "path = er_path base @ relative"
    using r(1) by (auto simp: relative_to_def split: if_splits) (metis append_take_drop_id)
  with r that show ?thesis by blast
qed

section \<open>Receipts\<close>

record loaded_receipt =
  lc_sha256 :: string
  lc_verification_sha256 :: string
  lc_run_id :: "string option"
  lc_receipt :: receipt

record loaded_verification =
  lv_sha256 :: string
  lv_verification :: verification

record verified_receipt =
  vr_receipt :: loaded_receipt
  vr_verification :: loaded_verification

datatype receipt_set_error =
    Dependency_repeated
  | Document_repeated string
  | Verification_not_supplied string
  | Receipt_rejected string receipt_error
  | Verification_unreferenced
  | Dependency_unreferenced
  | Receipt_not_supplied
  | Receipt_of_other_bytes
  | Receipt_of_another_run
  | Inventory_combined
  | Inventory_path_invalid
  | Inventory_path_not_canonical
  | Inventory_groups_differ
  | Inventory_group_invalid string
  | Inventory_paths_repeated string
  | Inventory_unreadable

text \<open>\<open>_raw_digests\<close> and \<open>_documents\<close>: a dict by digest, refusing a second entry.\<close>

definition raw_digests :: "string list \<Rightarrow> receipt_set_error + string list" where
  "raw_digests digests = checked (require (unique_by id digests) Dependency_repeated) (Inr digests)"

definition documents_by_digest ::
  "('a \<Rightarrow> string) \<Rightarrow> string \<Rightarrow> 'a list \<Rightarrow> receipt_set_error + 'a list" where
  "documents_by_digest sha256 role documents =
     checked (require (unique_by sha256 documents) (Document_repeated role)) (Inr documents)"

text \<open>One step of the loop: the verification of a receipt and the dependencies it uses.\<close>

definition verify_receipt ::
  "loaded_verification list \<Rightarrow> string list \<Rightarrow> loaded_receipt
    \<Rightarrow> receipt_set_error + verified_receipt \<times> string set" where
  "verify_receipt verifications dependencies r =
     (case dict_by lv_sha256 verifications (lc_verification_sha256 r) of
        None \<Rightarrow> Inl (Verification_not_supplied (lc_sha256 r))
      | Some v \<Rightarrow> (case validate_artifact_receipt (lc_receipt r) (lv_verification v) dependencies of
          Inl e \<Rightarrow> Inl (Receipt_rejected (lc_sha256 r) e)
        | Inr used \<Rightarrow> Inr (\<lparr>vr_receipt = r, vr_verification = v\<rparr>, used)))"

definition verify_documents ::
  "loaded_receipt list \<Rightarrow> loaded_verification list \<Rightarrow> string list
    \<Rightarrow> receipt_set_error + verified_receipt list" where
  "verify_documents receipts verifications dependencies =
     and_then (map_res (verify_receipt verifications dependencies) receipts) (\<lambda>verified.
       checked (first_error
         [require ((lv_sha256 \<circ> vr_verification \<circ> fst) ` set verified = lv_sha256 ` set verifications)
            Verification_unreferenced,
          require ((\<Union>(_, used) \<in> set verified. used) = set dependencies) Dependency_unreferenced])
       (Inr (map fst verified)))"

definition load_verified_receipts ::
  "loaded_receipt list \<Rightarrow> loaded_verification list \<Rightarrow> string list
    \<Rightarrow> receipt_set_error + verified_receipt list" where
  "load_verified_receipts receipts verifications dependency_digests =
     and_then (documents_by_digest lc_sha256 ''artifact_receipt'' receipts) (\<lambda>receipts.
     and_then (documents_by_digest lv_sha256 ''artifact_verification'' verifications) (\<lambda>verifications.
     and_then (raw_digests dependency_digests) (\<lambda>dependencies.
       verify_documents receipts verifications dependencies)))"

text \<open>\<open>artifact.get(field)\<close> for every expected field, compared with what is expected.\<close>

definition artifact_field :: "json \<Rightarrow> string \<Rightarrow> json" where
  "artifact_field artifact field =
     (case artifact of JObj ms \<Rightarrow> (case map_of ms field of None \<Rightarrow> JNull | Some v \<Rightarrow> v) | _ \<Rightarrow> JNull)"

definition describes_bytes :: "json \<Rightarrow> (string \<times> json) list \<Rightarrow> bool" where
  "describes_bytes artifact expected \<longleftrightarrow>
     list_all (\<lambda>(field, v). py_eq (artifact_field artifact field) v) expected"

definition verify_artifact ::
  "verified_receipt list \<Rightarrow> string \<Rightarrow> (string \<times> json) list \<Rightarrow> string option
    \<Rightarrow> receipt_set_error + verified_receipt" where
  "verify_artifact receipts receipt_sha256 expected run_id =
     (case dict_by (lc_sha256 \<circ> vr_receipt) receipts receipt_sha256 of
        None \<Rightarrow> Inl Receipt_not_supplied
      | Some verified \<Rightarrow> checked (first_error
          [require (describes_bytes (rc_artifact (lc_receipt (vr_receipt verified))) expected)
             Receipt_of_other_bytes,
           require (\<not> (run_id \<noteq> None \<and> lc_run_id (vr_receipt verified) \<noteq> run_id))
             Receipt_of_another_run])
          (Inr verified))"

section \<open>Receipt inventories\<close>

text \<open>The parts of a \<open>PurePosixPath\<close> that is not absolute: empty and dot components vanish.\<close>

definition posix_parts :: "string \<Rightarrow> string list" where
  "posix_parts value = filter (\<lambda>c. c \<noteq> '''' \<and> c \<noteq> ''.'') (split_on (CHR ''/'') value)"

fun join_path :: "string list \<Rightarrow> string" where
  "join_path [] = ''''"
| "join_path [c] = c"
| "join_path (c # cs) = c @ ''/'' @ join_path cs"

definition inventory_path :: "json \<Rightarrow> receipt_set_error + string list" where
  "inventory_path v =
     (case v of
        JStr text \<Rightarrow>
          if text = '''' \<or> CHR 0x5C \<in> set text \<or> CHR '':'' \<in> set text \<or> CHR 0x00 \<in> set text
          then Inl Inventory_path_invalid
          else (let parts = posix_parts text in
            if hd text = CHR ''/'' \<or> ''..'' \<in> set parts \<or> parts = [] \<or> join_path parts \<noteq> text
            then Inl Inventory_path_not_canonical else Inr parts)
      | _ \<Rightarrow> Inl Inventory_path_invalid)"

fun inventory_groups ::
  "(string \<Rightarrow> json option) \<Rightarrow> string list list \<Rightarrow> string list
    \<Rightarrow> receipt_set_error + (string \<times> string list list) list" where
  "inventory_groups data seen [] = Inr []"
| "inventory_groups data seen (name # groups) =
     (case data name of
        Some (JArr values) \<Rightarrow>
          if 4096 < length values + length seen then Inl (Inventory_group_invalid name)
          else and_then (map_res inventory_path values) (\<lambda>selected.
            if card (set selected) \<noteq> length selected \<or> set seen \<inter> set selected \<noteq> {}
            then Inl (Inventory_paths_repeated name)
            else and_then (inventory_groups data (seen @ selected) groups) (\<lambda>rest.
              Inr ((name, selected) # rest)))
      | _ \<Rightarrow> Inl (Inventory_group_invalid name))"

definition inventory_paths ::
  "(string \<times> json) list \<Rightarrow> receipt_set_error + (string \<times> string list list) list" where
  "inventory_paths data =
     (if fst ` set data \<noteq> {''receipts'', ''verifications'', ''dependencies''}
      then Inl Inventory_groups_differ
      else inventory_groups (map_of data) [] [''receipts'', ''verifications'', ''dependencies''])"

lemma posix_parts_clean: "c \<in> set (posix_parts text) \<Longrightarrow> c \<noteq> '''' \<and> c \<noteq> ''.''"
  by (simp add: posix_parts_def)

lemma inventory_path_below:
  assumes "inventory_path v = Inr parts"
  shows "parts \<noteq> []" "c \<in> set parts \<Longrightarrow> c \<notin> {'''', ''.'', ''..''}" "v = JStr (join_path parts)"
proof -
  obtain content where t: "v = JStr content" "parts = posix_parts content" "''..'' \<notin> set parts" "parts \<noteq> []"
    "join_path parts = content"
    using assms by (auto simp: inventory_path_def Let_def split: json.splits if_splits)
  then show "parts \<noteq> []" "v = JStr (join_path parts)" by simp_all
  show "c \<notin> {'''', ''.'', ''..''}"if "c \<in> set parts"
    using posix_parts_clean [of c content] that t(2,3) by auto
qed

lemma inventory_groups_accepted:
  "inventory_groups data seen groups = Inr paths \<Longrightarrow> distinct seen \<Longrightarrow> length seen \<le> 4096 \<Longrightarrow>
     map fst paths = groups \<and> distinct (seen @ concat (map snd paths)) \<and>
     length (seen @ concat (map snd paths)) \<le> 4096 \<and>
     (\<forall>p \<in> set (concat (map snd paths)). p \<noteq> [] \<and> set p \<inter> {'''', ''.'', ''..''} = {})"
proof (induction groups arbitrary: seen paths)
  case (Cons name groups)
  obtain vs where v: "data name = Some (JArr vs)" "length vs + length seen \<le> 4096"
    using Cons.prems(1) by (auto split: option.splits json.splits if_splits)
  with Cons.prems(1) obtain selected rest where s: "map_res inventory_path vs = Inr selected"
    "distinct selected" "set seen \<inter> set selected = {}"
    "inventory_groups data (seen @ selected) groups = Inr rest" "paths = (name, selected) # rest"
    by (auto simp: card_distinct split: if_splits)
  have "length selected = length vs"
    using s(1) by (auto simp: map_res_Inr dest: list_all2_lengthD)
  with v(2) s(2,3) Cons.prems(2) have "distinct (seen @ selected)" "length (seen @ selected) \<le> 4096" by auto
  note IH = Cons.IH [OF s(4) this]
  have "\<forall>p \<in> set selected. p \<noteq> [] \<and> set p \<inter> {'''', ''.'', ''..''} = {}"
  proof
    fix p assume "p \<in> set selected"
    then obtain v where "inventory_path v = Inr p" using map_res_member [OF s(1)] by blast
    from inventory_path_below [OF this] show "p \<noteq> [] \<and> set p \<inter> {'''', ''.'', ''..''} = {}" by blast
  qed
  with IH show ?case by (auto simp: s(5))
qed simp


section \<open>The evidence index\<close>

text \<open>
  A file URI as \<open>urlsplit\<close>, \<open>url2pathname\<close> and \<open>Path.resolve\<close> read it, and a local path with its
  absolute and its resolved components.
\<close>

record file_uri =
  fu_text :: string
  fu_scheme :: string
  fu_netloc :: string
  fu_absolute :: "string list"
  fu_resolved :: "string list"

record local_path =
  lp_absolute :: "string list"
  lp_resolved :: "string list"

record summary_reference =
  sy_uri :: file_uri
  sy_bytes :: artifact_bytes

record index_artifact =
  ia_artifact_id :: string
  ia_kind :: string
  ia_uri :: file_uri
  ia_media_type :: string
  ia_bytes :: artifact_bytes
  ia_retention_class :: string
  ia_local :: bool
  ia_local_path :: "local_path option"
  ia_immutable_revision :: "string option"
  ia_receipt_sha256 :: "string option"
  ia_segment_index :: "int option"
  ia_summary :: "summary_reference option"

record loaded_index =
  li_sha256 :: string
  li_run_id :: string
  li_root :: evidence_root
  li_artifacts :: "index_artifact list"

record recording_summary =
  ry_sha256 :: string
  ry_source_sha256 :: string

record result_link =
  rl_artifact_id :: string
  rl_kind :: string
  rl_uri :: string
  rl_immutable_revision :: "string option"
  rl_receipt_sha256 :: "string option"
  rl_media_type :: string
  rl_bytes :: artifact_bytes
  rl_retention_class :: string
  rl_segment_index :: "int option"

record verified_index =
  vx_index :: loaded_index
  vx_links :: "result_link list"
  vx_local_files :: "(string list \<times> result_link) list"
  vx_summaries :: "recording_summary list"
  vx_receipts :: "verified_receipt list"

datatype evidence_error =
    Index_of_another_run
  | Receipts_rejected receipt_set_error
  | Artifact_key_missing nat string
  | Local_uri_required nat
  | Local_path_differs nat
  | Local_unreadable nat evidence_read_error
  | Retained_rejected nat receipt_set_error
  | Summary_not_local nat
  | Summary_unreadable nat evidence_read_error
  | Summary_rejected nat
  | Summary_of_another_recording nat
  | Receipt_unreferenced
  | Read_budget_invalid
  | Source_not_verified
  | Source_exceeds_budget
  | Source_unreadable evidence_read_error

definition is_local_uri :: "file_uri \<Rightarrow> bool" where
  "is_local_uri uri \<longleftrightarrow> \<not> (fu_scheme uri \<noteq> ''file'' \<or> fu_netloc uri \<notin> {'''', ''localhost''})"

definition as_read :: "('r \<Rightarrow> evidence_error) \<Rightarrow> 'r + 'a \<Rightarrow> evidence_error + 'a" where
  "as_read e m = (case m of Inl r \<Rightarrow> Inl (e r) | Inr x \<Rightarrow> Inr x)"

lemma as_read_Inr [simp, check_simps]: "as_read e m = Inr x \<longleftrightarrow> m = Inr x"
  by (cases m) (simp_all add: as_read_def)

definition required :: "'e \<Rightarrow> 'a option \<Rightarrow> 'e + 'a" where
  "required e v = (case v of None \<Rightarrow> Inl e | Some x \<Rightarrow> Inr x)"

lemma required_Inr [simp, check_simps]: "required e v = Inr x \<longleftrightarrow> v = Some x"
  by (cases v) (simp_all add: required_def)

definition result_link_of :: "index_artifact \<Rightarrow> result_link" where
  "result_link_of artifact = \<lparr>rl_artifact_id = ia_artifact_id artifact, rl_kind = ia_kind artifact,
     rl_uri = fu_text (ia_uri artifact), rl_immutable_revision = ia_immutable_revision artifact,
     rl_receipt_sha256 = ia_receipt_sha256 artifact, rl_media_type = ia_media_type artifact,
     rl_bytes = ia_bytes artifact, rl_retention_class = ia_retention_class artifact,
     rl_segment_index = ia_segment_index artifact\<rparr>"

definition local_link ::
  "(nat list \<Rightarrow> string) \<Rightarrow> evidence_root \<Rightarrow> nat \<Rightarrow> index_artifact
    \<Rightarrow> evidence_error + string list \<times> result_link" where
  "local_link digest base index artifact =
     and_then (required (Artifact_key_missing index ''local_path'') (ia_local_path artifact)) (\<lambda>path.
     checked (first_error
       [require (is_local_uri (ia_uri artifact)) (Local_uri_required index),
        require (fu_resolved (ia_uri artifact) = lp_resolved path) (Local_path_differs index)])
     (and_then (as_read (Local_unreadable index)
         (verified_payload digest (lp_absolute path) (ia_bytes artifact) base None)) (\<lambda>_.
       Inr (lp_resolved path, result_link_of artifact))))"

definition expected_artifact :: "index_artifact \<Rightarrow> string \<Rightarrow> (string \<times> json) list" where
  "expected_artifact artifact revision =
     [(''uri'', JStr (fu_text (ia_uri artifact))),
      (''sha256'', JStr (ab_sha256 (ia_bytes artifact))),
      (''size_bytes'', JInt (int (ab_size_bytes (ia_bytes artifact)))),
      (''media_type'', JStr (ia_media_type artifact)),
      (''immutable_revision'', JStr revision)]"

definition remote_link ::
  "verified_receipt list \<Rightarrow> string \<Rightarrow> nat \<Rightarrow> index_artifact \<Rightarrow> evidence_error + result_link" where
  "remote_link receipts run_id index artifact =
     and_then (required (Artifact_key_missing index ''immutable_revision'') (ia_immutable_revision artifact))
       (\<lambda>revision.
     and_then (required (Artifact_key_missing index ''receipt_sha256'') (ia_receipt_sha256 artifact))
       (\<lambda>receipt_sha256.
     and_then (as_read (Retained_rejected index)
         (verify_artifact receipts receipt_sha256 (expected_artifact artifact revision) (Some run_id)))
       (\<lambda>_. Inr (result_link_of artifact))))"

definition MAX_DOCUMENT_BYTES :: nat where
  "MAX_DOCUMENT_BYTES = 8 * 1024 * 1024"

definition local_summary ::
  "(nat list \<Rightarrow> string) \<Rightarrow> (nat list \<Rightarrow> recording_summary option) \<Rightarrow> evidence_root \<Rightarrow> nat
    \<Rightarrow> index_artifact \<Rightarrow> evidence_error + recording_summary" where
  "local_summary digest parse base index artifact =
     and_then (required (Artifact_key_missing index ''recording_summary'') (ia_summary artifact))
       (\<lambda>reference.
     checked (require (is_local_uri (sy_uri reference)) (Summary_not_local index))
     (and_then (as_read (Summary_unreadable index)
         (verified_payload digest (fu_absolute (sy_uri reference)) (sy_bytes reference) base
           (Some MAX_DOCUMENT_BYTES))) (\<lambda>raw.
      and_then (required (Summary_rejected index) (parse raw)) (\<lambda>summary.
      checked (require (ry_source_sha256 summary = ab_sha256 (ia_bytes artifact))
        (Summary_of_another_recording index))
      (Inr summary)))))"

text \<open>One artifact of the loop: its link, its local path, its receipt and its summary.\<close>

record artifact_step =
  ak_link :: result_link
  ak_local :: "string list option"
  ak_receipt :: "string option"
  ak_summary :: "recording_summary option"

definition index_link ::
  "(nat list \<Rightarrow> string) \<Rightarrow> loaded_index \<Rightarrow> verified_receipt list \<Rightarrow> nat \<times> index_artifact
    \<Rightarrow> evidence_error + result_link \<times> string list option \<times> string option" where
  "index_link digest document receipts step =
     (case step of (index, artifact) \<Rightarrow>
       if ia_local artifact
       then and_then (local_link digest (li_root document) index artifact) (\<lambda>(path, link).
         Inr (link, Some path, None))
       else and_then (remote_link receipts (li_run_id document) index artifact) (\<lambda>link.
         Inr (link, None, ia_receipt_sha256 artifact)))"

definition index_step ::
  "(nat list \<Rightarrow> string) \<Rightarrow> (nat list \<Rightarrow> recording_summary option) \<Rightarrow> loaded_index
    \<Rightarrow> verified_receipt list \<Rightarrow> nat \<times> index_artifact \<Rightarrow> evidence_error + artifact_step" where
  "index_step digest parse document receipts step =
     and_then (index_link digest document receipts step) (\<lambda>(link, path, receipt).
       if ia_kind (snd step) = ''recording''
       then and_then (local_summary digest parse (li_root document) (fst step) (snd step)) (\<lambda>summary.
         Inr \<lparr>ak_link = link, ak_local = path, ak_receipt = receipt, ak_summary = Some summary\<rparr>)
       else Inr \<lparr>ak_link = link, ak_local = path, ak_receipt = receipt, ak_summary = None\<rparr>)"

definition local_files_of :: "artifact_step list \<Rightarrow> (string list \<times> result_link) list" where
  "local_files_of steps = List.map_filter (\<lambda>s. map_option (\<lambda>path. (path, ak_link s)) (ak_local s)) steps"

definition load_evidence_index ::
  "(nat list \<Rightarrow> string) \<Rightarrow> (nat list \<Rightarrow> recording_summary option) \<Rightarrow> string option \<Rightarrow> loaded_index
    \<Rightarrow> loaded_receipt list \<Rightarrow> loaded_verification list \<Rightarrow> string list \<Rightarrow> evidence_error + verified_index" where
  "load_evidence_index digest parse expected_run_id document receipts verifications dependencies =
     checked (require (\<not> (expected_run_id \<noteq> None \<and> Some (li_run_id document) \<noteq> expected_run_id))
       Index_of_another_run)
     (and_then (as_read Receipts_rejected (load_verified_receipts receipts verifications dependencies))
       (\<lambda>verified.
      and_then (map_res (index_step digest parse document verified) (enumerate 0 (li_artifacts document)))
       (\<lambda>steps.
        checked (require (set (List.map_filter ak_receipt steps) = (lc_sha256 \<circ> vr_receipt) ` set verified)
          Receipt_unreferenced)
        (Inr \<lparr>vx_index = document, vx_links = map ak_link steps, vx_local_files = local_files_of steps,
           vx_summaries = List.map_filter ak_summary steps, vx_receipts = verified\<rparr>))))"

text \<open>\<open>VerifiedEvidence.read_local\<close>; a dict keeps the last link of a path.\<close>

definition read_local ::
  "(nat list \<Rightarrow> string) \<Rightarrow> verified_index \<Rightarrow> local_path \<Rightarrow> int option \<Rightarrow> evidence_error + nat list" where
  "read_local digest v source budget =
     checked (require (case budget of None \<Rightarrow> True | Some b \<Rightarrow> \<not> b \<le> 0) Read_budget_invalid)
     (and_then (required Source_not_verified (map_of (rev (vx_local_files v)) (lp_resolved source)))
       (\<lambda>reference.
      checked (require (case budget of None \<Rightarrow> True | Some b \<Rightarrow> \<not> b < int (ab_size_bytes (rl_bytes reference)))
        Source_exceeds_budget)
      (as_read Source_unreadable (verified_payload digest (lp_resolved source) (rl_bytes reference)
        (li_root (vx_index v)) (Some (case budget of None \<Rightarrow> MAX_DOCUMENT_BYTES | Some b \<Rightarrow> nat b))))))"


section \<open>What verified evidence is\<close>

definition bytes_verified :: "(nat list \<Rightarrow> string) \<Rightarrow> evidence_root \<Rightarrow> string list \<Rightarrow> artifact_bytes \<Rightarrow> bool" where
  "bytes_verified digest base path reference \<longleftrightarrow>
     (\<exists>f relative. path = er_path base @ relative \<and> ''..'' \<notin> set relative \<and>
        descriptor (er_entry base) relative = Inr (Regular f) \<and> fr_before f = fr_after f \<and>
        length (fr_content f) = ab_size_bytes reference \<and> digest (fr_content f) = ab_sha256 reference)"

definition receipt_grounded :: "string list \<Rightarrow> verified_receipt \<Rightarrow> bool" where
  "receipt_grounded dependencies r \<longleftrightarrow>
     (let c = lc_receipt (vr_receipt r); v = lv_verification (vr_verification r) in
      lc_verification_sha256 (vr_receipt r) = lv_sha256 (vr_verification r) \<and>
      vf_statement_sha256 v = rc_statement_sha256 c \<and> py_eq (vf_artifact v) (rc_artifact c) \<and>
      py_eq (vf_producer_identity v) (rc_producer_identity c) \<and>
      set (receipt_dependencies c v) \<subseteq> set dependencies)"

definition artifact_verified :: "(nat list \<Rightarrow> string) \<Rightarrow> verified_index \<Rightarrow> index_artifact \<Rightarrow> bool" where
  "artifact_verified digest v a \<longleftrightarrow>
     (if ia_local a
      then \<exists>path. ia_local_path a = Some path \<and> lp_resolved path = fu_resolved (ia_uri a) \<and>
        (lp_resolved path, result_link_of a) \<in> set (vx_local_files v) \<and>
        bytes_verified digest (li_root (vx_index v)) (lp_absolute path) (ia_bytes a)
      else \<exists>r \<in> set (vx_receipts v). \<exists>revision.
        ia_receipt_sha256 a = Some (lc_sha256 (vr_receipt r)) \<and> ia_immutable_revision a = Some revision \<and>
        lc_run_id (vr_receipt r) = Some (li_run_id (vx_index v)) \<and>
        describes_bytes (rc_artifact (lc_receipt (vr_receipt r))) (expected_artifact a revision))"

text \<open>Nothing is unverified, and nothing supplied is unused.\<close>

definition evidence_grounded ::
  "(nat list \<Rightarrow> string) \<Rightarrow> loaded_verification list \<Rightarrow> string list \<Rightarrow> verified_index \<Rightarrow> bool" where
  "evidence_grounded digest verifications dependencies v \<longleftrightarrow>
     vx_links v = map result_link_of (li_artifacts (vx_index v)) \<and>
     (\<forall>a \<in> set (li_artifacts (vx_index v)). artifact_verified digest v a) \<and>
     (\<forall>r \<in> set (vx_receipts v). receipt_grounded dependencies r \<and> vr_verification r \<in> set verifications \<and>
        (\<exists>a \<in> set (li_artifacts (vx_index v)). \<not> ia_local a \<and>
           ia_receipt_sha256 a = Some (lc_sha256 (vr_receipt r)))) \<and>
     (lv_sha256 \<circ> vr_verification) ` set (vx_receipts v) = lv_sha256 ` set verifications \<and>
     (\<Union>r \<in> set (vx_receipts v).
        set (receipt_dependencies (lc_receipt (vr_receipt r)) (lv_verification (vr_verification r))))
       = set dependencies"

lemma payload_bytes_verified:
  assumes "verified_payload digest path reference base limit = Inr payload"
  shows "bytes_verified digest base path reference"
proof -
  obtain f where f: "open_evidence path base = Inr f" "length (fr_content f) = ab_size_bytes reference"
    "digest (fr_content f) = ab_sha256 reference" "fr_before f = fr_after f"
    using payload_verified [OF assms] by metis
  obtain relative where "path = er_path base @ relative" "''..'' \<notin> set relative"
    "descriptor (er_entry base) relative = Inr (Regular f)"
    using opened_below [OF f(1)] by metis
  with f show ?thesis unfolding bytes_verified_def by blast
qed

lemma verified_receipts_parts:
  assumes "load_verified_receipts receipts verifications dependencies = Inr verified"
  shows "r \<in> set verified \<Longrightarrow> receipt_grounded dependencies r \<and> vr_verification r \<in> set verifications"
    and "(lv_sha256 \<circ> vr_verification) ` set verified = lv_sha256 ` set verifications"
    and "(\<Union>r \<in> set verified. set (receipt_dependencies (lc_receipt (vr_receipt r))
       (lv_verification (vr_verification r)))) = set dependencies"
proof -
  obtain steps where steps: "map_res (verify_receipt verifications dependencies) receipts = Inr steps"
    and used: "(lv_sha256 \<circ> vr_verification \<circ> fst) ` set steps = lv_sha256 ` set verifications"
      "(\<Union>(_, used) \<in> set steps. used) = set dependencies"
    and verified: "verified = map fst steps"
    using assms
    by (auto simp: load_verified_receipts_def documents_by_digest_def raw_digests_def verify_documents_def
        checked_Inr)
  have one: "receipt_grounded dependencies (fst s) \<and> vr_verification (fst s) \<in> set verifications \<and>
      snd s = set (receipt_dependencies (lc_receipt (vr_receipt (fst s)))
        (lv_verification (vr_verification (fst s))))"
    if s: "s \<in> set steps" for s
  proof -
    obtain r where "verify_receipt verifications dependencies r = Inr s"
      using map_res_member [OF steps s] by blast
    then obtain v used where v: "dict_by lv_sha256 verifications (lc_verification_sha256 r) = Some v"
      "validate_artifact_receipt (lc_receipt r) (lv_verification v) dependencies = Inr used"
      "s = (\<lparr>vr_receipt = r, vr_verification = v\<rparr>, used)"
      by (auto simp: verify_receipt_def split: option.splits sum.splits)
    with dict_by_SomeD [OF v(1)] show ?thesis
      by (auto simp: receipt_grounded_def validate_artifact_receipt_def checked_Inr Let_def)
  qed
  show "receipt_grounded dependencies r \<and> vr_verification r \<in> set verifications" if "r \<in> set verified"
    using that one by (auto simp: verified)
  show "(lv_sha256 \<circ> vr_verification) ` set verified = lv_sha256 ` set verifications"
    using used(1) by (simp add: verified image_comp)
  have "(\<Union>r \<in> set verified. set (receipt_dependencies (lc_receipt (vr_receipt r))
      (lv_verification (vr_verification r)))) = (\<Union>s \<in> set steps. snd s)"
    using one by (simp add: verified)
  also have "\<dots> = set dependencies" using used(2) by (simp add: case_prod_unfold)
  finally show "(\<Union>r \<in> set verified. set (receipt_dependencies (lc_receipt (vr_receipt r))
      (lv_verification (vr_verification r)))) = set dependencies" .
qed

lemma index_step_facts:
  assumes "index_step digest parse document receipts (i, a) = Inr s"
  shows "ak_link s = result_link_of a"
    and "ak_receipt s = (if ia_local a then None else ia_receipt_sha256 a)"
    and "ia_local a \<Longrightarrow> \<exists>path. ia_local_path a = Some path \<and> lp_resolved path = fu_resolved (ia_uri a) \<and>
       ak_local s = Some (lp_resolved path) \<and>
       bytes_verified digest (li_root document) (lp_absolute path) (ia_bytes a)"
    and "\<not> ia_local a \<Longrightarrow> \<exists>r \<in> set receipts. \<exists>revision.
       ia_receipt_sha256 a = Some (lc_sha256 (vr_receipt r)) \<and> ia_immutable_revision a = Some revision \<and>
       lc_run_id (vr_receipt r) = Some (li_run_id document) \<and>
       describes_bytes (rc_artifact (lc_receipt (vr_receipt r))) (expected_artifact a revision)"
proof -
  obtain link path receipt where l: "index_link digest document receipts (i, a) = Inr (link, path, receipt)"
    and s: "ak_link s = link" "ak_local s = path" "ak_receipt s = receipt"
    using assms by (auto simp: index_step_def split: if_splits)
  show "ak_link s = result_link_of a" "ak_receipt s = (if ia_local a then None else ia_receipt_sha256 a)"
    using l by (auto simp: s index_link_def local_link_def remote_link_def checked_Inr split: if_splits)
  show "\<exists>path. ia_local_path a = Some path \<and> lp_resolved path = fu_resolved (ia_uri a) \<and>
       ak_local s = Some (lp_resolved path) \<and>
       bytes_verified digest (li_root document) (lp_absolute path) (ia_bytes a)" if "ia_local a"
    using l that
    by (auto simp: s index_link_def local_link_def checked_Inr dest: payload_bytes_verified)
  show "\<exists>r \<in> set receipts. \<exists>revision.
       ia_receipt_sha256 a = Some (lc_sha256 (vr_receipt r)) \<and> ia_immutable_revision a = Some revision \<and>
       lc_run_id (vr_receipt r) = Some (li_run_id document) \<and>
       describes_bytes (rc_artifact (lc_receipt (vr_receipt r))) (expected_artifact a revision)"
    if local: "\<not> ia_local a"
  proof -
    obtain revision digest' r where r: "ia_immutable_revision a = Some revision"
      "ia_receipt_sha256 a = Some digest'"
      "verify_artifact receipts digest' (expected_artifact a revision) (Some (li_run_id document)) = Inr r"
      using l local by (auto simp: index_link_def remote_link_def)
    then have d: "dict_by (lc_sha256 \<circ> vr_receipt) receipts digest' = Some r"
      "describes_bytes (rc_artifact (lc_receipt (vr_receipt r))) (expected_artifact a revision)"
      "lc_run_id (vr_receipt r) = Some (li_run_id document)"
      by (auto simp: verify_artifact_def checked_Inr split: option.splits)
    from dict_by_SomeD [OF d(1)] r d show ?thesis by auto
  qed
qed


text \<open>
  C2: Every link of an index that was loaded is grounded: a local artifact was read as a regular
  file below the index directory, reached through no link, unchanged, with the declared size
  and digest; a retained one is described byte for byte by a receipt of this run whose statement,
  artifact and producer an external verification confirms and whose dependencies were
  supplied. No receipt, verification or dependency is left over.
\<close>

theorem loaded_evidence_grounded:
  assumes "load_evidence_index digest parse expected_run_id document receipts verifications dependencies = Inr v"
  shows "evidence_grounded digest verifications dependencies v"
proof -
  obtain verified steps where
    rec: "load_verified_receipts receipts verifications dependencies = Inr verified" and
    steps: "map_res (index_step digest parse document verified) (enumerate 0 (li_artifacts document)) = Inr steps" and
    used: "set (List.map_filter ak_receipt steps) = (lc_sha256 \<circ> vr_receipt) ` set verified" and
    v: "v = \<lparr>vx_index = document, vx_links = map ak_link steps, vx_local_files = local_files_of steps,
      vx_summaries = List.map_filter ak_summary steps, vx_receipts = verified\<rparr>"
    using assms by (auto simp: load_evidence_index_def checked_Inr)
  let ?artifacts = "li_artifacts document"
  from steps have all: "list_all2 (\<lambda>p s. index_step digest parse document verified p = Inr s)
      (enumerate 0 ?artifacts) steps"
    by (simp only: map_res_Inr)
  then have len: "length steps = length ?artifacts" by (auto dest: list_all2_lengthD)
  have at: "index_step digest parse document verified (k, ?artifacts ! k) = Inr (steps ! k)"
    if "k < length ?artifacts" for k
    using list_all2_nthD [OF all, of k] that by (simp add: nth_enumerate_eq)
  note facts = index_step_facts [OF at]
  have links: "map ak_link steps = map result_link_of ?artifacts"
    by (rule nth_equalityI) (simp_all add: len facts(1))
  have verified_artifact: "artifact_verified digest v a" if a: "a \<in> set ?artifacts" for a
  proof -
    obtain k where k: "k < length ?artifacts" "?artifacts ! k = a" using a by (auto simp: in_set_conv_nth)
    show ?thesis
    proof (cases "ia_local a")
      case True
      then obtain path where p: "ia_local_path a = Some path" "lp_resolved path = fu_resolved (ia_uri a)"
        "ak_local (steps ! k) = Some (lp_resolved path)"
        "bytes_verified digest (li_root document) (lp_absolute path) (ia_bytes a)"
        using facts(3) [OF k(1)] k(2) by auto
      have "(lp_resolved path, result_link_of a) \<in> set (local_files_of steps)"
        using p(3) facts(1) [OF k(1)] k len
        by (force simp: local_files_of_def List.map_filter_def image_iff in_set_conv_nth)
      with True p show ?thesis by (simp add: artifact_verified_def v)
    next
      case False
      with facts(4) [OF k(1)] k(2) show ?thesis by (simp add: artifact_verified_def v)
    qed
  qed
  have receipt_used: "\<exists>a \<in> set ?artifacts. \<not> ia_local a \<and> ia_receipt_sha256 a = Some (lc_sha256 (vr_receipt r))"
    if r: "r \<in> set verified" for r
  proof -
    have "lc_sha256 (vr_receipt r) \<in> set (List.map_filter ak_receipt steps)" using r used by auto
    then obtain s where "s \<in> set steps" "ak_receipt s = Some (lc_sha256 (vr_receipt r))"
      by (auto simp: List.map_filter_def)
    then obtain k where k: "k < length ?artifacts" "ak_receipt (steps ! k) = Some (lc_sha256 (vr_receipt r))"
      by (auto simp: in_set_conv_nth len)
    with facts(2) [OF k(1)] have "\<not> ia_local (?artifacts ! k)"
      "ia_receipt_sha256 (?artifacts ! k) = Some (lc_sha256 (vr_receipt r))"
      by (auto split: if_splits)
    with k(1) show ?thesis by (auto intro: nth_mem)
  qed
  show ?thesis
    using links verified_artifact receipt_used verified_receipts_parts [OF rec]
    by (simp add: evidence_grounded_def v)
qed

text \<open>
  The loop that hashes a file in chunks, reading one byte more than is still expected, reads
  the file exactly when it is no longer than declared and otherwise reports that it grew.
\<close>

theorem chunks_read_whole_file:
  "read_chunks expected [] content =
     (if length content \<le> expected then Inr content else Inl Grew_while_read)"
  by (rule read_chunks_whole)

text \<open>A verified file is read back as the bytes the index declares.\<close>

lemma read_local_bytes:
  assumes "read_local digest v source budget = Inr payload"
  obtains link where "(lp_resolved source, link) \<in> set (vx_local_files v)"
    "length payload = ab_size_bytes (rl_bytes link)" "digest payload = ab_sha256 (rl_bytes link)"
proof -
  obtain link limit where l: "map_of (rev (vx_local_files v)) (lp_resolved source) = Some link"
    "verified_payload digest (lp_resolved source) (rl_bytes link) (li_root (vx_index v)) (Some limit) = Inr payload"
    using assms by (auto simp: read_local_def checked_Inr)
  have "(lp_resolved source, link) \<in> set (vx_local_files v)" using map_of_SomeD [OF l(1)] by simp
  with payload_verified [OF l(2)] that show ?thesis by (metis option.simps(5))
qed

text \<open>
  C25: An accepted receipt inventory names at most 4096 files, all different, each by a canonical
  relative path without empty, dot or parent components.
\<close>

theorem inventory_confined:
  assumes "inventory_paths data = Inr paths"
  shows "length (concat (map snd paths)) \<le> 4096 \<and> distinct (concat (map snd paths)) \<and>
    (\<forall>p \<in> set (concat (map snd paths)). p \<noteq> [] \<and> set p \<inter> {'''', ''.'', ''..''} = {})"
proof -
  have "inventory_groups (map_of data) [] [''receipts'', ''verifications'', ''dependencies''] = Inr paths"
    using assms by (simp only: inventory_paths_def split: if_splits) simp
  from inventory_groups_accepted [OF this] show ?thesis by simp
qed

section \<open>Examples\<close>

definition example_file :: file_read where
  "example_file = \<lparr>fr_before = (3, 0, 0), fr_content = [1, 2, 3], fr_after = (3, 0, 0)\<rparr>"

definition example_uri :: "string list \<Rightarrow> string \<Rightarrow> file_uri" where
  "example_uri path text = \<lparr>fu_text = text, fu_scheme = ''file'', fu_netloc = '''',
     fu_absolute = path, fu_resolved = path\<rparr>"

definition example_artifact :: index_artifact where
  "example_artifact = \<lparr>ia_artifact_id = ''log'', ia_kind = ''log'', ia_uri = example_uri [''e'', ''log''] ''file:///e/log'',
     ia_media_type = ''text/plain'', ia_bytes = \<lparr>ab_sha256 = ''h'', ab_size_bytes = 3\<rparr>,
     ia_retention_class = ''debug'', ia_local = True,
     ia_local_path = Some \<lparr>lp_absolute = [''e'', ''log''], lp_resolved = [''e'', ''log'']\<rparr>,
     ia_immutable_revision = None, ia_receipt_sha256 = None, ia_segment_index = None, ia_summary = None\<rparr>"

definition example_retained :: index_artifact where
  "example_retained = example_artifact\<lparr>ia_artifact_id := ''kept'', ia_local := False, ia_local_path := None,
     ia_immutable_revision := Some ''v1'', ia_receipt_sha256 := Some ''r''\<rparr>"

definition example_document :: loaded_index where
  "example_document = \<lparr>li_sha256 = ''i'', li_run_id = ''run'',
     li_root = \<lparr>er_path = [''e''], er_entry = Directory [(''log'', Regular example_file)]\<rparr>,
     li_artifacts = [example_artifact, example_retained]\<rparr>"

definition example_receipt :: loaded_receipt where
  "example_receipt = \<lparr>lc_sha256 = ''r'', lc_verification_sha256 = ''v'', lc_run_id = Some ''run'',
     lc_receipt = \<lparr>rc_statement_sha256 = ''s'',
       rc_artifact = JObj (expected_artifact example_retained ''v1''), rc_producer_identity = JNull,
       rc_producer_implementation = JNull, rc_created_at = ''2024-01-01T00:00:00Z''\<rparr>\<rparr>"

definition example_verification :: loaded_verification where
  "example_verification = \<lparr>lv_sha256 = ''v'', lv_verification = \<lparr>vf_statement_sha256 = ''s'',
       vf_artifact = JObj (expected_artifact example_retained ''v1''), vf_producer_identity = JNull,
       vf_producer_implementation = JNull, vf_verified_at = ''2024-01-01T00:00:00Z'',
       vf_trust_policy_sha256 = ''t'', vf_verification_evidence_sha256 = ''w'',
       vf_content_manifest_sha256 = None\<rparr>\<rparr>"

definition example_verified :: "evidence_error + verified_index" where
  "example_verified = load_evidence_index (\<lambda>_. ''h'') (\<lambda>_. None) (Some ''run'') example_document
     [example_receipt] [example_verification] [''s'', ''t'', ''w'']"

lemma example_index_loads: "case example_verified of Inl _ \<Rightarrow> False | Inr _ \<Rightarrow> True"
  by code_simp

theorem loaded_evidence_grounded_witness:
  "\<exists>v. example_verified = Inr v \<and>
     evidence_grounded (\<lambda>_. ''h'') [example_verification] [''s'', ''t'', ''w''] v"
proof -
  obtain v where v: "example_verified = Inr v"
    using example_index_loads by (auto split: sum.splits)
  from loaded_evidence_grounded [OF v [unfolded example_verified_def]] v show ?thesis by blast
qed

definition example_inventory :: "(string \<times> json) list" where
  "example_inventory = [(''receipts'', JArr [JStr ''r/a.json'']), (''verifications'', JArr [JStr ''v.json'']),
     (''dependencies'', JArr [])]"

definition example_inventory_paths :: "(string \<times> string list list) list" where
  "example_inventory_paths = [(''receipts'', [[''r'', ''a.json'']]), (''verifications'', [[''v.json'']]),
     (''dependencies'', [])]"

lemma example_inventory_accepted: "inventory_paths example_inventory = Inr example_inventory_paths"
  by code_simp

theorem inventory_confined_witness:
  "distinct (concat (map snd example_inventory_paths))"
  using inventory_confined [OF example_inventory_accepted] by (elim conjE)

end
