(* ===== verification/Acceptance.thy ===== *)
theory Acceptance
  imports Run_Policy Domain_Result Evidence
begin

text \<open>
  The evaluation of one domain (harness/evaluation.py): core metric assertions, the data-plane
  and evidence policies, and the product evaluators, whose installed entry points must match
  their authenticated bindings. An evaluator is the sequence of what it yields; importing its
  module is not modelled.
\<close>

section \<open>Context\<close>

datatype controls_schema = Scenario_controls | Assessment_controls

record calibration_choice =
  ch_selected :: bool
  ch_artifacts :: "string list"

record evaluator_requirement =
  er_namespace :: string
  er_oci :: bool
  er_entry_point :: string
  er_distribution :: string
  er_version :: string
  er_receipt_sha256 :: string
  er_artifact_sha256 :: string
  er_expected_assertion_ids :: "string list"

record method_controls =
  mc_schema :: controls_schema
  mc_assertions :: "metric_assertion list"
  mc_definitions :: "metric_definition list"
  mc_calibration :: "calibration_choice option"
  mc_evaluators :: "evaluator_requirement list"

text \<open>The policies of a v1 scenario, with the data plane of its runtime, or of a v2 scenario.\<close>

datatype context_policies =
    Policies_v1 data_plane_policy data_plane evidence_policy
  | Policies_v2 native_evidence_policy

record evaluation_context =
  ec_domain_id :: string
  ec_explicit_controls :: bool
  ec_controls :: method_controls
  ec_policies :: context_policies
  ec_evidence :: verified_evidence
  ec_link_sha256 :: "string list"
  ec_input_sha256 :: "string list"
  ec_samples :: "metric_point list"
  ec_start_ns :: int
  ec_end_ns :: int

definition original_evidence :: "evaluation_context \<Rightarrow> string set" where
  "original_evidence c = set (ec_link_sha256 c)"

definition known_evidence :: "evaluation_context \<Rightarrow> string set" where
  "known_evidence c = original_evidence c \<union>
     (if ec_explicit_controls c then set (ec_input_sha256 c) else {})"

datatype acceptance_error =
    Controls_without_native
  | Core_with_calibration
  | Calibration_missing
  | Definitions_rejected definition_error
  | Metrics_raised metric_error
  | Data_plane_raised plane_error
  | Not_reverse_domain string
  | Not_an_evaluation string
  | Not_its_namespace string
  | Outside_its_namespace string
  | Without_evidence string
  | Unknown_evidence string
  | Evaluator_failed string
  | Evaluator_refused string
  | Calibration_unbound
  | Calibrated_without_evidence
  | Assertion_ids_repeated
  | Oci_unsupported
  | Entry_point_ambiguous string
  | Entry_point_without_distribution string
  | Binding_differs string
  | Evaluator_receipt_rejected receipt_set_error
  | Not_authenticated string
  | Admission_not_issued
  | Wheel_differs string
  | Receipts_unreferenced
  | Authentications_unreferenced
  | Origin_unverified string

section \<open>Product evaluators\<close>

text \<open>
  What an evaluator yields; an exception ends the sequence, an \<open>EvaluationError\<close> of its own
  (\<open>Refuses\<close>) unchanged.
\<close>

datatype yielded =
    Yields assertion_evaluation
  | Yields_other
  | Raises
  | Refuses

definition starts_with :: "string \<Rightarrow> string \<Rightarrow> bool" where
  "starts_with p s \<longleftrightarrow> take (length p) s = p"

definition validate_product_evaluation ::
  "string \<Rightarrow> string set \<Rightarrow> yielded \<Rightarrow> acceptance_error + assertion_evaluation" where
  "validate_product_evaluation namespace known y =
     (case y of
        Raises \<Rightarrow> Inl (Evaluator_failed namespace)
      | Refuses \<Rightarrow> Inl (Evaluator_refused namespace)
      | Yields_other \<Rightarrow> Inl (Not_an_evaluation namespace)
      | Yields e \<Rightarrow> checked (first_error
          [require (\<not> (av_source e \<noteq> Product \<or> av_namespace e \<noteq> Some namespace)) (Not_its_namespace namespace),
           require (starts_with (namespace @ ''.'') (av_assertion_id e)) (Outside_its_namespace namespace),
           require (av_evidence_sha256 e \<noteq> []) (Without_evidence namespace),
           require (set (av_evidence_sha256 e) - known = {}) (Unknown_evidence namespace)])
          (Inr e))"

definition evaluator_results ::
  "string set \<Rightarrow> string \<times> yielded list \<Rightarrow> acceptance_error + assertion_evaluation list" where
  "evaluator_results known evaluator =
     (case evaluator of (namespace, produced) \<Rightarrow>
       checked (require (\<not> length (filter (\<lambda>x. x = CHR ''.'') namespace) < 1) (Not_reverse_domain namespace))
       (map_res (validate_product_evaluation namespace known) produced))"

definition product_evaluations ::
  "evaluation_context \<Rightarrow> (string \<times> yielded list) list \<Rightarrow> acceptance_error + assertion_evaluation list" where
  "product_evaluations c evaluators =
     and_then (map_res (evaluator_results (known_evidence c)) evaluators) (\<lambda>rows. Inr (concat rows))"

section \<open>Calibration\<close>

definition validate_selected_calibration :: "evaluation_context \<Rightarrow> acceptance_error option" where
  "validate_selected_calibration c =
     (if \<not> ec_explicit_controls c then None
      else case ec_policies c of
        Policies_v1 _ _ _ \<Rightarrow> Some Controls_without_native
      | Policies_v2 _ \<Rightarrow> with_key Calibration_missing (mc_calibration (ec_controls c)) (\<lambda>calibration.
          require (\<not> (ch_selected calibration \<and>
              (mc_assertions (ec_controls c) \<noteq> [] \<or> mc_evaluators (ec_controls c) = [])))
            Core_with_calibration))"

definition validate_calibration_bindings ::
  "evaluation_context \<Rightarrow> assertion_evaluation list \<Rightarrow> acceptance_error option" where
  "validate_calibration_bindings c evaluations =
     (case mc_calibration (ec_controls c) of
        None \<Rightarrow> None
      | Some calibration \<Rightarrow>
          if \<not> ch_selected calibration then None
          else (let product = filter (\<lambda>e. av_source e = Product) evaluations in
            if product = [] \<and> mc_schema (ec_controls c) = Assessment_controls
               \<and> (\<exists>r \<in> set (mc_evaluators (ec_controls c)). er_oci r \<and> er_expected_assertion_ids r \<noteq> [])
            then None
            else first_error
              [require (set (ch_artifacts calibration) - (\<Union>e \<in> set product. set (av_evidence_sha256 e)) = {})
                 Calibration_unbound,
               require (\<not> (\<exists>e \<in> set product. set (av_evidence_sha256 e) \<inter> original_evidence c = {}))
                 Calibrated_without_evidence]))"

section \<open>The evaluation\<close>

definition core_metrics :: "evaluation_context \<Rightarrow> acceptance_error + metric_evaluation list" where
  "core_metrics c =
     checked (map_option Definitions_rejected
       (validate_metric_definitions (mc_definitions (ec_controls c)) (ec_samples c)))
     (case evaluate_metric_assertions (mc_assertions (ec_controls c)) (ec_samples c)
        (Some (ec_start_ns c)) (Some (ec_end_ns c)) of
        Inl e \<Rightarrow> Inl (Metrics_raised e) | Inr evs \<Rightarrow> Inr evs)"

definition policy_metrics :: "evaluation_context \<Rightarrow> acceptance_error + metric_evaluation list" where
  "policy_metrics c =
     (case ec_policies c of
        Policies_v1 plane_policy plane policy \<Rightarrow>
          (case evaluate_data_plane_policy plane_policy plane (ec_samples c) (ec_domain_id c)
             (ec_start_ns c) (ec_end_ns c) of
             Inl e \<Rightarrow> Inl (Data_plane_raised e)
           | Inr evs \<Rightarrow> Inr (evs @ evaluate_evidence_policy policy (ec_evidence c)))
      | Policies_v2 policy \<Rightarrow> Inr (evaluate_native_evidence_policy policy (ec_evidence c)))"

definition evaluate_acceptance ::
  "evaluation_context \<Rightarrow> (string \<times> yielded list) list \<Rightarrow> acceptance_error + assertion_evaluation list" where
  "evaluate_acceptance c evaluators =
     checked (validate_selected_calibration c)
     (and_then (core_metrics c) (\<lambda>metrics.
      and_then (policy_metrics c) (\<lambda>policies.
      and_then (product_evaluations c evaluators) (\<lambda>product.
        (let evaluations = map core_evaluation (metrics @ policies) @ product in
         checked (first_error
           [validate_calibration_bindings c evaluations,
            require (unique_by av_assertion_id evaluations) Assertion_ids_repeated])
         (Inr evaluations))))))"

section \<open>Installed evaluators\<close>

record entry_point =
  et_name :: string
  et_value :: string
  et_distribution :: "(string \<times> string) option"

record authenticated_installation =
  ai_wheel_sha256 :: string
  ai_distribution :: string
  ai_version :: string
  ai_entry_points :: "(string \<times> string \<times> string) list"
  ai_issued :: bool

definition EVALUATOR_ENTRY_POINT_GROUP :: string where
  "EVALUATOR_ENTRY_POINT_GROUP = ''robotics_acceptance.evaluators''"

text \<open>\<open>canonicalize_name\<close> is a function of the packaging library.\<close>

definition authenticated_record ::
  "(string \<Rightarrow> string) \<Rightarrow> (string \<times> authenticated_installation) list \<Rightarrow> evaluator_requirement \<Rightarrow> entry_point
    \<Rightarrow> acceptance_error + authenticated_installation" where
  "authenticated_record canonicalize authentications requirement entry =
     (let namespace = er_namespace requirement in
      case map_of authentications namespace of
        None \<Rightarrow> Inl (Not_authenticated namespace)
      | Some admitted \<Rightarrow> checked (first_error
          [require (ai_issued admitted) Admission_not_issued,
           require (\<not> ((ai_wheel_sha256 admitted, ai_distribution admitted, ai_version admitted)
               \<noteq> (er_artifact_sha256 requirement, canonicalize (er_distribution requirement), er_version requirement)
               \<or> (EVALUATOR_ENTRY_POINT_GROUP, et_name entry, et_value entry) \<notin> set (ai_entry_points admitted)))
             (Wheel_differs namespace)])
          (Inr admitted))"

definition qualify_requirement ::
  "(string \<Rightarrow> string) \<Rightarrow> entry_point list \<Rightarrow> verified_receipt list \<Rightarrow> (string \<times> authenticated_installation) list
    \<Rightarrow> evaluator_requirement \<Rightarrow> acceptance_error + entry_point \<times> authenticated_installation" where
  "qualify_requirement canonicalize installed receipts authentications requirement =
     (let namespace = er_namespace requirement in
      case filter (\<lambda>e. et_name e = namespace) installed of
        [entry] \<Rightarrow> (case et_distribution entry of
            None \<Rightarrow> Inl (Entry_point_without_distribution namespace)
          | Some (name, version) \<Rightarrow>
              checked (require ((et_value entry, canonicalize name, version)
                  = (er_entry_point requirement, canonicalize (er_distribution requirement), er_version requirement))
                (Binding_differs namespace))
              (case verify_artifact receipts (er_receipt_sha256 requirement)
                      [(''sha256'', JStr (er_artifact_sha256 requirement))] None of
                 Inl e \<Rightarrow> Inl (Evaluator_receipt_rejected e)
               | Inr _ \<Rightarrow> and_then (authenticated_record canonicalize authentications requirement entry)
                   (\<lambda>admitted. Inr (entry, admitted))))
      | _ \<Rightarrow> Inl (Entry_point_ambiguous namespace))"

text \<open>\<open>origin_ok\<close> stands for \<open>_verify_entry_point_origin\<close>, which asks the import system.\<close>

definition qualified_entry_points ::
  "(string \<Rightarrow> string) \<Rightarrow> (entry_point \<Rightarrow> bool) \<Rightarrow> entry_point list \<Rightarrow> verified_receipt list
    \<Rightarrow> (string \<times> authenticated_installation) list \<Rightarrow> evaluator_requirement list
    \<Rightarrow> acceptance_error + (entry_point \<times> authenticated_installation) list" where
  "qualified_entry_points canonicalize origin_ok installed receipts authentications requirements =
     checked (require (\<not> (\<exists>r \<in> set requirements. er_oci r)) Oci_unsupported)
     (and_then (map_res (qualify_requirement canonicalize installed receipts authentications) requirements)
       (\<lambda>qualified.
        checked (first_error
          [require (er_receipt_sha256 ` set requirements = (lc_sha256 \<circ> vr_receipt) ` set receipts)
             Receipts_unreferenced,
           require (fst ` set authentications = er_namespace ` set requirements) Authentications_unreferenced,
           each (\<lambda>_ (entry, _). require (origin_ok entry) (Origin_unverified (et_name entry))) qualified])
        (Inr qualified)))"


section \<open>What an evaluation rests on\<close>

definition product_grounded :: "evaluation_context \<Rightarrow> (string \<times> yielded list) list \<Rightarrow> assertion_evaluation \<Rightarrow> bool" where
  "product_grounded c evaluators e \<longleftrightarrow>
     (\<exists>(namespace, produced) \<in> set evaluators. Yields e \<in> set produced \<and>
        av_source e = Product \<and> av_namespace e = Some namespace \<and>
        starts_with (namespace @ ''.'') (av_assertion_id e) \<and> CHR ''.'' \<in> set namespace) \<and>
     av_evidence_sha256 e \<noteq> [] \<and> set (av_evidence_sha256 e) \<subseteq> known_evidence c"

text \<open>
  A selected calibration is claimed by product verdicts that also rest on original evidence;
  without any, only when a container evaluator still has to give them.
\<close>

definition calibration_applied :: "evaluation_context \<Rightarrow> assertion_evaluation list \<Rightarrow> bool" where
  "calibration_applied c product \<longleftrightarrow>
     (\<forall>calibration. mc_calibration (ec_controls c) = Some calibration \<longrightarrow> ch_selected calibration \<longrightarrow>
        (product = [] \<and> (\<exists>r \<in> set (mc_evaluators (ec_controls c)). er_oci r \<and> er_expected_assertion_ids r \<noteq> [])) \<or>
        (set (ch_artifacts calibration) \<subseteq> (\<Union>e \<in> set product. set (av_evidence_sha256 e)) \<and>
         (\<forall>e \<in> set product. set (av_evidence_sha256 e) \<inter> original_evidence c \<noteq> {})))"

definition traceable ::
  "evaluation_context \<Rightarrow> (string \<times> yielded list) list \<Rightarrow> assertion_evaluation list \<Rightarrow> bool" where
  "traceable c evaluators evaluations \<longleftrightarrow>
     distinct (map av_assertion_id evaluations) \<and>
     (\<exists>metrics policies product. evaluations = map core_evaluation (metrics @ policies) @ product \<and>
        list_all2 (grounded (ec_samples c) (Some (ec_start_ns c)) (Some (ec_end_ns c)))
          (mc_assertions (ec_controls c)) metrics \<and>
        policy_metrics c = Inr policies \<and>
        (\<forall>e \<in> set product. product_grounded c evaluators e) \<and> calibration_applied c product)"

lemma product_evaluation_accepts:
  "validate_product_evaluation namespace known y = Inr e \<longleftrightarrow>
     y = Yields e \<and> av_source e = Product \<and> av_namespace e = Some namespace \<and>
     starts_with (namespace @ ''.'') (av_assertion_id e) \<and> av_evidence_sha256 e \<noteq> [] \<and>
     set (av_evidence_sha256 e) \<subseteq> known"
  by (auto simp: validate_product_evaluation_def checked_Inr split: yielded.splits)

lemma product_evaluations_grounded:
  assumes "product_evaluations c evaluators = Inr product" and "e \<in> set product"
  shows "product_grounded c evaluators e"
proof -
  obtain rows where rows: "map_res (evaluator_results (known_evidence c)) evaluators = Inr rows"
    "product = concat rows"
    using assms(1) by (auto simp: product_evaluations_def)
  then obtain row where row: "row \<in> set rows" "e \<in> set row" using assms(2) by auto
  then obtain namespace produced where n: "(namespace, produced) \<in> set evaluators"
    "evaluator_results (known_evidence c) (namespace, produced) = Inr row"
    using map_res_member [OF rows(1) row(1)] by auto
  then have m: "map_res (validate_product_evaluation namespace (known_evidence c)) produced = Inr row"
    and dot: "filter (\<lambda>x. x = CHR ''.'') namespace \<noteq> []"
    by (auto simp: evaluator_results_def checked_Inr)
  obtain y where "y \<in> set produced" "validate_product_evaluation namespace (known_evidence c) y = Inr e"
    using map_res_member [OF m row(2)] by blast
  with n(1) dot show ?thesis
    by (auto simp: product_grounded_def product_evaluation_accepts filter_empty_conv)
qed

lemma evaluated_parts:
  assumes "evaluate_acceptance c evaluators = Inr evaluations"
  obtains metrics policies product where "core_metrics c = Inr metrics" "policy_metrics c = Inr policies"
    "product_evaluations c evaluators = Inr product"
    "evaluations = map core_evaluation (metrics @ policies) @ product"
    "validate_calibration_bindings c evaluations = None" "unique_by av_assertion_id evaluations"
  using assms by (auto simp: evaluate_acceptance_def checked_Inr Let_def)

lemma list_all2_left: "list_all2 P xs ys \<Longrightarrow> x \<in> set xs \<Longrightarrow> \<exists>y \<in> set ys. P x y"
  by (induction rule: list_all2_induct) auto

lemma core_status [simp]: "av_status (core_evaluation e) = me_status e"
  by (simp add: core_evaluation_def)

lemma core_metrics_grounded:
  assumes "core_metrics c = Inr metrics"
  shows "list_all2 (grounded (ec_samples c) (Some (ec_start_ns c)) (Some (ec_end_ns c)))
    (mc_assertions (ec_controls c)) metrics"
proof -
  have "evaluate_metric_assertions (mc_assertions (ec_controls c)) (ec_samples c)
      (Some (ec_start_ns c)) (Some (ec_end_ns c)) = Inr metrics"
    using assms by (auto simp: core_metrics_def checked_Inr split: sum.splits)
  then show ?thesis
    by (auto simp: evaluate_metric_assertions_def checked_Inr map_res_Inr
        elim!: list_all2_mono intro: evaluate_assertion_grounded)
qed

lemma product_part:
  assumes "evaluations = map core_evaluation core @ product"
    and "\<forall>e \<in> set product. av_source e = Product"
  shows "filter (\<lambda>e. av_source e = Product) evaluations = product"
  using assms by (auto simp: core_evaluation_def filter_empty_conv filter_id_conv)

lemma calibration_bindings_accepted:
  assumes "validate_calibration_bindings c evaluations = None"
    and "filter (\<lambda>e. av_source e = Product) evaluations = product"
  shows "calibration_applied c product"
proof -
  let ?oci = "\<exists>r \<in> set (mc_evaluators (ec_controls c)). er_oci r \<and> er_expected_assertion_ids r \<noteq> []"
  have "(product = [] \<and> ?oci) \<or>
      (set (ch_artifacts calibration) \<subseteq> (\<Union>e \<in> set product. set (av_evidence_sha256 e)) \<and>
       (\<forall>e \<in> set product. set (av_evidence_sha256 e) \<inter> original_evidence c \<noteq> {}))"
    if "mc_calibration (ec_controls c) = Some calibration" "ch_selected calibration" for calibration
    using assms(1) that unfolding validate_calibration_bindings_def Let_def assms(2)
    by (simp split: if_splits)
  then show ?thesis unfolding calibration_applied_def by blast
qed

lemma evaluation_traceable:
  assumes "evaluate_acceptance c evaluators = Inr evaluations"
  shows "traceable c evaluators evaluations"
proof -
  obtain metrics policies product where p: "core_metrics c = Inr metrics" "policy_metrics c = Inr policies"
    "product_evaluations c evaluators = Inr product"
    "evaluations = map core_evaluation (metrics @ policies) @ product"
    "validate_calibration_bindings c evaluations = None" "unique_by av_assertion_id evaluations"
    using evaluated_parts [OF assms] by metis
  have grounded: "\<forall>e \<in> set product. product_grounded c evaluators e"
    using product_evaluations_grounded [OF p(3)] by blast
  then have "\<forall>e \<in> set product. av_source e = Product" by (auto simp: product_grounded_def)
  from calibration_bindings_accepted [OF p(5) product_part [OF p(4) this]]
  have "calibration_applied c product" .
  with p grounded core_metrics_grounded [OF p(1)] show ?thesis
    by (auto simp: traceable_def unique_by_distinct)
qed

text \<open>
  C6: The evaluation of a domain is traceable: identifiers are unique, there is one core verdict
  per assertion, decided only on matching points of the window, the policies of the contract
  version are judged, and every product verdict was yielded by an evaluator in its own
  namespace, names its evidence and cites only evidence the run or the method captured; a
  selected calibration is cited by verdicts that also rest on original evidence.
\<close>

theorem acceptance_traceable:
  assumes "evaluate_acceptance c evaluators = Inr evaluations"
  shows "traceable c evaluators evaluations"
  by (rule evaluation_traceable [OF assms])


section \<open>Evaluators bound to their wheels\<close>

definition evaluator_bound ::
  "(string \<Rightarrow> string) \<Rightarrow> entry_point list \<Rightarrow> string list \<Rightarrow> verified_receipt list \<Rightarrow> evaluator_requirement
    \<Rightarrow> entry_point \<Rightarrow> authenticated_installation \<Rightarrow> bool" where
  "evaluator_bound canonicalize installed dependencies receipts r entry admitted \<longleftrightarrow>
     filter (\<lambda>e. et_name e = er_namespace r) installed = [entry] \<and> et_value entry = er_entry_point r \<and>
     ai_issued admitted \<and> ai_wheel_sha256 admitted = er_artifact_sha256 r \<and> ai_version admitted = er_version r \<and>
     (EVALUATOR_ENTRY_POINT_GROUP, et_name entry, et_value entry) \<in> set (ai_entry_points admitted) \<and>
     (\<exists>v \<in> set receipts. lc_sha256 (vr_receipt v) = er_receipt_sha256 r \<and> receipt_grounded dependencies v \<and>
        artifact_field (rc_artifact (lc_receipt (vr_receipt v))) ''sha256'' = JStr (er_artifact_sha256 r))"

lemma py_eq_JStr [simp]: "py_eq v (JStr s) \<longleftrightarrow> v = JStr s"
  by (cases v) auto

lemma single_entry: "(case xs of [x] \<Rightarrow> f x | _ \<Rightarrow> Inl e) = Inr y \<longleftrightarrow> (\<exists>x. xs = [x] \<and> f x = Inr y)"
  by (auto split: list.splits)

lemma qualified_bound:
  assumes "qualify_requirement canonicalize installed receipts authentications r = Inr (entry, admitted)"
    and "\<forall>v \<in> set receipts. receipt_grounded dependencies v"
  shows "evaluator_bound canonicalize installed dependencies receipts r entry admitted"
proof -
  obtain v where single: "filter (\<lambda>e. et_name e = er_namespace r) installed = [entry]"
    and v: "et_value entry = er_entry_point r"
    and receipt: "verify_artifact receipts (er_receipt_sha256 r) [(''sha256'', JStr (er_artifact_sha256 r))] None = Inr v"
    and auth: "authenticated_record canonicalize authentications r entry = Inr admitted"
    using assms(1)
    by (auto simp: qualify_requirement_def Let_def single_entry checked_Inr split: option.splits sum.splits)
  from receipt have d: "dict_by (lc_sha256 \<circ> vr_receipt) receipts (er_receipt_sha256 r) = Some v"
    "artifact_field (rc_artifact (lc_receipt (vr_receipt v))) ''sha256'' = JStr (er_artifact_sha256 r)"
    by (auto simp: verify_artifact_def describes_bytes_def checked_Inr split: option.splits)
  have "v \<in> set receipts" "lc_sha256 (vr_receipt v) = er_receipt_sha256 r"
    using dict_by_SomeD [OF d(1)] by simp_all
  moreover have "ai_issued admitted" "ai_wheel_sha256 admitted = er_artifact_sha256 r"
    "ai_version admitted = er_version r"
    "(EVALUATOR_ENTRY_POINT_GROUP, et_name entry, et_value entry) \<in> set (ai_entry_points admitted)"
    using auth by (auto simp: authenticated_record_def Let_def checked_Inr split: option.splits)
  ultimately show ?thesis using single v d(2) assms(2) unfolding evaluator_bound_def by blast
qed

text \<open>
  C17: Every evaluator that is admitted is the only installed entry point of its namespace, has the
  declared target, and comes from the wheel whose digest a verified receipt describes, with
  an installation this process authenticated; container evaluators are refused and neither a
  receipt nor an authentication is left over.
\<close>

theorem admitted_evaluators_bound:
  assumes "load_verified_receipts receipts verifications dependencies = Inr verified"
    and "qualified_entry_points canonicalize origin_ok installed verified authentications requirements = Inr qualified"
  shows "list_all2 (\<lambda>r (entry, admitted). \<not> er_oci r \<and> origin_ok entry \<and>
      evaluator_bound canonicalize installed dependencies verified r entry admitted) requirements qualified"
proof -
  have oci: "\<forall>r \<in> set requirements. \<not> er_oci r"
    and m: "map_res (qualify_requirement canonicalize installed verified authentications) requirements = Inr qualified"
    and origin: "\<forall>(entry, _) \<in> set qualified. origin_ok entry"
    using assms(2) by (auto simp: qualified_entry_points_def checked_Inr each_from_None_all case_prod_unfold)
  have "\<forall>v \<in> set verified. receipt_grounded dependencies v"
    using verified_receipts_parts(1) [OF assms(1)] by blast
  note bound = qualified_bound [OF _ this]
  have "length requirements = length qualified" using m by (auto simp: map_res_Inr dest: list_all2_lengthD)
  then show ?thesis
  proof (rule list_all2_all_nthI)
    fix k assume k: "k < length requirements"
    then have "qualify_requirement canonicalize installed verified authentications (requirements ! k) = Inr (qualified ! k)"
      using m by (auto simp: map_res_Inr dest: list_all2_nthD)
    moreover obtain entry admitted where "qualified ! k = (entry, admitted)" by fastforce
    moreover have "qualified ! k \<in> set qualified" using k \<open>length requirements = length qualified\<close> by simp
    ultimately show "(\<lambda>(entry, admitted). \<not> er_oci (requirements ! k) \<and> origin_ok entry \<and>
        evaluator_bound canonicalize installed dependencies verified (requirements ! k) entry admitted) (qualified ! k)"
      using bound oci origin k by fastforce
  qed
qed


section \<open>Examples\<close>

definition example_verdict :: assertion_evaluation where
  "example_verdict = \<lparr>av_assertion_id = ''com.acme.grip'', av_status = Passed, av_observed_value = Some 1,
     av_source = Product, av_namespace = Some ''com.acme'', av_evidence_sha256 = [''m'']\<rparr>"

definition example_evaluation_context :: evaluation_context where
  "example_evaluation_context =
     \<lparr>ec_domain_id = ''d'', ec_explicit_controls = False,
      ec_controls = \<lparr>mc_schema = Scenario_controls, mc_assertions = [], mc_definitions = [],
        mc_calibration = None, mc_evaluators = []\<rparr>,
      ec_policies = Policies_v1 example_plane_policy example_plane example_evidence_policy,
      ec_evidence = example_evidence, ec_link_sha256 = [''m''], ec_input_sha256 = [],
      ec_samples = example_plane_samples, ec_start_ns = 0, ec_end_ns = 100\<rparr>"

definition example_evaluators :: "(string \<times> yielded list) list" where
  "example_evaluators = [(''com.acme'', [Yields example_verdict])]"

definition core_passed :: "string \<times> rat \<Rightarrow> assertion_evaluation" where
  "core_passed row = (case row of (name, reading) \<Rightarrow>
     \<lparr>av_assertion_id = name, av_status = Passed, av_observed_value = Some reading, av_source = Core,
      av_namespace = None, av_evidence_sha256 = []\<rparr>)"

definition example_evaluations :: "assertion_evaluation list" where
  "example_evaluations = map core_passed
     [(''data-plane-shm-transport'', 1), (''data-plane-data-sharing'', 1), (''data-plane-private-ipc'', 1),
      (''data-plane-message-age'', 14), (''data-plane-sequence-integrity'', 0),
      (''data-plane-loss-ratio'', 5764607523034235 / 576460752303423488),
      (''policy-evidence-topics'', 1), (''policy-evidence-recording-mode'', 1), (''policy-evidence-compression'', 1),
      (''policy-evidence-segment-size'', 1), (''policy-evidence-segment-duration'', 1),
      (''policy-evidence-spool-size'', 1), (''policy-evidence-spool-watermark'', 1),
      (''policy-evidence-upload-lag'', 1), (''policy-evidence-upload-mode'', 1),
      (''policy-evidence-retention'', 1), (''policy-evidence-remote-sink'', 1)] @ [example_verdict]"

lemma example_evaluated:
  "evaluate_acceptance example_evaluation_context example_evaluators = Inr example_evaluations"
  by code_simp

definition example_domain_inputs ::
  "time_authority_observation \<Rightarrow> hardware_timing_observation \<Rightarrow> result_inputs" where
  "example_domain_inputs authority clock = (example_inputs authority clock)\<lparr>ri_assertions := example_evaluations\<rparr>"

lemma example_domain_passes: "run_verdict example_run example_domain_inputs = Some Passed"
  by code_simp


theorem acceptance_traceable_witness:
  "traceable example_evaluation_context example_evaluators example_evaluations"
  by (rule acceptance_traceable [OF example_evaluated])


text \<open>One evaluator installed from the wheel that its receipt describes.\<close>

definition example_requirement :: evaluator_requirement where
  "example_requirement = \<lparr>er_namespace = ''com.acme'', er_oci = False, er_entry_point = ''acme:run'',
     er_distribution = ''acme'', er_version = ''1'', er_receipt_sha256 = ''r'', er_artifact_sha256 = ''h'',
     er_expected_assertion_ids = []\<rparr>"

definition example_installed :: entry_point where
  "example_installed = \<lparr>et_name = ''com.acme'', et_value = ''acme:run'', et_distribution = Some (''acme'', ''1'')\<rparr>"

definition example_installation :: authenticated_installation where
  "example_installation = \<lparr>ai_wheel_sha256 = ''h'', ai_distribution = ''acme'', ai_version = ''1'',
     ai_entry_points = [(EVALUATOR_ENTRY_POINT_GROUP, ''com.acme'', ''acme:run'')], ai_issued = True\<rparr>"

definition example_receipts :: "verified_receipt list" where
  "example_receipts = [\<lparr>vr_receipt = example_receipt, vr_verification = example_verification\<rparr>]"

lemma example_receipts_load:
  "load_verified_receipts [example_receipt] [example_verification] [''s'', ''t'', ''w''] = Inr example_receipts"
  by code_simp

lemma example_admitted:
  "qualified_entry_points id (\<lambda>_. True) [example_installed] example_receipts
     [(''com.acme'', example_installation)] [example_requirement] = Inr [(example_installed, example_installation)]"
  by code_simp

theorem admitted_evaluators_bound_witness:
  "evaluator_bound id [example_installed] [''s'', ''t'', ''w''] example_receipts example_requirement
     example_installed example_installation"
  using admitted_evaluators_bound [OF example_receipts_load example_admitted] by simp

end
