(* ===== verification/Trace_Chains.thy ===== *)
theory Trace_Chains
  imports Qualification_Policy "HOL-Library.List_Lexorder" "HOL-Library.Char_ord"
    "HOL-Library.Product_Lexorder"
begin

text \<open>
  Causal chains of trace spans (harness/traces.py): the spans of a channel, their correlation
  by message id, the trace graph, and the search for one message path that crosses every
  channel in order. The search keeps a cache of reachable spans and a set of dead ends; the
  theorems say that it finds a path exactly when one exists, whatever it has remembered.
  Reading the OTLP files is outside: a span is the record the loader returns.
\<close>

section \<open>Spans and contracts\<close>

type_synonym trace_span_key = "string \<times> string"

record trace_link =
  tl_trace_id :: string
  tl_span_id :: string
  tl_message_id :: "string option"

record trace_span =
  ts_trace_id :: string
  ts_span_id :: string
  ts_parent_span_id :: string
  ts_name :: string
  ts_run_id :: string
  ts_domain_id :: string
  ts_message_id :: "string option"
  ts_start :: int
  ts_end :: int
  ts_links :: "trace_link list"
  ts_destination :: "string option"

text \<open>\<open>spans_by_domain\<close>: a dict in insertion order.\<close>

type_synonym span_set = "(string \<times> trace_span list) list"
type_synonym message_pair = "trace_span \<times> trace_span"

datatype relationship = Link | Parent

record channel_contract =
  ch_channel_id :: string
  ch_relationship :: relationship
  ch_source_domain_id :: string
  ch_source_topic :: string
  ch_producer_span_name :: string
  ch_destination_domain_id :: string
  ch_destination_topic :: string
  ch_consumer_span_name :: string
  ch_delivery :: delivery_policy

datatype chain_code =
    Missing_span
  | Message_id_mismatch
  | Relationship_mismatch
  | Temporal_order_mismatch

record chain_violation =
  cv_code :: chain_code
  cv_channel_id :: string

datatype trace_error =
    Span_identity_repeated trace_span_key string string
  | Channel_contracts_differ
  | Spans_not_attributable string string

definition trace_span_key :: "trace_span \<Rightarrow> trace_span_key" where
  "trace_span_key s = (ts_trace_id s, ts_span_id s)"

definition spans_of :: "span_set \<Rightarrow> string \<Rightarrow> trace_span list" where
  "spans_of spans domain = (case map_of spans domain of None \<Rightarrow> [] | Some ss \<Rightarrow> ss)"

definition all_spans :: "span_set \<Rightarrow> trace_span list" where
  "all_spans spans = concat (map snd spans)"

lemma spans_of_all: "s \<in> set (spans_of spans d) \<Longrightarrow> s \<in> set (all_spans spans)"
proof -
  assume "s \<in> set (spans_of spans d)"
  then obtain ss where "map_of spans d = Some ss" "s \<in> set ss"
    by (cases "map_of spans d") (auto simp: spans_of_def)
  then show ?thesis by (force simp: all_spans_def dest: map_of_SomeD)
qed

section \<open>The spans of a channel\<close>

definition endpoint_spans :: "channel_contract \<Rightarrow> (string \<times> string \<times> string) \<times> (string \<times> string \<times> string)" where
  "endpoint_spans c =
     ((ch_source_domain_id c, ch_producer_span_name c, ch_source_topic c),
      (ch_destination_domain_id c, ch_consumer_span_name c, ch_destination_topic c))"

definition endpoint_matches :: "span_set \<Rightarrow> string \<times> string \<times> string \<Rightarrow> trace_span list" where
  "endpoint_matches spans e = (case e of (domain, name, topic) \<Rightarrow>
     filter (\<lambda>s. ts_name s = name \<and> (ts_destination s = None \<or> ts_destination s = Some topic))
       (spans_of spans domain))"

definition channel_spans :: "channel_contract \<Rightarrow> span_set \<Rightarrow> trace_span list \<times> trace_span list" where
  "channel_spans c spans =
     (endpoint_matches spans (fst (endpoint_spans c)), endpoint_matches spans (snd (endpoint_spans c)))"

text \<open>Spans that channels on different topics would each claim by name.\<close>

definition declared_endpoints :: "channel_contract list \<Rightarrow> ((string \<times> string) \<times> string) list" where
  "declared_endpoints contracts = concat (map (\<lambda>c. map (\<lambda>(domain, name, topic). ((domain, name), topic))
     [fst (endpoint_spans c), snd (endpoint_spans c)]) contracts)"

definition check_attributable ::
  "channel_contract list \<Rightarrow> span_set \<Rightarrow> string \<times> string \<Rightarrow> trace_error option" where
  "check_attributable contracts spans k = (case k of (domain, name) \<Rightarrow>
     when_check (\<not> card (set (map snd (filter (\<lambda>e. fst e = k) (declared_endpoints contracts)))) < 2)
       (require (filter (\<lambda>s. ts_name s = name \<and> ts_destination s = None) (spans_of spans domain) = [])
         (Spans_not_attributable domain name)))"

definition require_attributable_channels :: "channel_contract list \<Rightarrow> span_set \<Rightarrow> trace_error option" where
  "require_attributable_channels contracts spans =
     each (\<lambda>_. check_attributable contracts spans)
       (sorted_list_of_set (set (map fst (declared_endpoints contracts))))"

definition relationship_matches :: "relationship \<Rightarrow> trace_span \<Rightarrow> trace_span \<Rightarrow> bool" where
  "relationship_matches r producer consumer \<longleftrightarrow> (case r of
     Parent \<Rightarrow> ts_trace_id consumer = ts_trace_id producer \<and>
       ts_parent_span_id consumer = ts_span_id producer
   | Link \<Rightarrow> \<exists>l \<in> set (ts_links consumer). tl_trace_id l = ts_trace_id producer \<and>
       tl_span_id l = ts_span_id producer \<and>
       (tl_message_id l = None \<or> tl_message_id l = ts_message_id producer))"

text \<open>The identities seen so far, each with its domain.\<close>

fun check_identities ::
  "(trace_span_key \<times> string) list \<Rightarrow> (string \<times> trace_span) list \<Rightarrow> trace_error option" where
  "check_identities seen [] = None"
| "check_identities seen ((domain, s) # rest) =
     (case map_of seen (trace_span_key s) of
        Some previous \<Rightarrow> Some (Span_identity_repeated (trace_span_key s) previous domain)
      | None \<Rightarrow> check_identities ((trace_span_key s, domain) # seen) rest)"

definition domain_spans :: "span_set \<Rightarrow> (string \<times> trace_span) list" where
  "domain_spans spans = concat (map (\<lambda>(d, ss). map (Pair d) ss) spans)"

definition validate_trace_set :: "span_set \<Rightarrow> trace_error option" where
  "validate_trace_set spans = check_identities [] (domain_spans spans)"

lemma check_identities_None:
  "check_identities seen xs = None \<longleftrightarrow>
     distinct (map (trace_span_key \<circ> snd) xs) \<and> (trace_span_key \<circ> snd) ` set xs \<inter> fst ` set seen = {}"
proof (induction xs arbitrary: seen)
  case (Cons x xs)
  obtain d s where x: "x = (d, s)" by (cases x)
  show ?case
  proof (cases "map_of seen (trace_span_key s)")
    case None
    then have "trace_span_key s \<notin> fst ` set seen" by (simp add: map_of_eq_None_iff)
    then show ?thesis by (auto simp: x None Cons.IH)
  next
    case (Some p)
    then have "trace_span_key s \<in> fst ` set seen" by (metis domI dom_map_of_conv_image_fst)
    then show ?thesis by (simp add: x Some)
  qed
qed simp

lemma domain_spans_snd: "map snd (domain_spans spans) = all_spans spans"
  by (induction spans) (auto simp: domain_spans_def all_spans_def o_def)

lemma validate_trace_set_accepts:
  "validate_trace_set spans = None \<longleftrightarrow> distinct (map trace_span_key (all_spans spans))"
  by (simp add: validate_trace_set_def check_identities_None flip: domain_spans_snd)

section \<open>The trace graph\<close>

text \<open>Each span with the spans that follow it: its children and the spans that link to it.\<close>

definition precedes :: "span_set \<Rightarrow> trace_span_key \<Rightarrow> trace_span \<Rightarrow> bool" where
  "precedes spans target s \<longleftrightarrow>
     (case dict_by trace_span_key (all_spans spans) target of None \<Rightarrow> False
      | Some t \<Rightarrow> ts_start t \<le> ts_start s)"

definition causes :: "trace_span \<Rightarrow> trace_span_key list" where
  "causes s = (if ts_parent_span_id s \<noteq> [] then [(ts_trace_id s, ts_parent_span_id s)] else [])
     @ map (\<lambda>l. (tl_trace_id l, tl_span_id l)) (ts_links s)"

definition trace_graph :: "span_set \<Rightarrow> (trace_span_key \<times> trace_span_key) list" where
  "trace_graph spans = concat (map (\<lambda>s. map (\<lambda>target. (target, trace_span_key s))
     (filter (\<lambda>target. precedes spans target s) (causes s))) (all_spans spans))"

definition successors :: "('k \<times> 'k) list \<Rightarrow> 'k \<Rightarrow> 'k list" where
  "successors graph k = map snd (filter (\<lambda>e. fst e = k) graph)"

definition unvisited :: "('k \<times> 'k) list \<Rightarrow> 'k list \<Rightarrow> 'k set \<Rightarrow> 'k set" where
  "unvisited graph pending cached = (snd ` set graph \<union> set pending) - cached"

text \<open>The worklist of \<open>_reachable_from\<close>; the top of the stack is the head of the list.\<close>

function reach_loop ::
  "('k \<times> 'k) list \<Rightarrow> 'k list \<Rightarrow> 'k set \<Rightarrow> 'k set" where
  "reach_loop graph [] cached = cached"
| "reach_loop graph (node # pending) cached =
     (if node \<in> cached then reach_loop graph pending cached
      else reach_loop graph (successors graph node @ pending) (insert node cached))"
  by pat_completeness auto

termination
proof (relation "measures [\<lambda>(graph, pending, cached). card (unvisited graph pending cached),
    \<lambda>(graph, pending, cached). length pending]", goal_cases)
  case (2 graph node pending cached)
  then have "unvisited graph pending cached \<subseteq> unvisited graph (node # pending) cached"
    by (auto simp: unvisited_def)
  then have "card (unvisited graph pending cached) \<le> card (unvisited graph (node # pending) cached)"
    by (rule card_mono [rotated]) (simp add: unvisited_def)
  then show ?case by auto
next
  case (3 graph node pending cached)
  then have "unvisited graph (successors graph node @ pending) (insert node cached) \<subset>
      unvisited graph (node # pending) cached"
    by (auto simp: unvisited_def successors_def)
  then have "card (unvisited graph (successors graph node @ pending) (insert node cached)) <
      card (unvisited graph (node # pending) cached)"
    by (rule psubset_card_mono [rotated]) (simp add: unvisited_def)
  then show ?case by simp
qed simp

definition reachable :: "('k \<times> 'k) list \<Rightarrow> 'k \<Rightarrow> 'k set" where
  "reachable graph source = reach_loop graph [source] {}"

lemma successors_set: "m \<in> set (successors graph n) \<longleftrightarrow> (n, m) \<in> set graph"
  by (force simp: successors_def)

text \<open>Invariant of the worklist: what is done is closed except for what is pending.\<close>

lemma reach_loop_sound:
  "x \<in> reach_loop graph pending cached \<Longrightarrow> x \<in> cached \<or> (\<exists>p \<in> set pending. (p, x) \<in> (set graph)\<^sup>*)"
proof (induction graph pending cached rule: reach_loop.induct)
  case (2 graph node pending cached)
  then show ?case
    by (cases "node \<in> cached")
      (auto simp: successors_set dest: converse_rtrancl_into_rtrancl split: if_splits)
qed simp

lemma reach_loop_closed:
  assumes "\<forall>x \<in> cached. \<forall>y. (x, y) \<in> set graph \<longrightarrow> y \<in> cached \<union> set pending"
  shows "cached \<union> set pending \<subseteq> reach_loop graph pending cached \<and>
    (\<forall>x \<in> reach_loop graph pending cached. \<forall>y. (x, y) \<in> set graph \<longrightarrow> y \<in> reach_loop graph pending cached)"
  using assms
proof (induction graph pending cached rule: reach_loop.induct)
  case (2 graph node pending cached)
  show ?case
  proof (cases "node \<in> cached")
    case True
    then have "\<forall>x \<in> cached. \<forall>y. (x, y) \<in> set graph \<longrightarrow> y \<in> cached \<union> set pending"
      using 2(3) by auto
    from 2(1) [OF True this] True show ?thesis by auto
  next
    case False
    have "\<forall>x \<in> insert node cached. \<forall>y. (x, y) \<in> set graph \<longrightarrow>
        y \<in> insert node cached \<union> set (successors graph node @ pending)"
      using 2(3) by (auto simp: successors_set)
    from 2(2) [OF False this] False show ?thesis by auto
  qed
qed simp

lemma reachable_rtrancl: "reachable graph source = {x. (source, x) \<in> (set graph)\<^sup>*}"
proof (intro set_eqI iffI)
  fix x assume "x \<in> reachable graph source"
  then show "x \<in> {x. (source, x) \<in> (set graph)\<^sup>*}"
    using reach_loop_sound [of x graph "[source]" "{}"] by (simp add: reachable_def)
next
  have closed: "source \<in> reachable graph source"
    "\<forall>x \<in> reachable graph source. \<forall>y. (x, y) \<in> set graph \<longrightarrow> y \<in> reachable graph source"
    using reach_loop_closed [of "{}" graph "[source]"] by (auto simp: reachable_def)
  fix x assume "x \<in> {x. (source, x) \<in> (set graph)\<^sup>*}"
  then have "(source, x) \<in> (set graph)\<^sup>*" by simp
  then show "x \<in> reachable graph source"
    by (induction rule: rtrancl_induct) (use closed in auto)
qed

section \<open>Correlated pairs of a channel\<close>

definition pair_sort_key :: "message_pair \<Rightarrow> int \<times> int \<times> string \<times> string" where
  "pair_sort_key p = (ts_start (snd p), ts_start (fst p), ts_span_id (fst p), ts_span_id (snd p))"

definition correlated_pairs :: "trace_span list \<Rightarrow> trace_span list \<Rightarrow> message_pair list" where
  "correlated_pairs producers consumers =
     filter (\<lambda>(p, c). ts_message_id p \<noteq> None \<and> ts_message_id p = ts_message_id c)
       (List.product producers consumers)"

definition channel_pairs ::
  "channel_contract \<Rightarrow> span_set \<Rightarrow> message_pair list \<times> chain_violation option" where
  "channel_pairs c spans =
     (let (producers, consumers) = channel_spans c spans;
          pairs = correlated_pairs producers consumers;
          refuse = (\<lambda>code. ([], Some \<lparr>cv_code = code, cv_channel_id = ch_channel_id c\<rparr>))
      in if producers = [] \<or> consumers = [] then refuse Missing_span
         else if pairs = [] then refuse Message_id_mismatch
         else if \<exists>(p, q) \<in> set pairs. \<not> relationship_matches (ch_relationship c) p q
         then refuse Relationship_mismatch
         else if \<exists>(p, q) \<in> set pairs. ts_start q < ts_start p then refuse Temporal_order_mismatch
         else (sort_key pair_sort_key pairs, None))"

section \<open>The search for a path\<close>

record search_state =
  ss_descendants :: "(trace_span_key \<times> trace_span_key set) list"
  ss_dead_ends :: "(nat \<times> trace_span_key) list"
  ss_failed_index :: nat
  ss_saw_earlier_producer :: bool

definition new_search :: search_state where
  "new_search = \<lparr>ss_descendants = [], ss_dead_ends = [], ss_failed_index = 0,
     ss_saw_earlier_producer = False\<rparr>"

definition reachable_from ::
  "(trace_span_key \<times> trace_span_key) list \<Rightarrow> trace_span_key \<Rightarrow> search_state \<Rightarrow> trace_span_key set \<times> search_state" where
  "reachable_from graph source st =
     (case map_of (ss_descendants st) source of
        Some cached \<Rightarrow> (cached, st)
      | None \<Rightarrow> (let cached = reachable graph source in
          (cached, st\<lparr>ss_descendants := (source, cached) # ss_descendants st\<rparr>)))"

text \<open>The pairs that can follow, whether one started too early, and the state.\<close>

definition candidates ::
  "(trace_span_key \<times> trace_span_key) list \<Rightarrow> message_pair list \<Rightarrow> trace_span option \<Rightarrow> search_state
    \<Rightarrow> message_pair list \<times> bool \<times> search_state" where
  "candidates graph pairs previous st =
     (case previous of
        None \<Rightarrow> (pairs, False, st)
      | Some prev \<Rightarrow>
          (case reachable_from graph (trace_span_key prev) st of (descendants, st') \<Rightarrow>
            let same_domain = filter (\<lambda>p. ts_domain_id (fst p) = ts_domain_id prev) pairs in
            (filter (\<lambda>p. ts_start prev \<le> ts_start (fst p) \<and> trace_span_key (fst p) \<in> descendants) same_domain,
             (\<exists>p \<in> set same_domain. ts_start (fst p) < ts_start prev), st')))"

definition record_failure :: "nat \<Rightarrow> bool \<Rightarrow> search_state \<Rightarrow> search_state" where
  "record_failure index earlier st =
     (if ss_failed_index st < index
      then st\<lparr>ss_failed_index := index, ss_saw_earlier_producer := earlier\<rparr>
      else if index = ss_failed_index st
      then st\<lparr>ss_saw_earlier_producer := ss_saw_earlier_producer st \<or> earlier\<rparr>
      else st)"

text \<open>\<open>for producer, consumer in candidates\<close>, with the search of the rest as an argument.\<close>

fun try_candidates ::
  "(trace_span \<Rightarrow> search_state \<Rightarrow> message_pair list option \<times> search_state) \<Rightarrow> message_pair list
    \<Rightarrow> search_state \<Rightarrow> message_pair list option \<times> search_state" where
  "try_candidates search [] st = (None, st)"
| "try_candidates search (p # ps) st =
     (case search (snd p) st of
        (Some rest, st') \<Rightarrow> (Some (p # rest), st')
      | (None, st') \<Rightarrow> try_candidates search ps st')"

fun search_path ::
  "(trace_span_key \<times> trace_span_key) list \<Rightarrow> nat \<Rightarrow> message_pair list list \<Rightarrow> trace_span option \<Rightarrow> search_state
    \<Rightarrow> message_pair list option \<times> search_state" where
  "search_path graph index [] previous st = (Some [], st)"
| "search_path graph index (pairs # rest) previous st =
     (let memo = map_option (\<lambda>s. (index, trace_span_key s)) previous in
      if (case memo of None \<Rightarrow> False | Some m \<Rightarrow> m \<in> set (ss_dead_ends st)) then (None, st)
      else (case candidates graph pairs previous st of (cands, earlier, st1) \<Rightarrow>
        (case try_candidates (\<lambda>consumer. search_path graph (Suc index) rest (Some consumer)) cands st1 of
           (Some path, st2) \<Rightarrow> (Some path, st2)
         | (None, st2) \<Rightarrow>
             (None, record_failure index earlier
                (case memo of None \<Rightarrow> st2
                 | Some m \<Rightarrow> st2\<lparr>ss_dead_ends := m # ss_dead_ends st2\<rparr>)))))"

section \<open>The search without a memory\<close>

text \<open>A pair can follow a consumer: same domain, not earlier, and causally reached.\<close>

definition follows :: "(trace_span_key \<times> trace_span_key) list \<Rightarrow> trace_span option \<Rightarrow> message_pair \<Rightarrow> bool" where
  "follows graph previous p \<longleftrightarrow> (case previous of None \<Rightarrow> True
     | Some prev \<Rightarrow> ts_domain_id (fst p) = ts_domain_id prev \<and> ts_start prev \<le> ts_start (fst p) \<and>
         trace_span_key (fst p) \<in> reachable graph (trace_span_key prev))"

fun first_of :: "(trace_span \<Rightarrow> message_pair list option) \<Rightarrow> message_pair list \<Rightarrow> message_pair list option" where
  "first_of f [] = None"
| "first_of f (p # ps) = (case f (snd p) of Some rest \<Rightarrow> Some (p # rest) | None \<Rightarrow> first_of f ps)"

fun first_path ::
  "(trace_span_key \<times> trace_span_key) list \<Rightarrow> message_pair list list \<Rightarrow> trace_span option \<Rightarrow> message_pair list option" where
  "first_path graph [] previous = Some []"
| "first_path graph (pairs # rest) previous =
     first_of (\<lambda>consumer. first_path graph rest (Some consumer)) (filter (follows graph previous) pairs)"

text \<open>One pair of every channel, each following the consumer before it.\<close>

fun connected_path ::
  "(trace_span_key \<times> trace_span_key) list \<Rightarrow> message_pair list list \<Rightarrow> trace_span option \<Rightarrow> message_pair list \<Rightarrow> bool" where
  "connected_path graph [] previous path = (path = [])"
| "connected_path graph (pairs # rest) previous path = (case path of [] \<Rightarrow> False
     | p # ps \<Rightarrow> p \<in> set pairs \<and> follows graph previous p \<and> connected_path graph rest (Some (snd p)) ps)"

lemma first_of_Some:
  "first_of f ps = Some path \<Longrightarrow> \<exists>p rest. path = p # rest \<and> p \<in> set ps \<and> f (snd p) = Some rest"
  by (induction ps) (auto split: option.splits)

lemma first_of_None: "first_of f ps = None \<longleftrightarrow> (\<forall>p \<in> set ps. f (snd p) = None)"
  by (induction ps) (auto split: option.splits)

lemma first_path_sound: "first_path graph chs previous = Some path \<Longrightarrow> connected_path graph chs previous path"
proof (induction chs arbitrary: previous path)
  case (Cons pairs rest)
  then obtain p ps where "path = p # ps" "p \<in> set pairs" "follows graph previous p"
    "first_path graph rest (Some (snd p)) = Some ps"
    using first_of_Some by fastforce
  with Cons.IH show ?case by simp
qed simp

lemma first_path_complete: "connected_path graph chs previous path \<Longrightarrow> first_path graph chs previous \<noteq> None"
proof (induction chs arbitrary: previous path)
  case (Cons pairs rest)
  then obtain p ps where p: "p \<in> set pairs" "follows graph previous p"
    "connected_path graph rest (Some (snd p)) ps"
    by (cases path) auto
  have "first_path graph rest (Some (snd p)) \<noteq> None" using p(3) by (rule Cons.IH)
  moreover have "p \<in> set (filter (follows graph previous) pairs)" using p by simp
  ultimately show ?case unfolding first_path.simps first_of_None by (intro notI) (drule (1) bspec, simp)
qed simp

text \<open>What the memory of the search says, for spans with distinct keys.\<close>

definition is_dead ::
  "(trace_span_key \<times> trace_span_key) list \<Rightarrow> message_pair list list \<Rightarrow> trace_span set \<Rightarrow> nat \<times> trace_span_key \<Rightarrow> bool" where
  "is_dead graph chs spans m \<longleftrightarrow> (\<forall>s \<in> spans. trace_span_key s = snd m \<longrightarrow>
     first_path graph (drop (fst m) chs) (Some s) = None)"

definition search_inv ::
  "(trace_span_key \<times> trace_span_key) list \<Rightarrow> message_pair list list \<Rightarrow> trace_span set \<Rightarrow> search_state \<Rightarrow> bool" where
  "search_inv graph chs spans st \<longleftrightarrow>
     (\<forall>k d. map_of (ss_descendants st) k = Some d \<longrightarrow> d = reachable graph k) \<and>
     (\<forall>m \<in> set (ss_dead_ends st). is_dead graph chs spans m)"

lemma candidates_inv:
  assumes "search_inv graph chs spans st" and "candidates graph pairs previous st = (cands, earlier, st')"
  shows "cands = filter (follows graph previous) pairs \<and> search_inv graph chs spans st'"
proof (cases previous)
  case None
  with assms show ?thesis by (auto simp: candidates_def follows_def)
next
  case (Some prev)
  obtain d st1 where r: "reachable_from graph (trace_span_key prev) st = (d, st1)" by fastforce
  have "d = reachable graph (trace_span_key prev) \<and> search_inv graph chs spans st1"
  proof (cases "map_of (ss_descendants st) (trace_span_key prev)")
    case None
    with r have "d = reachable graph (trace_span_key prev)"
      "st1 = st\<lparr>ss_descendants := (trace_span_key prev, d) # ss_descendants st\<rparr>"
      by (auto simp: reachable_from_def Let_def)
    with assms(1) show ?thesis by (simp add: search_inv_def)
  next
    case (Some cached)
    with r have "d = cached" "st1 = st" by (simp_all add: reachable_from_def)
    with assms(1) Some show ?thesis by (simp only: search_inv_def)
  qed
  then have d: "d = reachable graph (trace_span_key prev)" and inv: "search_inv graph chs spans st1" by auto
  from assms(2) Some r have "st' = st1"
    "cands = filter (\<lambda>p. ts_start prev \<le> ts_start (fst p) \<and> trace_span_key (fst p) \<in> d)
       (filter (\<lambda>p. ts_domain_id (fst p) = ts_domain_id prev) pairs)"
    by (auto simp: candidates_def Let_def)
  with d inv Some show ?thesis by (auto simp: follows_def intro!: filter_cong)
qed

lemma record_failure_inv [simp]:
  "search_inv graph chs spans (record_failure i e st) = search_inv graph chs spans st"
  by (simp add: record_failure_def search_inv_def)

lemma try_candidates_inv:
  assumes "\<And>c s. c \<in> snd ` set cands \<Longrightarrow> Q s \<Longrightarrow> fst (search c s) = f c \<and> Q (snd (search c s))"
    and "Q st"
  shows "fst (try_candidates search cands st) = first_of f cands \<and> Q (snd (try_candidates search cands st))"
  using assms
proof (induction cands arbitrary: st)
  case (Cons p ps)
  obtain r1 st1 where s: "search (snd p) st = (r1, st1)" by fastforce
  with Cons.prems(1) [of "snd p" st] Cons.prems(2) have r1: "r1 = f (snd p)" "Q st1" by simp_all
  have "fst (try_candidates search ps st1) = first_of f ps \<and> Q (snd (try_candidates search ps st1))"
    using Cons.prems(1) r1(2) by (intro Cons.IH) auto
  with s r1 show ?case by (cases "f (snd p)") simp_all
qed simp

lemma search_path_first:
  assumes "search_path graph i pss previous st = (r, st')" and "pss = drop i chs"
    and "search_inv graph chs spans st" and "\<forall>s. previous = Some s \<longrightarrow> s \<in> spans"
    and inj: "inj_on trace_span_key spans" and pairs: "\<forall>ps \<in> set chs. snd ` set ps \<subseteq> spans"
  shows "r = first_path graph pss previous \<and> search_inv graph chs spans st'"
  using assms(1-4)
proof (induction pss arbitrary: i previous st r st')
  case (Cons ps rest)
  define memo where "memo = map_option (\<lambda>s. (i, trace_span_key s)) previous"
  show ?case
  proof (cases "case memo of None \<Rightarrow> False | Some m \<Rightarrow> m \<in> set (ss_dead_ends st)")
    case True
    then obtain s where s: "previous = Some s" "(i, trace_span_key s) \<in> set (ss_dead_ends st)"
      by (auto simp: memo_def split: option.splits)
    with Cons.prems have "first_path graph (ps # rest) previous = None"
      by (auto simp: search_inv_def is_dead_def)
    moreover have "r = None" "st' = st"
      using Cons.prems(1) True by (auto simp: memo_def [symmetric] Let_def)
    ultimately show ?thesis using Cons.prems(3) by simp
  next
    case False
    obtain cands earlier st1 where c: "candidates graph ps previous st = (cands, earlier, st1)"
      by (cases "candidates graph ps previous st") auto
    from candidates_inv [OF Cons.prems(3) c]
    have cands: "cands = filter (follows graph previous) ps" and inv1: "search_inv graph chs spans st1"
      by auto
    obtain r2 st2 where t: "try_candidates (\<lambda>consumer. search_path graph (Suc i) rest (Some consumer))
        cands st1 = (r2, st2)" by fastforce
    have rest: "rest = drop (Suc i) chs" using Cons.prems(2)
      by (metis drop_Suc list.sel(3) tl_drop)
    have ps: "ps \<in> set chs" using Cons.prems(2) by (metis in_set_dropD list.set_intros(1))
    let ?search = "\<lambda>consumer. search_path graph (Suc i) rest (Some consumer)"
    have "fst (try_candidates ?search cands st1) =
        first_of (\<lambda>consumer. first_path graph rest (Some consumer)) cands
        \<and> search_inv graph chs spans (snd (try_candidates ?search cands st1))"
    proof (rule try_candidates_inv [where Q = "search_inv graph chs spans", OF _ inv1])
      fix c s assume c: "c \<in> snd ` set cands" and inv: "search_inv graph chs spans s"
      have "c \<in> spans" using c pairs ps cands by auto
      then show "fst (?search c s) = first_path graph rest (Some c) \<and>
          search_inv graph chs spans (snd (?search c s))"
        using Cons.IH [of "Suc i" "Some c" s, OF prod.collapse [symmetric] rest inv] by simp
    qed
    then have r2: "r2 = first_path graph (ps # rest) previous" and inv2: "search_inv graph chs spans st2"
      using t by (simp_all add: cands)
    show ?thesis
    proof (cases r2)
      case (Some path)
      then show ?thesis using Cons.prems(1) False c t r2 inv2 by (simp add: memo_def [symmetric] Let_def)
    next
      case None
      have "search_inv graph chs spans (case memo of None \<Rightarrow> st2
          | Some m \<Rightarrow> st2\<lparr>ss_dead_ends := m # ss_dead_ends st2\<rparr>)"
      proof (cases previous)
        case None
        with inv2 show ?thesis by (simp add: memo_def)
      next
        case (Some s)
        have "first_path graph (drop i chs) (Some s') = None" if "s' \<in> spans" "trace_span_key s' = trace_span_key s" for s'
        proof -
          have "s' = s" using inj that Cons.prems(4) Some by (auto dest: inj_onD)
          then show ?thesis using r2 \<open>r2 = None\<close> Some Cons.prems(2) by simp
        qed
        then have "is_dead graph chs spans (i, trace_span_key s)" by (simp add: is_dead_def)
        with inv2 Some show ?thesis by (simp add: memo_def search_inv_def)
      qed
      then show ?thesis using Cons.prems(1) False c t r2 None
        by (auto simp: memo_def [symmetric] Let_def)
    qed
  qed
qed simp

section \<open>Causal chains\<close>

record causal_hop =
  hp_channel_id :: string
  hp_relationship :: relationship
  hp_producer :: trace_span
  hp_consumer :: trace_span

record chain_evaluation =
  ce_status :: outcome
  ce_root_trace_id :: "string option"
  ce_trace_ids :: "string list"
  ce_channel_ids :: "string list"
  ce_hops :: "causal_hop list"
  ce_violations :: "chain_violation list"

definition hop :: "channel_contract \<Rightarrow> message_pair \<Rightarrow> causal_hop" where
  "hop c p = \<lparr>hp_channel_id = ch_channel_id c, hp_relationship = ch_relationship c,
     hp_producer = fst p, hp_consumer = snd p\<rparr>"

definition connected_hops ::
  "channel_contract list \<Rightarrow> message_pair list list \<Rightarrow> span_set \<Rightarrow> causal_hop list \<times> chain_violation option" where
  "connected_hops contracts pairs spans =
     (case search_path (trace_graph spans) 0 pairs None new_search of
        (Some path, _) \<Rightarrow> (map2 hop contracts path, None)
      | (None, st) \<Rightarrow>
          (map2 (\<lambda>c ps. hop c (hd ps)) contracts pairs,
           Some \<lparr>cv_code = (if ss_saw_earlier_producer st then Temporal_order_mismatch
                            else Relationship_mismatch),
                 cv_channel_id = ch_channel_id (contracts ! ss_failed_index st)\<rparr>))"

definition evaluate_causal_chain ::
  "string list \<Rightarrow> channel_contract list \<Rightarrow> span_set \<Rightarrow> trace_error + chain_evaluation" where
  "evaluate_causal_chain expected_channel_ids contracts spans = checked
     (first_error [validate_trace_set spans,
        require (map ch_channel_id contracts = expected_channel_ids) Channel_contracts_differ])
     (let results = map (\<lambda>c. channel_pairs c spans) contracts;
          pairs = map fst results;
          channel_violations = List.map_filter snd results;
          missing = (\<exists>v \<in> set channel_violations. cv_code v = Missing_span);
          (hops, path_violation) =
            (if channel_violations = [] then connected_hops contracts pairs spans
             else (map (\<lambda>(c, ps). hop c (hd ps)) (filter (\<lambda>(c, ps). ps \<noteq> []) (zip contracts pairs)), None));
          violations = channel_violations @ (case path_violation of None \<Rightarrow> [] | Some v \<Rightarrow> [v]);
          status = (if violations = [] then Passed
            else if \<exists>v \<in> set violations. cv_code v \<noteq> Missing_span then Failed
            else if missing then Incomplete else Error)
      in Inr \<lparr>ce_status = status,
              ce_root_trace_id = (case hops of [] \<Rightarrow> None | h # _ \<Rightarrow> Some (ts_trace_id (hp_producer h))),
              ce_trace_ids = sorted_list_of_set (\<Union>h \<in> set hops.
                {ts_trace_id (hp_producer h), ts_trace_id (hp_consumer h)}),
              ce_channel_ids = expected_channel_ids, ce_hops = hops, ce_violations = violations\<rparr>)"

section \<open>What a passed chain proves\<close>

text \<open>One message of a channel, and all of the channel's correlated messages being in order.\<close>

definition delivers :: "span_set \<Rightarrow> channel_contract \<Rightarrow> message_pair \<Rightarrow> bool" where
  "delivers spans c p \<longleftrightarrow>
     fst p \<in> set (fst (channel_spans c spans)) \<and> snd p \<in> set (snd (channel_spans c spans)) \<and>
     ts_message_id (fst p) \<noteq> None \<and> ts_message_id (fst p) = ts_message_id (snd p)"

definition in_order :: "channel_contract \<Rightarrow> message_pair \<Rightarrow> bool" where
  "in_order c p \<longleftrightarrow> relationship_matches (ch_relationship c) (fst p) (snd p) \<and>
     ts_start (fst p) \<le> ts_start (snd p)"

text \<open>A message path: each delivery is handed over, in one domain, along the trace graph.\<close>

fun message_path :: "span_set \<Rightarrow> channel_contract list \<Rightarrow> trace_span option \<Rightarrow> message_pair list \<Rightarrow> bool" where
  "message_path spans [] previous path = (path = [])"
| "message_path spans (c # cs) previous path = (case path of [] \<Rightarrow> False
     | p # ps \<Rightarrow> delivers spans c p \<and> (case previous of None \<Rightarrow> True
          | Some q \<Rightarrow> ts_domain_id (fst p) = ts_domain_id q \<and> ts_start q \<le> ts_start (fst p) \<and>
              (trace_span_key q, trace_span_key (fst p)) \<in> (set (trace_graph spans))\<^sup>*) \<and>
        message_path spans cs (Some (snd p)) ps)"

definition chain_established :: "span_set \<Rightarrow> channel_contract list \<Rightarrow> bool" where
  "chain_established spans contracts \<longleftrightarrow>
     (\<forall>c \<in> set contracts. (\<exists>p. delivers spans c p) \<and> (\<forall>p. delivers spans c p \<longrightarrow> in_order c p)) \<and>
     (\<exists>path. message_path spans contracts None path)"

lemma correlated_pairs_set: "p \<in> set (correlated_pairs producers consumers) \<longleftrightarrow>
    fst p \<in> set producers \<and> snd p \<in> set consumers \<and> ts_message_id (fst p) \<noteq> None \<and>
    ts_message_id (fst p) = ts_message_id (snd p)"
  by (cases p) (auto simp: correlated_pairs_def)

lemma channel_pairs_None:
  "snd (channel_pairs c spans) = None \<longleftrightarrow>
     (\<exists>p. delivers spans c p) \<and> (\<forall>p. delivers spans c p \<longrightarrow> in_order c p)"
proof -
  obtain producers consumers where ch: "channel_spans c spans = (producers, consumers)" by fastforce
  define pairs where "pairs = correlated_pairs producers consumers"
  have set: "delivers spans c p \<longleftrightarrow> p \<in> set pairs" for p
    by (simp add: delivers_def ch pairs_def correlated_pairs_set)
  have empty: "producers = [] \<or> consumers = [] \<Longrightarrow> pairs = []"
    by (auto simp: pairs_def correlated_pairs_def product_concat_map)
  have "snd (channel_pairs c spans) = None \<longleftrightarrow> \<not> (producers = [] \<or> consumers = []) \<and> pairs \<noteq> [] \<and>
      \<not> (\<exists>(p, q) \<in> set pairs. \<not> relationship_matches (ch_relationship c) p q) \<and>
      \<not> (\<exists>(p, q) \<in> set pairs. ts_start q < ts_start p)"
    unfolding channel_pairs_def ch Let_def pairs_def by simp
  also have "\<dots> \<longleftrightarrow> pairs \<noteq> [] \<and> (\<forall>p \<in> set pairs. in_order c p)"
    using empty by (auto simp: in_order_def case_prod_beta not_less not_le)
  finally have "snd (channel_pairs c spans) = None \<longleftrightarrow> pairs \<noteq> [] \<and> (\<forall>p \<in> set pairs. in_order c p)" .
  moreover have "(\<exists>p. p \<in> set pairs) \<longleftrightarrow> pairs \<noteq> []" by (simp only: ex_in_conv set_empty simp_thms)
  ultimately show ?thesis by (simp only: set Ball_def)
qed

lemma channel_pairs_set:
  assumes "snd (channel_pairs c spans) = None"
  shows "p \<in> set (fst (channel_pairs c spans)) \<longleftrightarrow> delivers spans c p"
  using assms
  by (auto simp: channel_pairs_def delivers_def correlated_pairs_set Let_def split: prod.splits if_splits)

lemma connected_message_path:
  assumes "\<forall>c \<in> set contracts. snd (channel_pairs c spans) = None"
  shows "connected_path (trace_graph spans) (map (\<lambda>c. fst (channel_pairs c spans)) contracts) previous path
    \<longleftrightarrow> message_path spans contracts previous path"
  using assms
proof (induction contracts arbitrary: previous path)
  case (Cons c cs)
  show ?case
  proof (cases path)
    case (Cons p ps)
    have "follows (trace_graph spans) previous p \<longleftrightarrow> (case previous of None \<Rightarrow> True
          | Some q \<Rightarrow> ts_domain_id (fst p) = ts_domain_id q \<and> ts_start q \<le> ts_start (fst p) \<and>
              (trace_span_key q, trace_span_key (fst p)) \<in> (set (trace_graph spans))\<^sup>*)"
      by (simp add: follows_def reachable_rtrancl split: option.splits)
    then show ?thesis
      using Cons.IH [of "Some (snd p)" ps] Cons.prems channel_pairs_set [of c spans p]
      by (simp add: Cons)
  qed simp
qed simp

text \<open>The search over the pairs of the channels, from the empty memory.\<close>

lemma chain_search:
  assumes "validate_trace_set spans = None"
    and ok: "\<forall>c \<in> set contracts. snd (channel_pairs c spans) = None"
  shows "case fst (search_path (trace_graph spans) 0 (map (\<lambda>c. fst (channel_pairs c spans)) contracts)
      None new_search) of
     Some path \<Rightarrow> message_path spans contracts None path
   | None \<Rightarrow> \<not> (\<exists>path. message_path spans contracts None path)"
proof -
  let ?pairs = "map (\<lambda>c. fst (channel_pairs c spans)) contracts" and ?S = "set (all_spans spans)"
  have "inj_on trace_span_key ?S"
    using assms(1) by (simp add: validate_trace_set_accepts distinct_map)
  moreover have "\<forall>ps \<in> set ?pairs. snd ` set ps \<subseteq> ?S"
    using ok channel_pairs_set by (fastforce simp: delivers_def channel_spans_def endpoint_matches_def
        dest: spans_of_all split: prod.splits)
  moreover have "search_inv (trace_graph spans) ?pairs ?S new_search"
    by (simp add: search_inv_def new_search_def)
  ultimately have "fst (search_path (trace_graph spans) 0 ?pairs None new_search) =
      first_path (trace_graph spans) ?pairs None"
    using search_path_first [of "trace_graph spans" 0 ?pairs None new_search _ _ ?pairs ?S,
        OF prod.collapse [symmetric]] by simp
  then show ?thesis
    using first_path_sound [of "trace_graph spans" ?pairs None]
      first_path_complete [of "trace_graph spans" ?pairs None] connected_message_path [OF ok]
    by (auto split: option.splits)
qed

lemma map_filter_Nil: "List.map_filter f xs = [] \<longleftrightarrow> (\<forall>x \<in> set xs. f x = None)"
  by (induction xs) (auto simp: map_filter_simps split: option.splits)

definition hop_pair :: "causal_hop \<Rightarrow> message_pair" where
  "hop_pair h = (hp_producer h, hp_consumer h)"

lemma map2_hop_pairs:
  "length contracts = length path \<Longrightarrow> map hop_pair (map2 hop contracts path) = path"
  by (induction contracts path rule: list_induct2) (simp_all add: hop_def hop_pair_def)

lemma message_path_length: "message_path spans contracts previous path \<Longrightarrow> length contracts = length path"
  by (induction contracts arbitrary: previous path) (auto split: list.splits)

lemma chain_evaluated:
  assumes "evaluate_causal_chain expected contracts spans = Inr ev"
  shows "(ce_status ev = Passed \<longleftrightarrow> chain_established spans contracts) \<and>
    (ce_status ev = Passed \<longrightarrow>
       (\<exists>path. message_path spans contracts None path \<and> ce_hops ev = map2 hop contracts path))"
proof -
  let ?results = "map (\<lambda>c. channel_pairs c spans) contracts"
  let ?pairs = "map (\<lambda>c. fst (channel_pairs c spans)) contracts"
  have valid: "validate_trace_set spans = None"
    using assms by (simp add: evaluate_causal_chain_def checked_Inr)
  have clean: "List.map_filter snd ?results = [] \<longleftrightarrow> (\<forall>c \<in> set contracts. snd (channel_pairs c spans) = None)"
    by (simp add: map_filter_Nil)
  show ?thesis
  proof (cases "\<forall>c \<in> set contracts. snd (channel_pairs c spans) = None")
    case False
    then have "ce_status ev \<noteq> Passed"
      using assms clean by (auto simp: evaluate_causal_chain_def checked_Inr Let_def split: if_splits prod.splits)
    moreover have "\<not> chain_established spans contracts"
      using False channel_pairs_None unfolding chain_established_def by blast
    ultimately show ?thesis by simp
  next
    case True
    obtain r st where search: "search_path (trace_graph spans) 0 ?pairs None new_search = (r, st)"
      by fastforce
    note found = chain_search [OF valid True, unfolded search fst_conv]
    have channels: "\<forall>c \<in> set contracts. (\<exists>p. delivers spans c p) \<and> (\<forall>p. delivers spans c p \<longrightarrow> in_order c p)"
      using True channel_pairs_None by blast
    have ev: "ce_status ev = Passed \<longleftrightarrow> r \<noteq> None"
      "r \<noteq> None \<Longrightarrow> ce_hops ev = map2 hop contracts (the r)"
      using assms clean True search
      by (auto simp: evaluate_causal_chain_def checked_Inr Let_def connected_hops_def o_def
          split: option.splits if_splits)
    show ?thesis
    proof (cases r)
      case None
      with found ev show ?thesis by (simp add: chain_established_def)
    next
      case (Some path)
      with found have path: "message_path spans contracts None path" by simp
      from Some ev have "ce_hops ev = map2 hop contracts path" by simp
      with path Some ev channels show ?thesis by (auto simp: chain_established_def)
    qed
  qed
qed

text \<open>Every hop, whatever the verdict, is a delivery of its channel in order.\<close>

lemma channel_pairs_member:
  assumes "p \<in> set (fst (channel_pairs c spans))"
  shows "delivers spans c p \<and> in_order c p"
proof -
  from assms have none: "snd (channel_pairs c spans) = None"
    by (auto simp: channel_pairs_def Let_def split: prod.splits if_splits)
  with assms channel_pairs_set [OF none] show ?thesis
    using channel_pairs_None by blast
qed

definition hop_of :: "span_set \<Rightarrow> channel_contract \<Rightarrow> causal_hop \<Rightarrow> bool" where
  "hop_of spans c h \<longleftrightarrow> (\<exists>p. h = hop c p \<and> delivers spans c p \<and> in_order c p)"

lemma first_pairs_hops:
  "list_all2 (hop_of spans) (filter (\<lambda>c. fst (channel_pairs c spans) \<noteq> []) contracts)
     (map (\<lambda>(c, ps). hop c (hd ps))
       (filter (\<lambda>(c, ps). ps \<noteq> []) (zip contracts (map (\<lambda>c. fst (channel_pairs c spans)) contracts))))"
proof (induction contracts)
  case (Cons c cs)
  show ?case
  proof (cases "fst (channel_pairs c spans) = []")
    case False
    then have "hop_of spans c (hop c (hd (fst (channel_pairs c spans))))"
      using channel_pairs_member [OF hd_in_set] unfolding hop_of_def by blast
    with Cons False show ?thesis by simp
  qed (use Cons in simp)
qed simp

lemma path_hops:
  assumes "message_path spans contracts previous path"
    and "\<forall>c \<in> set contracts. \<forall>p. delivers spans c p \<longrightarrow> in_order c p"
  shows "list_all2 (hop_of spans) contracts (map2 hop contracts path)"
  using assms
proof (induction contracts arbitrary: previous path)
  case (Cons c cs)
  then obtain p ps where path: "path = p # ps" and p: "delivers spans c p" "message_path spans cs (Some (snd p)) ps"
    by (auto split: list.splits)
  have "in_order c p" using p(1) Cons.prems(2) by (meson list.set_intros(1))
  with p(1) have "hop_of spans c (hop c p)" unfolding hop_of_def by blast
  with Cons.IH [OF p(2)] Cons.prems(2) show ?case by (simp add: path)
qed simp

lemma chain_hops:
  assumes "evaluate_causal_chain expected contracts spans = Inr ev"
  shows "\<exists>sel. subseq sel contracts \<and> list_all2 (hop_of spans) sel (ce_hops ev) \<and>
     (ce_status ev = Passed \<longrightarrow> sel = contracts)"
proof (cases "ce_status ev = Passed")
  case True
  with chain_evaluated [OF assms] obtain path where "message_path spans contracts None path"
    and hops: "ce_hops ev = map2 hop contracts path" and "chain_established spans contracts" by blast
  then have "list_all2 (hop_of spans) contracts (ce_hops ev)"
    using path_hops by (auto simp: chain_established_def)
  then show ?thesis by blast
next
  case False
  let ?pairs = "map (\<lambda>c. fst (channel_pairs c spans)) contracts"
  define first_hops where "first_hops = map (\<lambda>(c, ps). hop c (hd ps))
       (filter (\<lambda>(c, ps). ps \<noteq> []) (zip contracts ?pairs))"
  have "ce_hops ev = first_hops"
  proof (cases "\<forall>c \<in> set contracts. snd (channel_pairs c spans) = None")
    case True
    have ne: "fst (channel_pairs c spans) \<noteq> []" if "c \<in> set contracts" for c
      using True that channel_pairs_None [of c spans] channel_pairs_set [of c spans] by fastforce
    have "filter (\<lambda>(c, ps). ps \<noteq> []) (zip contracts ?pairs) = zip contracts ?pairs"
      using ne by (auto simp: filter_id_conv set_zip)
    then have "first_hops = map2 (\<lambda>c ps. hop c (hd ps)) contracts ?pairs" by (simp add: first_hops_def)
    moreover from True have "List.map_filter snd (map (\<lambda>c. channel_pairs c spans) contracts) = []"
      by (simp add: map_filter_Nil)
    ultimately show ?thesis
      using assms False
      by (auto simp: evaluate_causal_chain_def checked_Inr Let_def connected_hops_def o_def
          split: option.splits prod.splits if_splits)
  next
    case False
    then have "List.map_filter snd (map (\<lambda>c. channel_pairs c spans) contracts) \<noteq> []"
      by (simp add: map_filter_Nil)
    with assms show ?thesis
      by (auto simp: evaluate_causal_chain_def checked_Inr Let_def o_def first_hops_def)
  qed
  with first_pairs_hops [of spans contracts] show ?thesis
    unfolding first_hops_def using subseq_filter_left False by metis
qed

lemma chain_fields:
  assumes "evaluate_causal_chain expected contracts spans = Inr ev"
  shows "ce_channel_ids ev = expected" "map ch_channel_id contracts = expected"
    "validate_trace_set spans = None"
    "set (ce_trace_ids ev) = (\<Union>h \<in> set (ce_hops ev). {ts_trace_id (hp_producer h), ts_trace_id (hp_consumer h)})"
    "ce_root_trace_id ev = (case ce_hops ev of [] \<Rightarrow> None | h # _ \<Rightarrow> Some (ts_trace_id (hp_producer h)))"
  using assms
  by (auto simp: evaluate_causal_chain_def checked_Inr Let_def split: prod.splits)

text \<open>
  C33: A causal chain is passed exactly when every channel has correlated messages, all of
  them related and in time order, and one message path crosses the channels in order, handed
  over inside a domain along the parent and link edges of the trace graph; the hops of a
  passed chain are such a path. The dead ends and the cached descendants of the search never
  hide a path.
\<close>

theorem chain_passed_iff_path:
  assumes "evaluate_causal_chain expected contracts spans = Inr ev"
  shows "(ce_status ev = Passed \<longleftrightarrow> chain_established spans contracts) \<and>
    (ce_status ev \<noteq> Passed \<or> message_path spans contracts None (map hop_pair (ce_hops ev)))"
proof (cases "ce_status ev = Passed")
  case True
  with chain_evaluated [OF assms] obtain path where path: "message_path spans contracts None path"
    and hops: "ce_hops ev = map2 hop contracts path" by blast
  have "map hop_pair (ce_hops ev) = path"
    unfolding hops by (rule map2_hop_pairs [OF message_path_length [OF path]])
  with path chain_evaluated [OF assms] show ?thesis by simp
qed (use chain_evaluated [OF assms] in blast)

section \<open>A message across two channels\<close>

definition example_span ::
  "string \<Rightarrow> string \<Rightarrow> string \<Rightarrow> string \<Rightarrow> int \<Rightarrow> string \<Rightarrow> trace_link list \<Rightarrow> trace_span" where
  "example_span domain name key parent start message links =
     \<lparr>ts_trace_id = ''t'', ts_span_id = key, ts_parent_span_id = parent, ts_name = name,
      ts_run_id = ''run'', ts_domain_id = domain, ts_message_id = Some message, ts_start = start,
      ts_end = start + 1, ts_links = links, ts_destination = None\<rparr>"

definition example_link :: "string \<Rightarrow> trace_link list" where
  "example_link key = [\<lparr>tl_trace_id = ''t'', tl_span_id = key, tl_message_id = None\<rparr>]"

definition example_spans :: span_set where
  "example_spans =
     [(''a'', [example_span ''a'' ''send'' ''1'' [] 1 ''m'' []]),
      (''b'', [example_span ''b'' ''recv'' ''2'' [] 3 ''m'' (example_link ''1''),
               example_span ''b'' ''send'' ''3'' ''2'' 4 ''n'' []]),
      (''c'', [example_span ''c'' ''recv'' ''4'' [] 6 ''n'' (example_link ''3'')])]"

definition example_contract :: "string \<Rightarrow> string \<Rightarrow> channel_contract" where
  "example_contract s d =
     \<lparr>ch_channel_id = s @ d, ch_relationship = Link, ch_source_domain_id = s,
      ch_source_topic = ''/out'', ch_producer_span_name = ''send'', ch_destination_domain_id = d,
      ch_destination_topic = ''/in'', ch_consumer_span_name = ''recv'',
      ch_delivery = \<lparr>minimum_source_messages = 1, max_loss_ratio = 0, max_duplicate_count = 0,
        max_out_of_order_count = 0, max_message_age_limit_ms = 1, observation_window_sec = 1\<rparr>\<rparr>"

definition example_contracts :: "channel_contract list" where
  "example_contracts = [example_contract ''a'' ''b'', example_contract ''b'' ''c'']"

definition chain_passes :: "trace_error + chain_evaluation \<Rightarrow> bool" where
  "chain_passes r = (case r of Inl _ \<Rightarrow> False | Inr ev \<Rightarrow> ce_status ev = Passed)"

lemma example_chain_passes:
  "chain_passes (evaluate_causal_chain [''ab'', ''bc''] example_contracts example_spans)"
  by code_simp

theorem chain_passed_iff_path_witness:
  "\<exists>ev. evaluate_causal_chain [''ab'', ''bc''] example_contracts example_spans = Inr ev \<and>
     ce_status ev = Passed \<and> chain_established example_spans example_contracts"
proof -
  obtain ev where ev: "evaluate_causal_chain [''ab'', ''bc''] example_contracts example_spans = Inr ev"
    "ce_status ev = Passed"
    using example_chain_passes by (auto simp: chain_passes_def split: sum.splits)
  from chain_passed_iff_path [OF ev(1)] ev show ?thesis by blast
qed

end
