(* ===== verification/Channel_Delivery.thy ===== *)
theory Channel_Delivery
  imports Trace_Chains Metric_Assertions Sem_Documents
begin

text \<open>
  The delivery of one channel measured from its spans (harness/traces.py,
  \<open>evaluate_channel_delivery\<close>): losses, duplicates, reordering and message age inside the
  declared window. The theorems say that the counters conserve messages and that the contract
  validator accepts every observation the harness measures.
\<close>

section \<open>Measurement\<close>

record delivery_evaluation =
  de_status :: outcome
  de_started_at_ns :: int
  de_finished_at_ns :: int
  de_sent_count :: int
  de_received_count :: int
  de_lost_count :: int
  de_duplicate_count :: int
  de_out_of_order_count :: int
  de_loss_ratio :: rat
  de_max_message_age_ms :: rat
  de_violations :: "violation_code list"

text \<open>\<open>messages[code]\<close> has no text for this code: a \<open>KeyError\<close>.\<close>

datatype delivery_error = No_message_for violation_code

definition no_spans_observed :: delivery_evaluation where
  "no_spans_observed = \<lparr>de_status = Incomplete, de_started_at_ns = 0, de_finished_at_ns = 0,
     de_sent_count = 0, de_received_count = 0, de_lost_count = 0, de_duplicate_count = 0,
     de_out_of_order_count = 0, de_loss_ratio = 0, de_max_message_age_ms = 0,
     de_violations = [Insufficient_messages]\<rparr>"

definition window_start_of :: "trace_span list \<Rightarrow> trace_span list \<Rightarrow> int" where
  "window_start_of producers consumers =
     Min (set (map ts_start (if producers \<noteq> [] then producers else consumers)))"

definition inside_window :: "int \<Rightarrow> int \<Rightarrow> trace_span \<Rightarrow> bool" where
  "inside_window s e x \<longleftrightarrow> s \<le> ts_start x \<and> ts_end x \<le> e"

text \<open>The items of one message on a side, and what exceeds the other side.\<close>

definition with_message :: "string option \<Rightarrow> trace_span list \<Rightarrow> trace_span list" where
  "with_message m spans = filter (\<lambda>s. ts_message_id s = m) spans"

definition surplus :: "trace_span list \<Rightarrow> trace_span list \<Rightarrow> int" where
  "surplus spans others = sum_list (map (\<lambda>(m, items).
     max 0 (int (length items) - int (length (with_message m others))))
     (group_by ts_message_id spans))"

definition delivery_loss_ratio :: "int \<Rightarrow> nat \<Rightarrow> rat" where
  "delivery_loss_ratio lost sent = (if sent \<noteq> 0 then fl (of_int lost / of_int (int sent)) else 0)"

definition invalid_delivery :: "trace_span list \<Rightarrow> trace_span list \<Rightarrow> int \<Rightarrow> int \<Rightarrow> delivery_evaluation" where
  "invalid_delivery producers consumers s e =
     \<lparr>de_status = Error, de_started_at_ns = s, de_finished_at_ns = e,
      de_sent_count = int (length producers), de_received_count = int (length consumers),
      de_lost_count = int (length producers), de_duplicate_count = int (length consumers),
      de_out_of_order_count = 0,
      de_loss_ratio = delivery_loss_ratio (int (length producers)) (length producers),
      de_max_message_age_ms = 0, de_violations = [Invalid_observation]\<rparr>"

definition arrival_key :: "trace_span \<Rightarrow> int \<times> string \<times> string" where
  "arrival_key s = (ts_start s, ts_trace_id s, ts_span_id s)"

definition message_order_key :: "trace_span \<Rightarrow> int \<times> string \<times> string \<times> string" where
  "message_order_key s = (ts_start s, the (ts_message_id s), ts_trace_id s, ts_span_id s)"

definition matched_messages :: "trace_span list \<Rightarrow> trace_span list \<Rightarrow> message_pair list" where
  "matched_messages producers consumers = concat (map (\<lambda>(m, items).
     zip (sort_key arrival_key items) (sort_key arrival_key (with_message m consumers)))
     (group_by ts_message_id producers))"

text \<open>\<open>{key: index}\<close> over the producers in message order; a later index replaces an earlier one.\<close>

definition producer_order :: "trace_span list \<Rightarrow> trace_span_key \<Rightarrow> nat option" where
  "producer_order producers = map_of (rev (map (\<lambda>(i, s). (trace_span_key s, i))
     (enumerate 0 (sort_key message_order_key producers))))"

definition received_order :: "trace_span list \<Rightarrow> message_pair list \<Rightarrow> int list" where
  "received_order producers matched = map (\<lambda>(p, c). int (the (producer_order producers (trace_span_key p))))
     (sort_key (message_order_key \<circ> snd) matched)"

fun count_out_of_order :: "int \<Rightarrow> int list \<Rightarrow> int" where
  "count_out_of_order highest_seen [] = 0"
| "count_out_of_order highest_seen (i # is') =
     (if i < highest_seen then 1 else 0) + count_out_of_order (max highest_seen i) is'"

definition message_ages :: "message_pair list \<Rightarrow> rat list" where
  "message_ages matched = map (\<lambda>(p, c). fl (of_int (ts_start c - ts_end p) / 1000000)) matched"

definition reported_codes ::
  "bool \<Rightarrow> trace_span list \<Rightarrow> rat list \<Rightarrow> violation_code list" where
  "reported_codes outside producers ages =
     (if outside then [Observation_window_exceeded] else [])
     @ (if \<exists>(m, items) \<in> set (group_by ts_message_id producers). 1 < length items
        then [Ambiguous_message_id] else [])
     @ (if \<exists>a \<in> set ages. a < 0 then [Invalid_observation] else [])"

text \<open>The codes with a message, in the alphabetical order of \<open>sorted\<close>.\<close>

definition MESSAGE_CODES :: "violation_code list" where
  "MESSAGE_CODES = [Duplicate_count_exceeded, Insufficient_messages, Loss_ratio_exceeded,
     Message_age_exceeded, Out_of_order_count_exceeded]"

definition derived_list :: "violation_code set \<Rightarrow> delivery_error + violation_code list" where
  "derived_list codes =
     (if Observation_window_exceeded \<in> codes then Inl (No_message_for Observation_window_exceeded)
      else Inr (filter (\<lambda>c. c \<in> codes) MESSAGE_CODES))"

definition measured_delivery ::
  "delivery_policy \<Rightarrow> trace_span list \<Rightarrow> trace_span list \<Rightarrow> int \<Rightarrow> int \<Rightarrow> bool
    \<Rightarrow> delivery_error + delivery_evaluation" where
  "measured_delivery delivery producers consumers s e outside =
     (let lost = surplus producers consumers; duplicates = surplus consumers producers;
          ratio = delivery_loss_ratio lost (length producers);
          matched = matched_messages producers consumers;
          out_of_order = count_out_of_order (- 1) (received_order producers matched);
          ages = message_ages matched;
          reported = reported_codes outside producers ages;
          max_age = (if ages = [] then 0 else Max (set ages));
          derived = derive_channel_violations delivery
            \<lparr>sent_count = int (length producers), loss_ratio = ratio, duplicate_count = duplicates,
             out_of_order_count = out_of_order, max_message_age_ms = max_age,
             observation_duration_sec = fl (of_int (e - s) / 1000000000)\<rparr> reported
      in and_then (derived_list (derived - set reported)) (\<lambda>further.
         Inr \<lparr>de_status = channel_observation_status (set (reported @ further)),
              de_started_at_ns = s, de_finished_at_ns = e, de_sent_count = int (length producers),
              de_received_count = int (length consumers), de_lost_count = lost,
              de_duplicate_count = duplicates, de_out_of_order_count = out_of_order,
              de_loss_ratio = ratio, de_max_message_age_ms = max_age,
              de_violations = reported @ further\<rparr>))"

definition evaluate_channel_delivery ::
  "channel_contract \<Rightarrow> span_set \<Rightarrow> delivery_error + delivery_evaluation" where
  "evaluate_channel_delivery contract spans =
     (case channel_spans contract spans of (all_producers, all_consumers) \<Rightarrow>
      if all_producers = [] \<and> all_consumers = [] then Inr no_spans_observed
      else (let delivery = ch_delivery contract;
                s = window_start_of all_producers all_consumers;
                e = s + seconds_to_ns (observation_window_sec delivery);
                outside = (\<exists>x \<in> set (all_producers @ all_consumers). ts_start x < s \<or> e < ts_end x);
                producers = filter (inside_window s e) all_producers;
                consumers = filter (inside_window s e) all_consumers
            in if \<exists>x \<in> set (producers @ consumers). ts_message_id x = None
               then Inr (invalid_delivery producers consumers s e)
               else measured_delivery delivery producers consumers s e outside))"

section \<open>Messages are conserved\<close>

lemma filter_count: "length (filter (\<lambda>x. f x = k) xs) = count_list (map f xs) k"
  by (induction xs) auto

lemma group_by_sum: "sum_list (map (\<lambda>(k, ys). g k ys) (group_by f xs)) =
    (\<Sum>k \<in> f ` set xs. g k (filter (\<lambda>x. f x = k) xs))"
proof -
  have "sum_list (map (\<lambda>(k, ys). g k ys) (group_by f xs)) =
      sum_list (map (\<lambda>k. g k (filter (\<lambda>x. f x = k) xs)) (rev (remdups (rev (map f xs)))))"
    by (simp add: group_by_def o_def)
  also have "\<dots> = (\<Sum>k \<in> set (rev (remdups (rev (map f xs)))). g k (filter (\<lambda>x. f x = k) xs))"
    by (rule sum_list_distinct_conv_sum_set) simp
  finally show ?thesis by simp
qed

lemma group_lengths: "(\<Sum>k \<in> f ` set xs. int (length (filter (\<lambda>x. f x = k) xs))) = int (length xs)"
proof -
  have "(\<Sum>k \<in> f ` set xs. length (filter (\<lambda>x. f x = k) xs)) = length xs"
    using sum_count_set [of "map f xs" "f ` set xs"] by (simp add: filter_count)
  then show ?thesis by (metis of_nat_sum)
qed

definition common :: "trace_span list \<Rightarrow> trace_span list \<Rightarrow> string option \<Rightarrow> int" where
  "common producers consumers m =
     min (int (length (with_message m producers))) (int (length (with_message m consumers)))"

lemma matched_length: "int (length (matched_messages producers consumers)) =
    (\<Sum>m \<in> ts_message_id ` set producers. common producers consumers m)"
proof -
  have "length (matched_messages producers consumers) =
      sum_list (map (\<lambda>(m, items). min (length items) (length (with_message m consumers)))
        (group_by ts_message_id producers))"
    by (simp add: matched_messages_def length_concat o_def split_def)
  then have "length (matched_messages producers consumers) = (\<Sum>m \<in> ts_message_id ` set producers.
      min (length (with_message m producers)) (length (with_message m consumers)))"
    by (simp add: group_by_sum with_message_def)
  then show ?thesis by (simp add: common_def flip: of_nat_min)
qed

lemma surplus_common: "surplus spans others =
    int (length spans) - (\<Sum>m \<in> ts_message_id ` set spans. common spans others m)"
proof -
  have "surplus spans others = (\<Sum>m \<in> ts_message_id ` set spans.
      int (length (with_message m spans)) - common spans others m)"
    unfolding surplus_def group_by_sum
    by (intro sum.cong) (auto simp: common_def with_message_def)
  then show ?thesis
    using group_lengths [of ts_message_id spans] by (simp add: sum_subtractf with_message_def)
qed

lemma common_sum_swap: "(\<Sum>m \<in> ts_message_id ` set spans. common spans others m) =
    (\<Sum>m \<in> ts_message_id ` set others. common others spans m)"
proof -
  have empty: "common a b m = 0" if "m \<notin> ts_message_id ` set a" for a b m
  proof -
    have "with_message m a = []" using that by (auto simp: with_message_def filter_empty_conv)
    then show ?thesis by (simp add: common_def)
  qed
  let ?K = "ts_message_id ` set spans \<union> ts_message_id ` set others"
  have "(\<Sum>m \<in> ts_message_id ` set spans. common spans others m) = (\<Sum>m \<in> ?K. common spans others m)"
    by (rule sum.mono_neutral_left) (auto simp: empty)
  also have "\<dots> = (\<Sum>m \<in> ?K. common others spans m)" by (simp add: common_def min.commute)
  also have "\<dots> = (\<Sum>m \<in> ts_message_id ` set others. common others spans m)"
    by (rule sum.mono_neutral_right) (auto simp: empty)
  finally show ?thesis .
qed

lemma conservation:
  fixes producers consumers :: "trace_span list"
  defines "m \<equiv> int (length (matched_messages producers consumers))"
  shows "surplus producers consumers + m = int (length producers)"
    and "surplus consumers producers + m = int (length consumers)"
  unfolding m_def
  by (simp_all add: surplus_common matched_length common_sum_swap [of producers consumers])

lemma count_out_of_order_bounds: "0 \<le> count_out_of_order h xs \<and> count_out_of_order h xs \<le> int (length xs)"
  by (induction xs arbitrary: h) (auto simp: add_increasing)

section \<open>The contract accepts what the harness measures\<close>

definition delivery_conserved :: "delivery_evaluation \<Rightarrow> bool" where
  "delivery_conserved ev \<longleftrightarrow>
     0 \<le> de_lost_count ev \<and> de_lost_count ev \<le> de_sent_count ev \<and> 0 \<le> de_duplicate_count ev \<and>
     de_received_count ev = de_sent_count ev - de_lost_count ev + de_duplicate_count ev \<and>
     0 \<le> de_out_of_order_count ev \<and>
     de_out_of_order_count ev \<le> de_sent_count ev - de_lost_count ev \<and>
     de_loss_ratio ev = expected_loss_ratio (de_lost_count ev) (de_sent_count ev)"

lemma surplus_nonneg: "0 \<le> surplus spans others"
  by (auto simp: surplus_def intro!: sum_list_nonneg)

lemma loss_ratio_expected:
  assumes "sent = 0 \<Longrightarrow> lost = 0"
  shows "delivery_loss_ratio lost sent = expected_loss_ratio lost (int sent)"
  by (simp add: delivery_loss_ratio_def expected_loss_ratio_def)

lemma measured_fields:
  assumes "measured_delivery delivery producers consumers s e outside = Inr ev"
  defines "matched \<equiv> matched_messages producers consumers"
  shows "de_sent_count ev = int (length producers)"
    and "de_received_count ev = int (length consumers)"
    and "de_lost_count ev = surplus producers consumers"
    and "de_duplicate_count ev = surplus consumers producers"
    and "de_out_of_order_count ev = count_out_of_order (- 1) (received_order producers matched)"
    and "de_loss_ratio ev = delivery_loss_ratio (surplus producers consumers) (length producers)"
  using assms(1) unfolding measured_delivery_def Let_def matched_def and_then_Inr
  by (elim exE conjE; auto)+

lemma measured_conserved:
  assumes "measured_delivery delivery producers consumers s e outside = Inr ev"
  shows "delivery_conserved ev"
proof -
  define matched where "matched = matched_messages producers consumers"
  note f = measured_fields [OF assms, folded matched_def]
  have c: "surplus producers consumers + int (length matched) = int (length producers)"
    "surplus consumers producers + int (length matched) = int (length consumers)"
    unfolding matched_def by (rule conservation)+
  have "length (received_order producers matched) = length matched"
    by (simp add: received_order_def)
  then have o: "0 \<le> de_out_of_order_count ev" "de_out_of_order_count ev \<le> int (length matched)"
    using count_out_of_order_bounds [of "- 1" "received_order producers matched"] by (simp_all add: f)
  have n: "0 \<le> surplus producers consumers" "0 \<le> surplus consumers producers"
    by (rule surplus_nonneg)+
  have "length producers = 0 \<Longrightarrow> surplus producers consumers = 0" using c n by linarith
  then have "de_loss_ratio ev = expected_loss_ratio (de_lost_count ev) (de_sent_count ev)"
    unfolding f by (rule loss_ratio_expected)
  moreover have "de_lost_count ev \<le> de_sent_count ev" "0 \<le> de_lost_count ev" "0 \<le> de_duplicate_count ev"
    "de_received_count ev = de_sent_count ev - de_lost_count ev + de_duplicate_count ev"
    "de_out_of_order_count ev \<le> de_sent_count ev - de_lost_count ev"
    using c n o by (simp_all add: f)
  ultimately show ?thesis using o by (simp add: delivery_conserved_def)
qed

lemma delivery_cases:
  assumes "evaluate_channel_delivery contract spans = Inr ev"
  obtains (none) "ev = no_spans_observed"
  | (invalid) producers consumers s e where "ev = invalid_delivery producers consumers s e"
  | (measured) producers consumers s e outside
    where "measured_delivery (ch_delivery contract) producers consumers s e outside = Inr ev"
proof -
  obtain P C where p: "channel_spans contract spans = (P, C)" by force
  show ?thesis
  proof (cases "P = [] \<and> C = []")
    case True
    with assms p none show ?thesis by (simp add: evaluate_channel_delivery_def)
  next
    case False
    define s where "s = window_start_of P C"
    define e where "e = s + seconds_to_ns (observation_window_sec (ch_delivery contract))"
    define ps where "ps = filter (inside_window s e) P"
    define cs where "cs = filter (inside_window s e) C"
    define outside where "outside = (\<exists>x \<in> set (P @ C). ts_start x < s \<or> e < ts_end x)"
    have "(if \<exists>x \<in> set (ps @ cs). ts_message_id x = None then Inr (invalid_delivery ps cs s e)
        else measured_delivery (ch_delivery contract) ps cs s e outside) = Inr ev"
      using assms unfolding evaluate_channel_delivery_def p prod.case if_not_P [OF False] Let_def
        s_def e_def ps_def cs_def outside_def by assumption
    then show ?thesis
      using invalid measured by (cases "\<exists>x \<in> set (ps @ cs). ts_message_id x = None") (simp_all only: if_True if_False sum.inject, metis+)
  qed
qed

lemma evaluated_conserved:
  assumes "evaluate_channel_delivery contract spans = Inr ev"
  shows "delivery_conserved ev"
  using assms
proof (cases rule: delivery_cases)
  case none
  then show ?thesis by (simp add: delivery_conserved_def no_spans_observed_def expected_loss_ratio_def)
next
  case (invalid producers consumers s e)
  then show ?thesis by (simp add: delivery_conserved_def invalid_delivery_def delivery_loss_ratio_def
        expected_loss_ratio_def)
next
  case (measured producers consumers s e outside)
  then show ?thesis by (rule measured_conserved)
qed

lemma passed_has_messages:
  assumes "evaluate_channel_delivery contract spans = Inr ev"
    and "1 \<le> minimum_source_messages (ch_delivery contract)" and "de_status ev = Passed"
  shows "de_sent_count ev \<noteq> 0"
  using assms(1)
proof (cases rule: delivery_cases)
  case none
  with assms(3) show ?thesis by (simp add: no_spans_observed_def)
next
  case (invalid producers consumers s e)
  with assms(3) show ?thesis by (simp add: invalid_delivery_def)
next
  case (measured producers consumers s e outside)
  obtain derived reported further where d: "derived_list (derived - set reported) = Inr further"
    "de_status ev = channel_observation_status (set (reported @ further))"
    "Insufficient_messages \<in> derived \<longleftrightarrow> \<not> minimum_source_messages (ch_delivery contract) \<le> de_sent_count ev \<or>
       Insufficient_messages \<in> set reported \<inter> CHANNEL_ERROR_VIOLATIONS"
    using measured
    by (auto simp: measured_delivery_def Let_def derive_channel_violations_def)
  from d(2) assms(3) have "channel_observation_status (set (reported @ further)) = Passed" by simp
  then have "set (reported @ further) = {}" by (simp only: status_Passed_iff)
  then have "reported = []" "further = []" by auto
  with d(1) have "Insufficient_messages \<notin> derived"
    by (auto simp: derived_list_def MESSAGE_CODES_def filter_empty_conv split: if_splits)
  with d(3) assms(2) show ?thesis by auto
qed

text \<open>The observation document of an evaluation, with the text of its two instants.\<close>

definition observation_document :: "string \<Rightarrow> string \<Rightarrow> delivery_evaluation \<Rightarrow> channel_observation" where
  "observation_document started finished ev =
     \<lparr>co_started_at = started, co_finished_at = finished, co_sent_count = de_sent_count ev,
      co_received_count = de_received_count ev, co_lost_count = de_lost_count ev,
      co_duplicate_count = de_duplicate_count ev, co_out_of_order_count = de_out_of_order_count ev,
      co_loss_ratio = de_loss_ratio ev, co_status = de_status ev\<rparr>"




section \<open>A window that rounds up\<close>

text \<open>Every span carries a message and lies in the window.\<close>

definition fully_observed :: "channel_contract \<Rightarrow> span_set \<Rightarrow> bool" where
  "fully_observed contract spans = (case channel_spans contract spans of (ps, cs) \<Rightarrow>
     let s = window_start_of ps cs;
         e = s + seconds_to_ns (observation_window_sec (ch_delivery contract))
     in ps @ cs \<noteq> [] \<and>
        (\<forall>x \<in> set (ps @ cs). inside_window s e x \<and> ts_message_id x \<noteq> None))"

lemma derive_window_exceeded: "Observation_window_exceeded \<in> derive_channel_violations d c reported \<longleftrightarrow>
    observation_window_sec d < observation_duration_sec c \<or>
    Observation_window_exceeded \<in> set reported \<inter> CHANNEL_ERROR_VIOLATIONS"
  by (auto simp: derive_channel_violations_def Let_def)

lemma measured_raises:
  assumes "e = s + seconds_to_ns (observation_window_sec delivery)"
    and "observation_window_sec delivery <
      fl (of_int (seconds_to_ns (observation_window_sec delivery)) / 1000000000)"
  shows "measured_delivery delivery producers consumers s e False =
    Inl (No_message_for Observation_window_exceeded)"
proof -
  define reported where
    "reported = reported_codes False producers (message_ages (matched_messages producers consumers))"
  have "Observation_window_exceeded \<notin> set reported" by (simp add: reported_def reported_codes_def)
  moreover have "Observation_window_exceeded \<in> derive_channel_violations delivery c reported"
    if "observation_duration_sec c = fl (of_int (e - s) / 1000000000)" for c
    using assms that by (simp add: derive_window_exceeded)
  ultimately show ?thesis
    by (simp add: measured_delivery_def Let_def derived_list_def flip: reported_def)
qed

text \<open>
  C35: The duration of the window is computed back from the nanoseconds its declared seconds were
  truncated to; when that floating-point quotient rounds above the declared window, the harness
  raises a \<open>KeyError\<close> on every channel, however small, whose spans all lie in the window.
\<close>

theorem window_rounding_raises:
  assumes "fully_observed contract spans"
    and "observation_window_sec (ch_delivery contract) <
      fl (of_int (seconds_to_ns (observation_window_sec (ch_delivery contract))) / 1000000000)"
  shows "evaluate_channel_delivery contract spans = Inl (No_message_for Observation_window_exceeded)"
proof -
  obtain P C where p: "channel_spans contract spans = (P, C)" by force
  define s where "s = window_start_of P C"
  define e where "e = s + seconds_to_ns (observation_window_sec (ch_delivery contract))"
  have ok: "P @ C \<noteq> []" "\<And>x. x \<in> set (P @ C) \<Longrightarrow> inside_window s e x \<and> ts_message_id x \<noteq> None"
    using assms(1) by (auto simp: fully_observed_def p Let_def s_def e_def)
  then have inside: "filter (inside_window s e) P = P" "filter (inside_window s e) C = C"
    by simp_all
  have outside: "\<not> (\<exists>x \<in> set (P @ C). ts_start x < s \<or> e < ts_end x)"
    using ok(2) by (fastforce simp: inside_window_def)
  have known: "\<not> (\<exists>x \<in> set (P @ C). ts_message_id x = None)" using ok(2) by blast
  have "evaluate_channel_delivery contract spans =
      measured_delivery (ch_delivery contract) P C s e False"
  proof -
    have ne: "\<not> (P = [] \<and> C = [])" using ok(1) by simp
    show ?thesis
      unfolding evaluate_channel_delivery_def p prod.case Let_def s_def [symmetric] e_def [symmetric]
        inside if_not_P [OF ne] if_not_P [OF known] using outside by (simp only:)
  qed
  also have "\<dots> = Inl (No_message_for Observation_window_exceeded)"
    by (rule measured_raises [OF e_def assms(2)])
  finally show ?thesis .
qed

definition rounding_contract :: channel_contract where
  "rounding_contract = example_contract ''a'' ''b''
     \<lparr>ch_delivery := ch_delivery (example_contract ''a'' ''b'')
        \<lparr>observation_window_sec := 1630560431770667 / 17592186044416\<rparr>\<rparr>"

theorem window_rounding_raises_witness:
  "evaluate_channel_delivery rounding_contract example_spans =
     Inl (No_message_for Observation_window_exceeded)"
proof (rule window_rounding_raises)
  show "fully_observed rounding_contract example_spans" by code_simp
  show "observation_window_sec (ch_delivery rounding_contract) <
      fl (of_int (seconds_to_ns (observation_window_sec (ch_delivery rounding_contract))) / 1000000000)"
    by code_simp
qed

end
