(* ===== verification/Otlp_Traces.thy ===== *)
theory Otlp_Traces
  imports Otlp_Messages Trace_Chains
begin

text \<open>
  The trace loader (harness/traces.py, \<open>load_otlp_json_traces\<close>): one OTLP request per line, its
  hexadecimal identifiers rewritten for the protobuf JSON parser, and every span checked before
  it becomes a \<open>TraceSpan\<close>. \<open>json.loads\<close> and the protobuf parser are the arguments \<open>parse_json\<close>
  and \<open>protobuf\<close>. The theorem is the type of the result: what the chain search and the
  delivery measurement may rely on.
\<close>

section \<open>Identifiers\<close>

datatype identifier_field = Trace_id | Span_id | Parent_span_id

fun identifier_length :: "identifier_field \<Rightarrow> nat" where
  "identifier_length Trace_id = 16"
| "identifier_length Span_id = 8"
| "identifier_length Parent_span_id = 8"

definition identifier_field_of :: "string \<Rightarrow> identifier_field option" where
  "identifier_field_of key =
     (if key = ''traceId'' then Some Trace_id
      else if key = ''spanId'' then Some Span_id
      else if key = ''parentSpanId'' then Some Parent_span_id else None)"

definition hex_digit :: "char \<Rightarrow> nat option" where
  "hex_digit c = (let n = of_char c :: nat in
     if 48 \<le> n \<and> n \<le> 57 then Some (n - 48)
     else if 97 \<le> n \<and> n \<le> 102 then Some (n - 87)
     else if 65 \<le> n \<and> n \<le> 70 then Some (n - 55) else None)"

text \<open>\<open>bytes.fromhex\<close>: pairs of digits, with ASCII white space allowed between the pairs.\<close>

definition hex_space :: "char \<Rightarrow> bool" where
  "hex_space c \<longleftrightarrow> (let n = of_char c :: nat in (9 \<le> n \<and> n \<le> 13) \<or> n = 32)"

fun bytes_fromhex :: "string \<Rightarrow> nat list option" where
  "bytes_fromhex [] = Some []"
| "bytes_fromhex [c] = (if hex_space c then Some [] else None)"
| "bytes_fromhex (a # b # cs) =
     (if hex_space a then bytes_fromhex (b # cs)
      else case (hex_digit a, hex_digit b) of
        (Some x, Some y) \<Rightarrow> map_option (\<lambda>bs. (16 * x + y) # bs) (bytes_fromhex cs)
      | _ \<Rightarrow> None)"

definition hex_char :: "nat \<Rightarrow> char" where
  "hex_char n = char_of (if n < 10 then n + 48 else n + 87)"

definition hex :: "nat list \<Rightarrow> string" where
  "hex bs = concat (map (\<lambda>b. [hex_char (b div 16), hex_char (b mod 16)]) bs)"

definition base64_char :: "nat \<Rightarrow> char" where
  "base64_char n =
     (if n < 26 then char_of (n + 65) else if n < 52 then char_of (n + 71)
      else if n < 62 then char_of (n - 4) else if n = 62 then CHR ''+'' else CHR ''/'')"

fun b64encode :: "nat list \<Rightarrow> string" where
  "b64encode [] = []"
| "b64encode [a] = [base64_char (a div 4), base64_char (a mod 4 * 16), CHR ''='', CHR ''='']"
| "b64encode [a, b] =
     [base64_char (a div 4), base64_char (a mod 4 * 16 + b div 16), base64_char (b mod 16 * 4), CHR ''='']"
| "b64encode (a # b # c # bs) =
     base64_char (a div 4) # base64_char (a mod 4 * 16 + b div 16)
       # base64_char (b mod 16 * 4 + c div 64) # base64_char (c mod 64) # b64encode bs"

datatype trace_input_error =
    Unreadable read_error
  | Identifier_not_text
  | Identifier_not_hexadecimal
  | Identifier_length
  | Invalid_otlp_json nat
  | Dropped_trace_data
  | Attribute_missing string
  | Span_of_another_run
  | Invalid_trace_id
  | Invalid_span_id
  | Span_ends_before_start
  | Span_repeated string
  | Invalid_span_link
  | No_spans

definition protobuf_identifier :: "identifier_field \<Rightarrow> json \<Rightarrow> trace_input_error + string" where
  "protobuf_identifier field v =
     (case v of
        JStr s \<Rightarrow>
          if s = [] \<and> field = Parent_span_id then Inr []
          else (case bytes_fromhex s of
            None \<Rightarrow> Inl Identifier_not_hexadecimal
          | Some bs \<Rightarrow> if length bs \<noteq> identifier_length field then Inl Identifier_length
                       else Inr (b64encode bs))
      | _ \<Rightarrow> Inl Identifier_not_text)"

fun normalize_otlp_json :: "json \<Rightarrow> trace_input_error + json"
  and normalize_items :: "json list \<Rightarrow> trace_input_error + json list"
  and normalize_members :: "members \<Rightarrow> trace_input_error + members" where
  "normalize_otlp_json (JArr xs) = and_then (normalize_items xs) (\<lambda>ys. Inr (JArr ys))"
| "normalize_otlp_json (JObj ms) = and_then (normalize_members ms) (\<lambda>ns. Inr (JObj ns))"
| "normalize_otlp_json v = Inr v"
| "normalize_items [] = Inr []"
| "normalize_items (x # xs) =
     and_then (normalize_otlp_json x) (\<lambda>y. and_then (normalize_items xs) (\<lambda>ys. Inr (y # ys)))"
| "normalize_members [] = Inr []"
| "normalize_members ((key, item) # ms) =
     and_then (case identifier_field_of key of
         Some field \<Rightarrow> and_then (protobuf_identifier field item) (\<lambda>s. Inr (JStr s))
       | None \<Rightarrow> normalize_otlp_json item)
       (\<lambda>v. and_then (normalize_members ms) (\<lambda>ns. Inr ((key, v) # ns)))"

lemma normalize_members_keys: "normalize_members ms = Inr ns \<Longrightarrow> map fst ns = map fst ms"
  by (induction ms arbitrary: ns) auto

section \<open>The parsed request\<close>

record pb_link =
  pl_trace_id :: "nat list"
  pl_span_id :: "nat list"
  pl_attributes :: "key_value list"

record pb_span =
  pp_trace_id :: "nat list"
  pp_span_id :: "nat list"
  pp_parent_span_id :: "nat list"
  pp_name :: string
  pp_start :: int
  pp_end :: int
  pp_attributes :: "key_value list"
  pp_links :: "pb_link list"
  pp_dropped_attributes :: int
  pp_dropped_events :: int
  pp_dropped_links :: int

record pb_scope_spans =
  pc_attributes :: "key_value list"
  pc_spans :: "pb_span list"

record pb_resource_spans =
  pr_attributes :: "key_value list"
  pr_scopes :: "pb_scope_spans list"

type_synonym trace_request = "pb_resource_spans list"

section \<open>One span\<close>

definition text_attribute :: "attributes \<Rightarrow> string \<Rightarrow> trace_input_error + string option" where
  "text_attribute attributes name =
     (case map_of attributes name of
        None \<Rightarrow> Inr None
      | Some (AStr (c # cs)) \<Rightarrow> Inr (Some (c # cs))
      | Some _ \<Rightarrow> Inl (Attribute_missing name))"

definition required_attribute :: "attributes \<Rightarrow> string \<Rightarrow> trace_input_error + string" where
  "required_attribute attributes name =
     and_then (text_attribute attributes name) (\<lambda>v.
       case v of None \<Rightarrow> Inl (Attribute_missing name) | Some s \<Rightarrow> Inr s)"

definition MESSAGE_ID_ATTRIBUTE :: string where
  "MESSAGE_ID_ATTRIBUTE = ''messaging.message.id''"

definition DESTINATION_ATTRIBUTE :: string where
  "DESTINATION_ATTRIBUTE = ''messaging.destination.name''"

definition valid_trace_id :: "string \<Rightarrow> bool" where
  "valid_trace_id s \<longleftrightarrow> \<not> (length s \<noteq> 32 \<or> s = replicate 32 CHR ''0'')"

definition valid_span_id :: "string \<Rightarrow> bool" where
  "valid_span_id s \<longleftrightarrow> \<not> (length s \<noteq> 16 \<or> s = replicate 16 CHR ''0'')"

definition load_link :: "pb_link \<Rightarrow> trace_input_error + trace_link" where
  "load_link l =
     (let trace_id = hex (pl_trace_id l); span_id = hex (pl_span_id l) in
      checked (require (valid_trace_id trace_id \<and> valid_span_id span_id) Invalid_span_link)
      (and_then (text_attribute (otlp_attributes (pl_attributes l)) MESSAGE_ID_ATTRIBUTE) (\<lambda>m.
         Inr \<lparr>tl_trace_id = trace_id, tl_span_id = span_id, tl_message_id = m\<rparr>)))"

definition load_span ::
  "string \<Rightarrow> string \<Rightarrow> trace_span_key list \<Rightarrow> attributes \<Rightarrow> pb_span \<Rightarrow> trace_input_error + trace_span" where
  "load_span run domain seen scope_attributes s =
     (let attributes = dict_update scope_attributes (otlp_attributes (pp_attributes s));
          trace_id = hex (pp_trace_id s); span_id = hex (pp_span_id s) in
      checked (require (pp_dropped_attributes s = 0 \<and> pp_dropped_events s = 0 \<and> pp_dropped_links s = 0)
        Dropped_trace_data)
      (and_then (required_attribute attributes ''run.id'') (\<lambda>run_id.
       and_then (required_attribute attributes ''domain.id'') (\<lambda>domain_id.
       checked (first_error
         [require (\<not> (run_id \<noteq> run \<or> domain_id \<noteq> domain)) Span_of_another_run,
          require (valid_trace_id trace_id) Invalid_trace_id,
          require (valid_span_id span_id) Invalid_span_id,
          require (\<not> pp_end s < pp_start s) Span_ends_before_start,
          require ((trace_id, span_id) \<notin> set seen) (Span_repeated span_id)])
       (and_then (map_res load_link (pp_links s)) (\<lambda>links.
        and_then (text_attribute attributes MESSAGE_ID_ATTRIBUTE) (\<lambda>message_id.
        and_then (text_attribute attributes DESTINATION_ATTRIBUTE) (\<lambda>destination.
          Inr \<lparr>ts_trace_id = trace_id, ts_span_id = span_id,
            ts_parent_span_id = hex (pp_parent_span_id s), ts_name = pp_name s, ts_run_id = run_id,
            ts_domain_id = domain_id, ts_message_id = message_id, ts_start = pp_start s,
            ts_end = pp_end s, ts_links = links, ts_destination = destination\<rparr>))))))))"

section \<open>The file\<close>

text \<open>The spans of a request in the order of the nested loops, with their scope attributes.\<close>

definition request_spans :: "trace_request \<Rightarrow> (attributes \<times> pb_span) list" where
  "request_spans request = concat (map (\<lambda>r. concat (map (\<lambda>c.
     map (Pair (dict_update (otlp_attributes (pr_attributes r)) (otlp_attributes (pc_attributes c))))
       (pc_spans c)) (pr_scopes r))) request)"

text \<open>The identities seen so far are those of the spans loaded so far.\<close>

fun load_spans ::
  "string \<Rightarrow> string \<Rightarrow> trace_span list \<Rightarrow> (attributes \<times> pb_span) list \<Rightarrow> trace_input_error + trace_span list" where
  "load_spans run domain loaded [] = Inr loaded"
| "load_spans run domain loaded ((attributes, s) # rest) =
     and_then (load_span run domain (map trace_span_key loaded) attributes s)
       (\<lambda>t. load_spans run domain (loaded @ [t]) rest)"

definition parse_line ::
  "(string \<Rightarrow> json option) \<Rightarrow> ('d, trace_request) protobuf \<Rightarrow> nat \<Rightarrow> string
    \<Rightarrow> trace_input_error + trace_request" where
  "parse_line parse_json protobuf n line =
     (case parse_json line of
        None \<Rightarrow> Inl (Invalid_otlp_json n)
      | Some payload \<Rightarrow> (case normalize_otlp_json payload of
          Inl _ \<Rightarrow> Inl (Invalid_otlp_json n)
        | Inr document \<Rightarrow> (case parse_otlp_request protobuf document of
            None \<Rightarrow> Inl (Invalid_otlp_json n)
          | Some request \<Rightarrow> Inr request)))"

fun load_lines ::
  "(string \<Rightarrow> json option) \<Rightarrow> ('d, trace_request) protobuf \<Rightarrow> string \<Rightarrow> string \<Rightarrow> nat
    \<Rightarrow> trace_span list \<Rightarrow> string list \<Rightarrow> trace_input_error + trace_span list" where
  "load_lines parse_json protobuf run domain n loaded [] = Inr loaded"
| "load_lines parse_json protobuf run domain n loaded (line # rest) =
     (if blank line then load_lines parse_json protobuf run domain (Suc n) loaded rest
      else and_then (parse_line parse_json protobuf n line) (\<lambda>request.
        and_then (load_spans run domain loaded (request_spans request)) (\<lambda>spans.
          load_lines parse_json protobuf run domain (Suc n) spans rest)))"

definition load_otlp_traces ::
  "(string \<Rightarrow> json option) \<Rightarrow> ('d, trace_request) protobuf \<Rightarrow> string \<Rightarrow> string \<Rightarrow> string list
    \<Rightarrow> trace_input_error + trace_span list" where
  "load_otlp_traces parse_json protobuf run domain lines =
     and_then (load_lines parse_json protobuf run domain 1 [] lines) (\<lambda>spans.
       checked (require (spans \<noteq> []) No_spans) (Inr spans))"

definition load_otlp_json_traces ::
  "(nat list \<Rightarrow> string) \<Rightarrow> (nat list \<Rightarrow> string list option) \<Rightarrow> (string \<Rightarrow> json option)
    \<Rightarrow> ('d, trace_request) protobuf \<Rightarrow> string \<Rightarrow> string \<Rightarrow> string option \<Rightarrow> int option \<Rightarrow> file_read
    \<Rightarrow> trace_input_error + trace_span list" where
  "load_otlp_json_traces digest decode parse_json protobuf run domain expected budget f =
     (case read_otlp_json_lines digest decode budget expected f of
        Inl e \<Rightarrow> Inl (Unreadable e)
      | Inr lines \<Rightarrow> load_otlp_traces parse_json protobuf run domain lines)"

section \<open>The type of a loaded span\<close>

definition link_ok :: "trace_link \<Rightarrow> bool" where
  "link_ok l \<longleftrightarrow> valid_trace_id (tl_trace_id l) \<and> valid_span_id (tl_span_id l) \<and>
     tl_message_id l \<noteq> Some []"

definition span_ok :: "string \<Rightarrow> string \<Rightarrow> trace_span \<Rightarrow> bool" where
  "span_ok run domain s \<longleftrightarrow> ts_run_id s = run \<and> ts_domain_id s = domain \<and>
     valid_trace_id (ts_trace_id s) \<and> valid_span_id (ts_span_id s) \<and> ts_start s \<le> ts_end s \<and>
     ts_message_id s \<noteq> Some [] \<and> ts_destination s \<noteq> Some [] \<and> (\<forall>l \<in> set (ts_links s). link_ok l)"

definition spans_ok :: "string \<Rightarrow> string \<Rightarrow> trace_span list \<Rightarrow> bool" where
  "spans_ok run domain spans \<longleftrightarrow>
     distinct (map trace_span_key spans) \<and> (\<forall>s \<in> set spans. span_ok run domain s)"

lemma text_attribute_nonempty: "text_attribute a n = Inr v \<Longrightarrow> v \<noteq> Some []"
  by (auto simp: text_attribute_def split: option.splits attribute.splits list.splits)

lemma load_link_ok: "load_link p = Inr l \<Longrightarrow> link_ok l"
  using text_attribute_nonempty by (fastforce simp: load_link_def Let_def checked_Inr link_ok_def)

lemma load_links_ok: "map_res load_link ps = Inr ls \<Longrightarrow> \<forall>l \<in> set ls. link_ok l"
  using map_res_member [of load_link ps ls] load_link_ok by blast

lemma load_span_ok:
  assumes "load_span run domain seen attributes p = Inr s"
  shows "span_ok run domain s" "trace_span_key s \<notin> set seen"
    "ts_name s = pp_name p" "ts_start s = pp_start p" "ts_end s = pp_end p"
  using assms text_attribute_nonempty load_links_ok
  by (auto simp: load_span_def Let_def checked_Inr span_ok_def trace_span_key_def not_less)

lemma load_spans_ok:
  assumes "load_spans run domain loaded items = Inr spans" and "spans_ok run domain loaded"
  shows "spans_ok run domain spans \<and>
     map ts_name spans = map ts_name loaded @ map (pp_name \<circ> snd) items"
  using assms
proof (induction run domain loaded items rule: load_spans.induct)
  case (2 run domain loaded attributes p rest)
  then obtain t where t: "load_span run domain (map trace_span_key loaded) attributes p = Inr t"
    and rest: "load_spans run domain (loaded @ [t]) rest = Inr spans" by auto
  from load_span_ok [OF t] 2(3) have "spans_ok run domain (loaded @ [t])"
    by (auto simp: spans_ok_def)
  from 2(1) [OF rest this] load_span_ok(3) [OF t] show ?case by simp
qed simp

lemma load_lines_ok:
  assumes "load_lines pj pr run domain n loaded lines = Inr spans" and "spans_ok run domain loaded"
  shows "spans_ok run domain spans"
  using assms
proof (induction lines arbitrary: n loaded)
  case (Cons line rest)
  show ?case
  proof (cases "blank line")
    case True
    with Cons show ?thesis by (auto intro: Cons.IH)
  next
    case False
    with Cons.prems obtain request more where
      "load_spans run domain loaded (request_spans request) = Inr more"
      "load_lines pj pr run domain (Suc n) more rest = Inr spans" by auto
    with load_spans_ok [OF this(1) Cons.prems(2)] Cons.IH show ?thesis by blast
  qed
qed simp

lemma loaded_spans_ok:
  assumes "load_otlp_traces pj pr run domain lines = Inr spans"
  shows "spans \<noteq> []" "spans_ok run domain spans"
proof -
  from assms have "load_lines pj pr run domain 1 [] lines = Inr spans" and ne: "spans \<noteq> []"
    by (auto simp: load_otlp_traces_def checked_Inr)
  with load_lines_ok [OF this(1)] show "spans_ok run domain spans" by (simp add: spans_ok_def)
  from ne show "spans \<noteq> []" .
qed

section \<open>No span is lost\<close>

definition parsed_requests ::
  "(string \<Rightarrow> json option) \<Rightarrow> ('d, trace_request) protobuf \<Rightarrow> string list \<Rightarrow> trace_request list \<Rightarrow> bool"
where
  "parsed_requests pj pr lines requests \<longleftrightarrow>
     list_all2 (\<lambda>line request. \<exists>n. parse_line pj pr n line = Inr request)
       (filter (\<lambda>line. \<not> blank line) lines) requests"

lemma load_lines_names:
  assumes "load_lines pj pr run domain n loaded lines = Inr spans" and "spans_ok run domain loaded"
  shows "\<exists>requests. parsed_requests pj pr lines requests \<and>
     map ts_name spans = map ts_name loaded @ map (pp_name \<circ> snd) (concat (map request_spans requests))"
  using assms
proof (induction lines arbitrary: n loaded)
  case (Cons line rest)
  show ?case
  proof (cases "blank line")
    case True
    with Cons show ?thesis by (simp add: parsed_requests_def)
  next
    case False
    with Cons.prems(1) obtain request more where r: "parse_line pj pr n line = Inr request"
      "load_spans run domain loaded (request_spans request) = Inr more"
      "load_lines pj pr run domain (Suc n) more rest = Inr spans" by auto
    note more = load_spans_ok [OF r(2) Cons.prems(2)]
    from Cons.IH [OF r(3)] more obtain requests where "parsed_requests pj pr rest requests"
      "map ts_name spans = map ts_name more @ map (pp_name \<circ> snd) (concat (map request_spans requests))"
      by blast
    with False r(1) more show ?thesis
      by (intro exI [of _ "request # requests"]) (auto simp: parsed_requests_def)
  qed
qed (simp add: parsed_requests_def)

text \<open>
  C39: What the trace loader returns is well formed: there is at least one span, no span identity
  occurs twice, and every span belongs to the expected run and domain, has valid non-zero trace
  and span identifiers, does not end before it starts, and names no empty message id or
  destination; its links are valid as well. The result holds one span for each span of each
  request in the file, in order, and the file has the declared digest.
\<close>

theorem loaded_traces_typed:
  assumes "load_otlp_json_traces digest decode pj pr run domain (Some d) budget f = Inr spans"
  shows "spans \<noteq> [] \<and> distinct (map trace_span_key spans) \<and> (\<forall>s \<in> set spans. span_ok run domain s) \<and>
     digest (fr_content f) = d \<and>
     (\<exists>lines requests. decode (fr_content f) = Some lines \<and> parsed_requests pj pr lines requests \<and>
        map ts_name spans = map (pp_name \<circ> snd) (concat (map request_spans requests)))"
proof -
  from assms obtain lines where read: "read_otlp_json_lines digest decode budget (Some d) f = Inr lines"
    and load: "load_otlp_traces pj pr run domain lines = Inr spans"
    by (auto simp: load_otlp_json_traces_def split: sum.splits)
  from load have "load_lines pj pr run domain 1 [] lines = Inr spans"
    by (auto simp: load_otlp_traces_def checked_Inr)
  from load_lines_names [OF this] obtain requests where
    "parsed_requests pj pr lines requests"
    "map ts_name spans = map (pp_name \<circ> snd) (concat (map request_spans requests))"
    by (auto simp: spans_ok_def)
  with loaded_spans_ok [OF load] lines_of_whole_file(1,4) [OF read] show ?thesis
    by (auto simp: spans_ok_def)
qed

definition example_pb_span :: pb_span where
  "example_pb_span = \<lparr>pp_trace_id = replicate 16 17, pp_span_id = replicate 8 34, pp_parent_span_id = [],
     pp_name = ''send'', pp_start = 1, pp_end = 2,
     pp_attributes = [\<lparr>kv_key = ''run.id'', kv_value = String_value ''r''\<rparr>], pp_links = [],
     pp_dropped_attributes = 0, pp_dropped_events = 0, pp_dropped_links = 0\<rparr>"

definition example_trace_request :: trace_request where
  "example_trace_request = [\<lparr>pr_attributes = [\<lparr>kv_key = ''domain.id'', kv_value = String_value ''d''\<rparr>],
     pr_scopes = [\<lparr>pc_attributes = [], pc_spans = [example_pb_span]\<rparr>]\<rparr>]"

definition example_protobuf :: "(unit, trace_request) protobuf" where
  "example_protobuf = \<lparr>pb_fields = \<lambda>_ _. None, pb_descriptor = (),
     pb_parse = \<lambda>_. Some example_trace_request\<rparr>"

definition example_trace_file :: file_read where
  "example_trace_file = \<lparr>fr_before = (2, 0, 0), fr_content = [123, 125], fr_after = (2, 0, 0)\<rparr>"

definition example_loaded_spans :: "trace_span list" where
  "example_loaded_spans = [\<lparr>ts_trace_id = replicate 32 CHR ''1'', ts_span_id = replicate 16 CHR ''2'',
     ts_parent_span_id = [], ts_name = ''send'', ts_run_id = ''r'', ts_domain_id = ''d'',
     ts_message_id = None, ts_start = 1, ts_end = 2, ts_links = [], ts_destination = None\<rparr>]"

lemma example_traces_loaded:
  "load_otlp_json_traces (\<lambda>_. ''h'') (\<lambda>_. Some [''{}'', '' '']) (\<lambda>_. Some (JObj []))
     example_protobuf ''r'' ''d'' (Some ''h'') None example_trace_file = Inr example_loaded_spans"
  by code_simp

theorem loaded_traces_typed_witness:
  "example_loaded_spans \<noteq> [] \<and> distinct (map trace_span_key example_loaded_spans)"
  using loaded_traces_typed [OF example_traces_loaded] by (simp only: simp_thms)

end
