(* ===== verification/Transport_Evaluation.thy ===== *)
theory Transport_Evaluation
  imports Channel_Delivery Otlp_Traces Timestamp_Text Sem_Transport
begin

text \<open>
  The evaluation of transport evidence (harness/aggregate.py,
  \<open>evaluate_transport_qualification\<close>): contracts resolved against each other, the traces of every
  domain loaded, clock relations bound to channel directions, every channel measured, every
  causal chain searched, and one verdict over all of them, written as a document that the
  contract validator checks. Documents, evidence indexes and files are what the loaders return;
  identifiers made by \<open>uuid4\<close> and the bytes of the written observations are not modelled.
\<close>

section \<open>Inputs\<close>

record loaded_channel =
  lt_contract :: Trace_Chains.channel_contract
  lt_sha256 :: string

record loaded_chain =
  lx_chain_id :: string
  lx_sha256 :: string
  lx_references :: "(string \<times> string) list"
  lx_required_domain_ids :: "string list"

record cross_clock_policy =
  xp_method :: clock_method
  xp_minimum_samples :: "int option"
  xp_maximum_absolute_skew_ms :: "rat option"

record loaded_relation =
  lr_relation_id :: string
  lr_sha256 :: string
  lr_run_id :: string
  lr_scenario_sha256 :: string
  lr_policy :: cross_clock_policy
  lr_reference :: clock_relation_reference
  lr_status :: outcome

record evidence_link =
  el_artifact_id :: string
  el_segment_index :: "int option"
  el_uri :: string
  el_media_type :: string
  el_sha256 :: string
  el_size_bytes :: int

text \<open>The verified evidence of one domain; \<open>dv_trace_link\<close> is \<open>local_files.get(trace_path)\<close>.\<close>

record domain_evidence =
  dv_index_sha256 :: string
  dv_links :: "evidence_link list"
  dv_trace_link :: "evidence_link option"

text \<open>The external readers of a trace file.\<close>

record 'd trace_reader =
  rd_digest :: "nat list \<Rightarrow> string"
  rd_decode :: "nat list \<Rightarrow> string list option"
  rd_json :: "string \<Rightarrow> json option"
  rd_protobuf :: "('d, trace_request) protobuf"

record 'd transport_inputs =
  ti_run_id :: string
  ti_scenario_sha256 :: string
  ti_native_scenario :: bool
  ti_clock_policy :: "cross_clock_policy option"
  ti_chains :: "loaded_chain list"
  ti_channels :: "loaded_channel list"
  ti_relations :: "loaded_relation list"
  ti_trace_domains :: "string list"
  ti_index_domains :: "string list"
  ti_indexes :: "string \<Rightarrow> domain_evidence option"
  ti_trace_files :: "string \<Rightarrow> file_read"
  ti_reader :: "'d trace_reader"
  ti_budget :: "int option"
  ti_evaluated_at :: int

datatype evaluation_error =
    Budget_invalid
  | Native_scenario
  | No_clock_policy
  | No_chain_contracts
  | Chain_contracts_repeated
  | Evidence_indexes_differ
  | Channel_contracts_repeated
  | Chain_reference_unresolved string
  | Chain_domains_differ string
  | Channel_outside_chains
  | Channel_outside_run string
  | Domains_not_traversed
  | Evidence_unverified string
  | Trace_not_verified string
  | Traces_rejected string trace_input_error
  | Trace_set_rejected trace_error
  | Relation_of_another_run
  | Relation_of_another_scenario
  | Relation_policy_differs
  | Relation_pair_unmatched
  | Relation_evidence_rejected clock_evidence_error
  | Delivery_raised string delivery_error
  | Observation_rejected string channel_error
  | Chain_raised trace_error
  | Hop_without_message
  | No_status
  | Result_rejected transport_error

section \<open>Contracts\<close>

definition contract_id :: "loaded_channel \<Rightarrow> string" where
  "contract_id c = ch_channel_id (lt_contract c)"

definition contract_domains :: "loaded_channel \<Rightarrow> string list" where
  "contract_domains c = [ch_source_domain_id (lt_contract c), ch_destination_domain_id (lt_contract c)]"

definition resolve_reference ::
  "loaded_channel list \<Rightarrow> loaded_chain \<Rightarrow> string \<times> string \<Rightarrow> evaluation_error + loaded_channel" where
  "resolve_reference channels chain r =
     (case dict_by contract_id channels (fst r) of
        None \<Rightarrow> Inl (Chain_reference_unresolved (lx_chain_id chain))
      | Some c \<Rightarrow> if lt_sha256 c \<noteq> snd r then Inl (Chain_reference_unresolved (lx_chain_id chain))
                  else Inr c)"

text \<open>\<open>chain_channels\<close>: each chain with its contracts in order.\<close>

definition resolve_chain ::
  "loaded_channel list \<Rightarrow> loaded_chain \<Rightarrow> evaluation_error + loaded_chain \<times> loaded_channel list" where
  "resolve_chain channels chain =
     and_then (map_res (resolve_reference channels chain) (lx_references chain)) (\<lambda>ordered.
       checked (require (set (lx_required_domain_ids chain) = (\<Union>c \<in> set ordered. set (contract_domains c)))
         (Chain_domains_differ (lx_chain_id chain)))
       (Inr (chain, ordered)))"

definition resolve_chains ::
  "'d transport_inputs \<Rightarrow> evaluation_error + (loaded_chain \<times> loaded_channel list) list" where
  "resolve_chains i =
     checked (first_error
       [require (case ti_budget i of None \<Rightarrow> True | Some b \<Rightarrow> \<not> b \<le> 0) Budget_invalid,
        require (\<not> ti_native_scenario i) Native_scenario,
        require (ti_clock_policy i \<noteq> None) No_clock_policy,
        require (ti_chains i \<noteq> []) No_chain_contracts,
        require (unique_by lx_chain_id (ti_chains i)) Chain_contracts_repeated,
        require (set (ti_index_domains i) = set (ti_trace_domains i)) Evidence_indexes_differ,
        require (unique_by contract_id (ti_channels i)) Channel_contracts_repeated])
     (and_then (map_res (resolve_chain (ti_channels i)) (ti_chains i)) (\<lambda>resolved.
        checked (first_error
          [require ((\<Union>(_, ordered) \<in> set resolved. contract_id ` set ordered)
                = contract_id ` set (ti_channels i)) Channel_outside_chains,
           each (\<lambda>_ c. require (set (contract_domains c) \<subseteq> set (ti_trace_domains i))
              (Channel_outside_run (contract_id c))) (ti_channels i),
           require ((\<Union>c \<in> set (ti_channels i). set (contract_domains c)) = set (ti_trace_domains i))
             Domains_not_traversed])
        (Inr resolved)))"

section \<open>Evidence of every domain\<close>

record trace_row =
  tw_domain_id :: string
  tw_evidence_index_sha256 :: string
  tw_link :: evidence_link

definition OTLP_JSON_LINES_MEDIA_TYPE :: string where
  "OTLP_JSON_LINES_MEDIA_TYPE = ''application/x-ndjson''"

definition trace_link_row :: "string \<Rightarrow> string \<Rightarrow> evidence_link \<Rightarrow> trace_row" where
  "trace_link_row domain index_sha256 link =
     \<lparr>tw_domain_id = domain, tw_evidence_index_sha256 = index_sha256, tw_link = link\<rparr>"

record domain_traces =
  dt_row :: trace_row
  dt_evidence :: domain_evidence
  dt_spans :: "trace_span list"

definition load_domain :: "'d transport_inputs \<Rightarrow> string \<Rightarrow> evaluation_error + domain_traces" where
  "load_domain i domain =
     (case ti_indexes i domain of
        None \<Rightarrow> Inl (Evidence_unverified domain)
      | Some verified \<Rightarrow> (case dv_trace_link verified of
          None \<Rightarrow> Inl (Trace_not_verified domain)
        | Some link \<Rightarrow>
            if el_media_type link \<noteq> OTLP_JSON_LINES_MEDIA_TYPE then Inl (Trace_not_verified domain)
            else (let rd = ti_reader i in
              case load_otlp_json_traces (rd_digest rd) (rd_decode rd) (rd_json rd) (rd_protobuf rd)
                     (ti_run_id i) domain (Some (el_sha256 link)) (ti_budget i) (ti_trace_files i domain) of
                Inl e \<Rightarrow> Inl (Traces_rejected domain e)
              | Inr spans \<Rightarrow> Inr \<lparr>dt_row = trace_link_row domain (dv_index_sha256 verified) link,
                  dt_evidence = verified, dt_spans = spans\<rparr>)))"

definition load_domains :: "'d transport_inputs \<Rightarrow> evaluation_error + domain_traces list" where
  "load_domains i = map_res (load_domain i) (sort (ti_trace_domains i))"

definition spans_by_domain :: "domain_traces list \<Rightarrow> span_set" where
  "spans_by_domain domains = map (\<lambda>d. (tw_domain_id (dt_row d), dt_spans d)) domains"

definition evidence_sha256_by_domain :: "domain_traces list \<Rightarrow> (string \<times> string list) list" where
  "evidence_sha256_by_domain domains =
     map (\<lambda>d. (tw_domain_id (dt_row d), map el_sha256 (dv_links (dt_evidence d)))) domains"

definition check_trace_set :: "loaded_channel list \<Rightarrow> span_set \<Rightarrow> evaluation_error option" where
  "check_trace_set channels spans =
     map_option Trace_set_rejected (first_error
       [validate_trace_set spans, require_attributable_channels (map lt_contract channels) spans])"

section \<open>Clock relations\<close>

definition channel_pair :: "loaded_channel \<Rightarrow> string \<times> string" where
  "channel_pair c = (ch_source_domain_id (lt_contract c), ch_destination_domain_id (lt_contract c))"

definition loaded_relation_pair :: "loaded_relation \<Rightarrow> string \<times> string" where
  "loaded_relation_pair r =
     (relation_source_domain_id (lr_reference r), relation_destination_domain_id (lr_reference r))"

definition clock_row_of :: "loaded_relation \<Rightarrow> clock_row" where
  "clock_row_of r = \<lparr>ck_relation_id = lr_relation_id r,
     ck_source_domain_id = relation_source_domain_id (lr_reference r),
     ck_destination_domain_id = relation_destination_domain_id (lr_reference r),
     ck_status = lr_status r\<rparr>"

fun check_relations ::
  "'d transport_inputs \<Rightarrow> (string \<times> string list) list \<Rightarrow> (string \<times> string) list \<Rightarrow> loaded_relation list
    \<Rightarrow> evaluation_error option" where
  "check_relations i evidence observed [] = None"
| "check_relations i evidence observed (r # rs) = first_error
     [require (lr_run_id r = ti_run_id i) Relation_of_another_run,
      require (lr_scenario_sha256 r = ti_scenario_sha256 i) Relation_of_another_scenario,
      require (Some (lr_policy r) = ti_clock_policy i) Relation_policy_differs,
      require (\<not> (loaded_relation_pair r \<notin> channel_pair ` set (ti_channels i)
                  \<or> loaded_relation_pair r \<in> set observed)) Relation_pair_unmatched,
      map_option Relation_evidence_rejected (validate_clock_relation_evidence (lr_reference r) evidence),
      check_relations i evidence (loaded_relation_pair r # observed) rs]"

definition clock_statuses :: "'d transport_inputs \<Rightarrow> outcome list" where
  "clock_statuses i = map lr_status (ti_relations i) @
     (if loaded_relation_pair ` set (ti_relations i) \<noteq> channel_pair ` set (ti_channels i)
      then [Incomplete] else [])"

section \<open>Channel observations\<close>

text \<open>\<open>timedelta(seconds=w)\<close> in microseconds: the fraction is scaled and rounded half to even.\<close>

definition timedelta_us :: "rat \<Rightarrow> int" where
  "timedelta_us w = \<lfloor>w\<rfloor> * 1000000 + round_even (fl (1000000 * (w - of_int \<lfloor>w\<rfloor>)))"

definition observation_interval :: "int \<Rightarrow> rat \<Rightarrow> delivery_evaluation \<Rightarrow> int \<times> int" where
  "observation_interval evaluated_at window ev =
     (if de_started_at_ns ev \<noteq> 0
      then (utc_datetime_from_unix_ns (de_started_at_ns ev), utc_datetime_from_unix_ns (de_finished_at_ns ev))
      else (evaluated_at - timedelta_us window, evaluated_at))"

definition write_observation ::
  "loaded_channel \<Rightarrow> delivery_evaluation \<Rightarrow> int \<times> int \<Rightarrow> evaluation_error + observation_row" where
  "write_observation c ev interval =
     checked (map_option (Observation_rejected (contract_id c))
       (validate_transport_channel_observation (observation_document
         (format_utc_datetime (fst interval)) (format_utc_datetime (snd interval)) ev)))
     (Inr \<lparr>ob_channel_id = contract_id c, ob_status = de_status ev\<rparr>)"

definition observe_channel ::
  "int \<Rightarrow> span_set \<Rightarrow> loaded_channel \<Rightarrow> evaluation_error + observation_row" where
  "observe_channel evaluated_at spans c =
     (case evaluate_channel_delivery (lt_contract c) spans of
        Inl e \<Rightarrow> Inl (Delivery_raised (contract_id c) e)
      | Inr ev \<Rightarrow> write_observation c ev (observation_interval evaluated_at
          (observation_window_sec (ch_delivery (lt_contract c))) ev))"

definition observe_channels ::
  "'d transport_inputs \<Rightarrow> span_set \<Rightarrow> evaluation_error + observation_row list" where
  "observe_channels i spans =
     map_res (observe_channel (ti_evaluated_at i) spans) (sort_key contract_id (ti_channels i))"

section \<open>Causal chains\<close>

definition reference_of_span :: "trace_span \<Rightarrow> evaluation_error + span_reference" where
  "reference_of_span s =
     (case ts_message_id s of
        None \<Rightarrow> Inl Hop_without_message
      | Some m \<Rightarrow> Inr \<lparr>sp_domain_id = ts_domain_id s, sp_trace_id = ts_trace_id s,
          sp_span_id = ts_span_id s, sp_message_id = m\<rparr>)"

fun relationship_value :: "Trace_Chains.relationship \<Rightarrow> Sem_Transport.relationship" where
  "relationship_value Trace_Chains.Link = Sem_Transport.Link"
| "relationship_value Trace_Chains.Parent = Sem_Transport.Parent"

definition hop_document :: "causal_hop \<Rightarrow> evaluation_error + Sem_Transport.hop" where
  "hop_document h =
     and_then (reference_of_span (causal_hop.hp_producer h)) (\<lambda>producer.
     and_then (reference_of_span (causal_hop.hp_consumer h)) (\<lambda>consumer.
       Inr \<lparr>hp_channel_id = causal_hop.hp_channel_id h, hp_status = Passed,
         hp_relationship = relationship_value (causal_hop.hp_relationship h),
         hp_producer = producer, hp_consumer = consumer\<rparr>))"

definition chain_document ::
  "span_set \<Rightarrow> loaded_chain \<times> loaded_channel list \<Rightarrow> evaluation_error + chain_result" where
  "chain_document spans c =
     (case evaluate_causal_chain (map fst (lx_references (fst c))) (map lt_contract (snd c)) spans of
        Inl e \<Rightarrow> Inl (Chain_raised e)
      | Inr ev \<Rightarrow> and_then (map_res hop_document (ce_hops ev)) (\<lambda>hops.
          Inr \<lparr>ch_chain_id = lx_chain_id (fst c), ch_channel_ids = ce_channel_ids ev,
            ch_expected_contract_sha256 = lx_sha256 (fst c), ch_hops = hops,
            ch_status = ce_status ev, ch_trace_ids = ce_trace_ids ev,
            ch_root_trace_id = (case ce_root_trace_id ev of None \<Rightarrow> [] | Some t \<Rightarrow> t)\<rparr>))"

section \<open>The result\<close>

definition contract_row :: "loaded_channel \<Rightarrow> Sem_Transport.channel_contract" where
  "contract_row c = \<lparr>cn_channel_id = contract_id c,
     cn_source_domain_id = ch_source_domain_id (lt_contract c),
     cn_destination_domain_id = ch_destination_domain_id (lt_contract c)\<rparr>"

definition chain_contract_row :: "loaded_chain \<Rightarrow> chain_contract" where
  "chain_contract_row x = \<lparr>xc_chain_id = lx_chain_id x, xc_sha256 = lx_sha256 x\<rparr>"

definition transport_document ::
  "'d transport_inputs \<Rightarrow> domain_traces list \<Rightarrow> observation_row list \<Rightarrow> chain_result list \<Rightarrow> outcome
    \<Rightarrow> transport_result" where
  "transport_document i domains observations rows status =
     \<lparr>tq_trace_domains = map (tw_domain_id \<circ> dt_row) domains,
      tq_contracts = map contract_row (sort_key contract_id (ti_channels i)),
      tq_clock_relations = sort_key relation_pair (map clock_row_of (ti_relations i)),
      tq_observations = observations, tq_chains = rows,
      tq_chain_contracts = map chain_contract_row (sort_key lx_chain_id (ti_chains i)),
      tq_verdict = \<lparr>tv_chain_count = int (length rows), tv_passed_chain_count = count_chains Passed rows,
        tv_failed_chain_count = count_chains Failed rows,
        tv_incomplete_chain_count = count_chains Incomplete rows,
        tv_error_chain_count = count_chains Error rows, tv_status = status\<rparr>\<rparr>"

definition transport_status_of ::
  "'d transport_inputs \<Rightarrow> observation_row list \<Rightarrow> chain_result list \<Rightarrow> evaluation_error + outcome" where
  "transport_status_of i observations rows =
     (case worst_of (map ob_status observations @ map ch_status rows @ clock_statuses i) True of
        Inl _ \<Rightarrow> Inl No_status
      | Inr status \<Rightarrow> Inr status)"

definition build_transport_document ::
  "'d transport_inputs \<Rightarrow> evaluation_error + transport_result" where
  "build_transport_document i =
     and_then (resolve_chains i) (\<lambda>resolved.
     and_then (load_domains i) (\<lambda>domains.
     (let spans = spans_by_domain domains in
      checked (check_trace_set (ti_channels i) spans)
      (checked (check_relations i (evidence_sha256_by_domain domains) [] (ti_relations i))
      (and_then (observe_channels i spans) (\<lambda>observations.
       and_then (map_res (chain_document spans) (sort_key (lx_chain_id \<circ> fst) resolved)) (\<lambda>rows.
       and_then (transport_status_of i observations rows) (\<lambda>status.
         Inr (transport_document i domains observations rows status)))))))))"

text \<open>\<open>write_contract_json\<close> validates the document before it is written.\<close>

definition evaluate_transport_qualification ::
  "'d transport_inputs \<Rightarrow> evaluation_error + transport_result" where
  "evaluate_transport_qualification i =
     and_then (build_transport_document i) (\<lambda>d.
       checked (map_option Result_rejected (validate_transport_qualification d)) (Inr d))"

section \<open>What the loaded contracts and traces say\<close>

text \<open>
  What loading the documents has checked: the keys of a dict are distinct, a channel joins two
  domains (\<open>_validate_transport_channel\<close>), a chain lists its channels once and has one at least.
\<close>

definition inputs_valid :: "'d transport_inputs \<Rightarrow> bool" where
  "inputs_valid i \<longleftrightarrow> distinct (ti_trace_domains i) \<and>
     (\<forall>c \<in> set (ti_channels i). ch_source_domain_id (lt_contract c) \<noteq> ch_destination_domain_id (lt_contract c)) \<and>
     (\<forall>x \<in> set (ti_chains i). lx_references x \<noteq> [] \<and> distinct (map fst (lx_references x)))"

lemma resolve_reference_Inr:
  assumes "resolve_reference channels chain r = Inr c"
  shows "c \<in> set channels" "contract_id c = fst r"
  using assms dict_by_SomeD [of contract_id channels "fst r"]
  by (auto simp: resolve_reference_def split: option.splits if_splits)

lemma resolve_references_Inr:
  assumes "map_res (resolve_reference channels chain) refs = Inr cs"
  shows "set cs \<subseteq> set channels" "map contract_id cs = map fst refs"
  using assms unfolding map_res_Inr
  by (induction rule: list_all2_induct) (auto dest: resolve_reference_Inr)

lemma resolved_chains:
  assumes "resolve_chains i = Inr resolved"
  shows "map fst resolved = ti_chains i"
    and "(x, ordered) \<in> set resolved \<Longrightarrow> set ordered \<subseteq> set (ti_channels i) \<and>
       map contract_id ordered = map fst (lx_references x)"
    and "(\<Union>(_, ordered) \<in> set resolved. contract_id ` set ordered) = contract_id ` set (ti_channels i)"
    and "(\<Union>c \<in> set (ti_channels i). set (contract_domains c)) = set (ti_trace_domains i)"
    and "unique_by lx_chain_id (ti_chains i)" "unique_by contract_id (ti_channels i)" "ti_chains i \<noteq> []"
proof -
  have m: "map_res (resolve_chain (ti_channels i)) (ti_chains i) = Inr resolved"
    and facts: "(\<Union>(_, ordered) \<in> set resolved. contract_id ` set ordered) = contract_id ` set (ti_channels i)"
      "(\<Union>c \<in> set (ti_channels i). set (contract_domains c)) = set (ti_trace_domains i)"
      "unique_by lx_chain_id (ti_chains i)" "unique_by contract_id (ti_channels i)" "ti_chains i \<noteq> []"
    using assms by (auto simp: resolve_chains_def checked_Inr)
  have one: "fst r = x \<and> set (snd r) \<subseteq> set (ti_channels i) \<and> map contract_id (snd r) = map fst (lx_references x)"
    if "resolve_chain (ti_channels i) x = Inr r" for x r
    using that resolve_references_Inr [of "ti_channels i" x "lx_references x"]
    by (auto simp: resolve_chain_def checked_Inr)
  from m [unfolded map_res_Inr] show "map fst resolved = ti_chains i"
    by (induction rule: list_all2_induct) (auto dest: one)
  show "set ordered \<subseteq> set (ti_channels i) \<and> map contract_id ordered = map fst (lx_references x)"
    if "(x, ordered) \<in> set resolved"
    using map_res_member [OF m that] one by fastforce
  show "(\<Union>(_, ordered) \<in> set resolved. contract_id ` set ordered) = contract_id ` set (ti_channels i)"
    "(\<Union>c \<in> set (ti_channels i). set (contract_domains c)) = set (ti_trace_domains i)"
    "unique_by lx_chain_id (ti_chains i)" "unique_by contract_id (ti_channels i)" "ti_chains i \<noteq> []"
    by (rule facts)+
qed

lemma loaded_domains:
  assumes "load_domains i = Inr domains"
  shows "map (tw_domain_id \<circ> dt_row) domains = sort (ti_trace_domains i)"
    and "d \<in> set domains \<Longrightarrow> spans_ok (ti_run_id i) (tw_domain_id (dt_row d)) (dt_spans d)"
proof -
  have one: "tw_domain_id (dt_row d) = x \<and> spans_ok (ti_run_id i) x (dt_spans d)"
    if "load_domain i x = Inr d" for x d
    using that loaded_spans_ok(2)
    by (auto simp: load_domain_def Let_def trace_link_row_def load_otlp_json_traces_def
        split: option.splits if_splits sum.splits)
  from assms show "map (tw_domain_id \<circ> dt_row) domains = sort (ti_trace_domains i)"
    unfolding load_domains_def map_res_Inr
    by (induction rule: list_all2_induct) (auto dest: one)
  show "spans_ok (ti_run_id i) (tw_domain_id (dt_row d)) (dt_spans d)" if "d \<in> set domains"
    using map_res_member [OF assms [unfolded load_domains_def] that] one by blast
qed

text \<open>Every span stands under its own domain.\<close>

definition spans_bound :: "span_set \<Rightarrow> bool" where
  "spans_bound spans \<longleftrightarrow> (\<forall>d. \<forall>s \<in> set (spans_of spans d). ts_domain_id s = d)"

lemma loaded_spans_bound:
  assumes "load_domains i = Inr domains"
  shows "spans_bound (spans_by_domain domains)"
  unfolding spans_bound_def
proof (intro allI ballI)
  fix d s
  assume s: "s \<in> set (spans_of (spans_by_domain domains) d)"
  then obtain ss where "map_of (spans_by_domain domains) d = Some ss" "s \<in> set ss"
    by (cases "map_of (spans_by_domain domains) d") (auto simp: spans_of_def)
  then have "(d, ss) \<in> set (spans_by_domain domains)" by (auto dest: map_of_SomeD)
  then obtain t where "t \<in> set domains" "tw_domain_id (dt_row t) = d" "dt_spans t = ss"
    by (auto simp: spans_by_domain_def)
  with loaded_domains(2) [OF assms] \<open>s \<in> set ss\<close> show "ts_domain_id s = d"
    by (auto simp: spans_ok_def span_ok_def)
qed

section \<open>Relations, observations and hops\<close>

lemma check_relations_None:
  "check_relations i evidence observed rs = None \<Longrightarrow>
     distinct (map loaded_relation_pair rs) \<and> loaded_relation_pair ` set rs \<inter> set observed = {} \<and>
     loaded_relation_pair ` set rs \<subseteq> channel_pair ` set (ti_channels i)"
proof (induction rs arbitrary: observed)
  case (Cons r rs)
  from Cons.prems have pair: "loaded_relation_pair r \<in> channel_pair ` set (ti_channels i)"
    "loaded_relation_pair r \<notin> set observed"
    and "check_relations i evidence (loaded_relation_pair r # observed) rs = None" by simp_all
  from Cons.IH [OF this(3)] pair show ?case by auto
qed simp

lemma observed_channels:
  assumes "observe_channels i spans = Inr observations"
  shows "map ob_channel_id observations = map contract_id (sort_key contract_id (ti_channels i))"
    and "c \<in> set (ti_channels i) \<Longrightarrow> \<exists>ev. evaluate_channel_delivery (lt_contract c) spans = Inr ev \<and>
       \<lparr>ob_channel_id = contract_id c, ob_status = de_status ev\<rparr> \<in> set observations"
    and "o' \<in> set observations \<Longrightarrow> \<exists>c \<in> set (ti_channels i). \<exists>ev.
       evaluate_channel_delivery (lt_contract c) spans = Inr ev \<and> ob_status o' = de_status ev"
proof -
  have m: "map_res (observe_channel (ti_evaluated_at i) spans) (sort_key contract_id (ti_channels i)) = Inr observations"
    using assms by (simp add: observe_channels_def)
  have one: "\<exists>ev. evaluate_channel_delivery (lt_contract c) spans = Inr ev \<and>
      r = \<lparr>ob_channel_id = contract_id c, ob_status = de_status ev\<rparr>"
    if "observe_channel t spans c = Inr r" for t c r
    using that by (auto simp: observe_channel_def write_observation_def checked_Inr split: sum.splits)
  from m [unfolded map_res_Inr]
  show "map ob_channel_id observations = map contract_id (sort_key contract_id (ti_channels i))"
    by (induction rule: list_all2_induct) (auto dest!: one)
  show "\<exists>ev. evaluate_channel_delivery (lt_contract c) spans = Inr ev \<and>
       \<lparr>ob_channel_id = contract_id c, ob_status = de_status ev\<rparr> \<in> set observations"
    if "c \<in> set (ti_channels i)"
    using map_res_input [OF m, of c] that one by fastforce
  show "\<exists>c \<in> set (ti_channels i). \<exists>ev. evaluate_channel_delivery (lt_contract c) spans = Inr ev \<and>
      ob_status o' = de_status ev" if "o' \<in> set observations"
    using map_res_member [OF m that] one by fastforce
qed

lemma hop_document_sound:
  assumes h: "hop_of spans c h" "hop_document h = Inr dh"
    and spans: "spans_bound spans" "validate_trace_set spans = None"
    and "ch_source_domain_id c \<noteq> ch_destination_domain_id c"
  shows "hp_channel_id dh = ch_channel_id c" "hp_status dh = Passed"
    "sp_domain_id (hp_producer dh) = ch_source_domain_id c"
    "sp_domain_id (hp_consumer dh) = ch_destination_domain_id c"
    "sp_message_id (hp_producer dh) = sp_message_id (hp_consumer dh)"
    "span_key (hp_producer dh) \<noteq> span_key (hp_consumer dh)"
    "hp_relationship dh = Sem_Transport.Parent \<Longrightarrow> sp_trace_id (hp_producer dh) = sp_trace_id (hp_consumer dh)"
    "sp_trace_id (hp_producer dh) = ts_trace_id (causal_hop.hp_producer h)"
    "sp_trace_id (hp_consumer dh) = ts_trace_id (causal_hop.hp_consumer h)"
proof -
  obtain p q where hop: "h = Trace_Chains.hop c (p, q)" and d: "delivers spans c (p, q)" "in_order c (p, q)"
    using h(1) unfolding hop_of_def by force
  have mem: "p \<in> set (spans_of spans (ch_source_domain_id c))" "q \<in> set (spans_of spans (ch_destination_domain_id c))"
    using d(1) by (auto simp: delivers_def channel_spans_def endpoint_spans_def endpoint_matches_def)
  then have dom: "ts_domain_id p = ch_source_domain_id c" "ts_domain_id q = ch_destination_domain_id c"
    using spans(1) by (auto simp: spans_bound_def)
  have "inj_on trace_span_key (set (all_spans spans))"
    using spans(2) unfolding validate_trace_set_accepts by (simp add: distinct_map)
  then have key: "trace_span_key p \<noteq> trace_span_key q"
    using mem spans_of_all dom assms(5) by (metis inj_onD)
  from h(2) d(1) have dh: "dh = \<lparr>hp_channel_id = ch_channel_id c, hp_status = Passed,
      hp_relationship = relationship_value (ch_relationship c),
      hp_producer = \<lparr>sp_domain_id = ts_domain_id p, sp_trace_id = ts_trace_id p, sp_span_id = ts_span_id p,
        sp_message_id = the (ts_message_id p)\<rparr>,
      hp_consumer = \<lparr>sp_domain_id = ts_domain_id q, sp_trace_id = ts_trace_id q, sp_span_id = ts_span_id q,
        sp_message_id = the (ts_message_id q)\<rparr>\<rparr>"
    by (auto simp: hop_document_def reference_of_span_def hop Trace_Chains.hop_def delivers_def split: option.splits)
  have rel: "relationship_value (ch_relationship c) = Sem_Transport.Parent \<longleftrightarrow> ch_relationship c = Trace_Chains.Parent"
    by (cases "ch_relationship c") simp_all
  show "hp_channel_id dh = ch_channel_id c" "hp_status dh = Passed"
    "sp_domain_id (hp_producer dh) = ch_source_domain_id c"
    "sp_domain_id (hp_consumer dh) = ch_destination_domain_id c"
    "sp_message_id (hp_producer dh) = sp_message_id (hp_consumer dh)"
    "span_key (hp_producer dh) \<noteq> span_key (hp_consumer dh)"
    "hp_relationship dh = Sem_Transport.Parent \<Longrightarrow> sp_trace_id (hp_producer dh) = sp_trace_id (hp_consumer dh)"
    "sp_trace_id (hp_producer dh) = ts_trace_id (causal_hop.hp_producer h)"
    "sp_trace_id (hp_consumer dh) = ts_trace_id (causal_hop.hp_consumer h)"
    using dom key d rel
    by (simp_all add: dh hop Trace_Chains.hop_def delivers_def span_key_def trace_span_key_def
        in_order_def relationship_matches_def)
qed

lemma first_error_single: "first_error [c] = c"
  by (cases c) simp_all

lemma check_hops_only_transitions:
  assumes "check_hops domains by_id ci hi seen hs = Some e"
    and "\<forall>h \<in> set hs. \<forall>k. check_hop_domains domains (by_id (hp_channel_id h)) ci k h = None \<and>
       check_hop_spans ci k h = None"
  shows "\<exists>k. e = Hop_transition_duplicated ci k"
  using assms
proof (induction hs arbitrary: hi seen)
  case (Cons h hs)
  from Cons.prems(2) have "check_hop_domains domains (by_id (hp_channel_id h)) ci hi h = None"
    "check_hop_spans ci hi h = None" by simp_all
  with Cons.prems(1) consider "e = Hop_transition_duplicated ci hi"
    | "check_hops domains by_id ci (Suc hi) (transition_id h # seen) hs = Some e"
    by (cases "transition_id h \<in> set seen") (auto simp: first_error_single)
  then show ?case using Cons.IH Cons.prems(2) by cases auto
qed simp

section \<open>A chain document\<close>

lemma set_mono_subseq: "subseq xs ys \<Longrightarrow> set xs \<subseteq> set ys"
  by (induction rule: list_emb.induct) auto

lemma subseq_distinct: "subseq xs ys \<Longrightarrow> distinct ys \<Longrightarrow> distinct xs"
  by (induction rule: list_emb.induct) (auto dest: set_mono_subseq)

definition hop_row_ok :: "Trace_Chains.channel_contract \<Rightarrow> Sem_Transport.hop \<Rightarrow> bool" where
  "hop_row_ok c h \<longleftrightarrow> hp_channel_id h = ch_channel_id c \<and> hp_status h = Passed \<and>
     sp_domain_id (hp_producer h) = ch_source_domain_id c \<and>
     sp_domain_id (hp_consumer h) = ch_destination_domain_id c \<and>
     sp_message_id (hp_producer h) = sp_message_id (hp_consumer h) \<and>
     span_key (hp_producer h) \<noteq> span_key (hp_consumer h) \<and>
     (hp_relationship h = Sem_Transport.Parent \<longrightarrow> sp_trace_id (hp_producer h) = sp_trace_id (hp_consumer h))"

text \<open>The facts of one written chain, in terms of the contracts it was evaluated on.\<close>

lemma chain_document_facts:
  assumes row: "chain_document spans (x, ordered) = Inr row"
    and spans: "spans_bound spans" "validate_trace_set spans = None"
    and ends: "\<forall>c \<in> set ordered. ch_source_domain_id (lt_contract c) \<noteq> ch_destination_domain_id (lt_contract c)"
  shows "ch_chain_id row = lx_chain_id x" "ch_channel_ids row = map fst (lx_references x)"
    "ch_expected_contract_sha256 row = lx_sha256 x"
    "\<exists>sel. subseq sel (map lt_contract ordered) \<and> list_all2 hop_row_ok sel (ch_hops row) \<and>
       (ch_status row = Passed \<longrightarrow> sel = map lt_contract ordered)"
    "hop_trace_ids row = set (ch_trace_ids row)"
    "ch_hops row \<noteq> [] \<Longrightarrow> ch_root_trace_id row \<in> set (ch_trace_ids row)"
    "ch_status row = Passed \<longleftrightarrow> chain_established spans (map lt_contract ordered)"
proof -
  obtain ev hops where ev: "evaluate_causal_chain (map fst (lx_references x)) (map lt_contract ordered) spans = Inr ev"
    and hops: "map_res hop_document (ce_hops ev) = Inr hops"
    and row': "row = \<lparr>ch_chain_id = lx_chain_id x, ch_channel_ids = ce_channel_ids ev,
      ch_expected_contract_sha256 = lx_sha256 x, ch_hops = hops, ch_status = ce_status ev,
      ch_trace_ids = ce_trace_ids ev,
      ch_root_trace_id = (case ce_root_trace_id ev of None \<Rightarrow> [] | Some t \<Rightarrow> t)\<rparr>"
    using row by (auto simp: chain_document_def split: sum.splits)
  note fields = chain_fields [OF ev]
  show "ch_chain_id row = lx_chain_id x" "ch_channel_ids row = map fst (lx_references x)"
    "ch_expected_contract_sha256 row = lx_sha256 x"
    using fields by (simp_all add: row')
  show "ch_status row = Passed \<longleftrightarrow> chain_established spans (map lt_contract ordered)"
    using chain_evaluated [OF ev] by (simp add: row')
  obtain sel where sel: "subseq sel (map lt_contract ordered)" "list_all2 (hop_of spans) sel (ce_hops ev)"
    "ce_status ev = Passed \<longrightarrow> sel = map lt_contract ordered"
    using chain_hops [OF ev] by blast
  have docs: "list_all2 (\<lambda>h dh. hop_document h = Inr dh) (ce_hops ev) hops"
    using hops by (simp add: map_res_Inr)
  have inner: "ch_source_domain_id c \<noteq> ch_destination_domain_id c" if "c \<in> set sel" for c
    using ends that set_mono_subseq [OF sel(1)] by auto
  have one: "hop_row_ok c dh" if "c \<in> set sel" "hop_of spans c h" "hop_document h = Inr dh" for c h dh
    using hop_document_sound [OF that(2,3) spans inner [OF that(1)]] by (simp add: hop_row_ok_def)
  have traces: "sp_trace_id (hp_producer dh) = ts_trace_id (causal_hop.hp_producer h) \<and>
      sp_trace_id (hp_consumer dh) = ts_trace_id (causal_hop.hp_consumer h)"
    if "hop_document h = Inr dh" for h dh
    using that by (auto simp: hop_document_def reference_of_span_def split: option.splits)
  have "list_all2 hop_row_ok sel hops"
  proof (rule list_all2_all_nthI)
    note lens = list_all2_lengthD [OF sel(2)] list_all2_lengthD [OF docs]
    show "length sel = length hops" using lens by simp
    fix n assume n: "n < length sel"
    with lens have "n < length (ce_hops ev)" by simp
    then show "hop_row_ok (sel ! n) (hops ! n)"
      by (intro one [OF nth_mem [OF n] list_all2_nthD [OF sel(2) n]] list_all2_nthD [OF docs])
  qed
  with sel show "\<exists>sel. subseq sel (map lt_contract ordered) \<and> list_all2 hop_row_ok sel (ch_hops row) \<and>
       (ch_status row = Passed \<longrightarrow> sel = map lt_contract ordered)"
    by (auto simp: row')
  have "(\<Union>h \<in> set hops. {sp_trace_id (hp_producer h), sp_trace_id (hp_consumer h)}) =
      (\<Union>h \<in> set (ce_hops ev). {ts_trace_id (causal_hop.hp_producer h), ts_trace_id (causal_hop.hp_consumer h)})"
    using docs by (induction rule: list_all2_induct) (auto dest: traces)
  then show ids: "hop_trace_ids row = set (ch_trace_ids row)"
    using fields(4) by (simp add: hop_trace_ids_def row')
  show "ch_root_trace_id row \<in> set (ch_trace_ids row)" if "ch_hops row \<noteq> []"
  proof -
    from that have "hops \<noteq> []" by (simp add: row')
    with list_all2_lengthD [OF docs] have "ce_hops ev \<noteq> []" by (metis length_0_conv)
    then obtain h hs where "ce_hops ev = h # hs" by (metis neq_Nil_conv)
    then show ?thesis using fields(4,5) by (simp add: row')
  qed
qed

text \<open>What the validator can still refuse in a document that the evaluation built.\<close>

fun residual_rejection :: "transport_error \<Rightarrow> bool" where
  "residual_rejection Relation_ids_not_unique = True"
| "residual_rejection (Chain_not_contiguous _ _) = True"
| "residual_rejection (Hop_transition_duplicated _ _) = True"
| "residual_rejection _ = False"

lemma continuity_rejection:
  assumes "check_continuity by_id ci ids = Some e" and "\<forall>k \<in> set ids. by_id k \<noteq> None"
  shows "residual_rejection e"
proof -
  obtain k where k: "k < length (zip ids (tl ids))" and e: "(case zip ids (tl ids) ! k of (p, c) \<Rightarrow>
      with_key (Chain_unknown_channels ci) (by_id p) (\<lambda>previous.
      with_key (Chain_unknown_channels ci) (by_id c) (\<lambda>current.
      require (cn_destination_domain_id previous = cn_source_domain_id current)
        (Chain_not_contiguous ci (1 + k))))) = Some e"
    using each_from_SomeD [OF assms(1) [unfolded check_continuity_def]] by blast
  from k have "ids ! k \<in> set ids" "tl ids ! k \<in> set ids"
    by (auto intro: nth_mem list.set_sel(2) simp: nth_tl)
  with assms(2) obtain p c where "by_id (ids ! k) = Some p" "by_id (tl ids ! k) = Some c" by blast
  with e k show ?thesis by auto
qed

lemma check_chain_residual:
  fixes ordered :: "loaded_channel list"
  assumes doc: "chain_document spans (x, ordered) = Inr row"
    and spans: "spans_bound spans" "validate_trace_set spans = None"
    and ends: "\<forall>c \<in> set ordered. ch_source_domain_id (lt_contract c) \<noteq> ch_destination_domain_id (lt_contract c)"
    and refs: "map contract_id ordered = map fst (lx_references x)" "lx_references x \<noteq> []"
      "distinct (map fst (lx_references x))"
    and known: "\<forall>c \<in> set ordered. contract_id c \<in> ids \<and> by_id (contract_id c) = Some (contract_row c) \<and>
       set (contract_domains c) \<subseteq> domains"
    and chain: "chain_by_id (lx_chain_id x) = Some (chain_contract_row x)"
    and e: "check_chain domains ids by_id chain_by_id ci row = Some e"
  shows "residual_rejection e"
proof -
  note facts = chain_document_facts [OF doc spans ends]
  obtain sel where sel: "subseq sel (map lt_contract ordered)" "list_all2 hop_row_ok sel (ch_hops row)"
    "ch_status row = Passed \<longrightarrow> sel = map lt_contract ordered"
    using facts(4) by blast
  have names: "map hp_channel_id (ch_hops row) = map ch_channel_id sel"
    using sel(2) by (induction rule: list_all2_induct) (auto simp: hop_row_ok_def)
  have ids_of: "contract_id = ch_channel_id \<circ> lt_contract" by (simp add: fun_eq_iff contract_id_def)
  have sub: "subseq (map ch_channel_id sel) (ch_channel_ids row)"
    using subseq_map [OF sel(1), of ch_channel_id] by (simp add: facts(2) ids_of flip: refs(1))
  have rowids: "set (ch_channel_ids row) = contract_id ` set ordered"
    using refs(1) facts(2) by (metis list.set_map)
  then have in_ids: "set (ch_channel_ids row) \<subseteq> ids" using known by auto
  have hop_ids: "hp_channel_id h \<in> ids" if "h \<in> set (ch_hops row)" for h
    using that names in_ids set_mono_subseq [OF sub] by (metis image_eqI list.set_map subsetD)
  have hop_distinct: "distinct (map hp_channel_id (ch_hops row))"
    unfolding names using subseq_distinct [OF sub] refs(3) facts(2) by simp
  have passed: "map hp_channel_id (ch_hops row) = ch_channel_ids row" if "ch_status row = Passed"
    using sel(3) that names by (simp add: facts(2) ids_of flip: refs(1))
  have statuses: "hp_status h = Passed" if "h \<in> set (ch_hops row)" for h
    using sel(2) that by (induction rule: list_all2_induct) (auto simp: hop_row_ok_def)
  have rows: "\<exists>c \<in> set ordered. hop_row_ok (lt_contract c) h" if "h \<in> set (ch_hops row)" for h
  proof -
    have "\<exists>c \<in> set sel. hop_row_ok c h"
      using sel(2) that by (induction rule: list_all2_induct) auto
    with set_mono_subseq [OF sel(1)] show ?thesis by auto
  qed
  have hop_checks: "check_hop_domains domains (by_id (hp_channel_id h)) ci k h = None \<and> check_hop_spans ci k h = None"
    if h: "h \<in> set (ch_hops row)" for h k
  proof -
    obtain c where c: "c \<in> set ordered" "hop_row_ok (lt_contract c) h" using rows [OF h] by blast
    then have "by_id (hp_channel_id h) = Some (contract_row c)" and "set (contract_domains c) \<subseteq> domains"
      using known by (auto simp: hop_row_ok_def contract_id_def)
    with c ends show ?thesis
      by (auto simp: check_hop_domains_def check_hop_spans_def contract_row_def contract_domains_def
          hop_row_ok_def Let_def)
  qed
  have passed_check: "residual_rejection e'"
    if "check_passed_chain domains by_id ci row = Some e'" "ch_status row = Passed" for e'
  proof -
    have "ch_hops row \<noteq> []" using passed that(2) facts(2) refs(2) by auto
    with facts(5,6) have "check_hops domains by_id ci 0 [] (ch_hops row) = Some e'"
      using that(1) by (auto simp: check_passed_chain_def first_error_single)
    from check_hops_only_transitions [OF this] hop_checks show ?thesis by auto
  qed
  have cont: "residual_rejection e'" if "check_continuity by_id ci (ch_channel_ids row) = Some e'" for e'
    using continuity_rejection [OF that] rowids known by auto
  have hop_each: "each (\<lambda>hi hop_id. require (hop_id \<in> ids) (Hop_unknown_channel ci hi))
      (map hp_channel_id (ch_hops row)) = None"
    using hop_ids by simp
  show ?thesis
  proof (cases "check_continuity by_id ci (ch_channel_ids row)")
    case (Some e')
    with e in_ids chain facts(1,3) have "e = e'"
      by (simp add: check_chain_def chain_contract_row_def Let_def)
    with cont Some show ?thesis by blast
  next
    case None
    have "check_chain domains ids by_id chain_by_id ci row =
        when_check (ch_status row = Passed) (check_passed_chain domains by_id ci row)"
      unfolding check_chain_def Let_def None hop_each
      using in_ids chain facts(1,3) hop_distinct passed statuses
      by (simp add: chain_contract_row_def unique_by_distinct first_error_single)
    with e passed_check show ?thesis by simp
  qed
qed

section \<open>The built document\<close>

lemma built_parts:
  assumes "build_transport_document i = Inr d"
  obtains resolved domains observations rows status where
    "resolve_chains i = Inr resolved" "load_domains i = Inr domains"
    "check_trace_set (ti_channels i) (spans_by_domain domains) = None"
    "check_relations i (evidence_sha256_by_domain domains) [] (ti_relations i) = None"
    "observe_channels i (spans_by_domain domains) = Inr observations"
    "map_res (chain_document (spans_by_domain domains)) (sort_key (lx_chain_id \<circ> fst) resolved) = Inr rows"
    "transport_status_of i observations rows = Inr status"
    "d = transport_document i domains observations rows status"
  using assms unfolding build_transport_document_def Let_def and_then_Inr checked_Inr by blast

lemma document_rows:
  assumes "map_res (chain_document spans) (sort_key (lx_chain_id \<circ> fst) resolved) = Inr rows"
  shows "row \<in> set rows \<Longrightarrow> \<exists>x ordered. (x, ordered) \<in> set resolved \<and> chain_document spans (x, ordered) = Inr row"
    and "(x, ordered) \<in> set resolved \<Longrightarrow> \<exists>row \<in> set rows. chain_document spans (x, ordered) = Inr row"
    and "map ch_chain_id rows = map (lx_chain_id \<circ> fst) (sort_key (lx_chain_id \<circ> fst) resolved)"
    and "length rows = length resolved"
proof -
  show "\<exists>x ordered. (x, ordered) \<in> set resolved \<and> chain_document spans (x, ordered) = Inr row" if "row \<in> set rows"
    using map_res_member [OF assms that] by auto
  show "\<exists>row \<in> set rows. chain_document spans (x, ordered) = Inr row" if "(x, ordered) \<in> set resolved"
    using map_res_input [OF assms, of "(x, ordered)"] that by auto
  have one: "ch_chain_id row = (lx_chain_id \<circ> fst) c" if "chain_document spans c = Inr row" for c row
    using that by (auto simp: chain_document_def split: sum.splits)
  from assms [unfolded map_res_Inr]
  show "map ch_chain_id rows = map (lx_chain_id \<circ> fst) (sort_key (lx_chain_id \<circ> fst) resolved)"
    by (induction rule: list_all2_induct) (auto dest: one)
  show "length rows = length resolved"
    using list_all2_lengthD [OF assms [unfolded map_res_Inr]] by simp
qed

lemma distinct_sort_key_map: "distinct (map f xs) \<Longrightarrow> distinct (map f (sort_key g xs))"
  by (simp add: distinct_map)

lemma union_matched:
  assumes "\<And>r. r \<in> R \<Longrightarrow> \<exists>x \<in> S. g r = h x" and "\<And>x. x \<in> S \<Longrightarrow> \<exists>r \<in> R. g r = h x"
  shows "(\<Union>r \<in> R. g r) = (\<Union>x \<in> S. h x)"
proof -
  have "g ` R = h ` S"
  proof (intro equalityI subsetI)
    fix y assume "y \<in> g ` R"
    with assms(1) show "y \<in> h ` S" by auto
  next
    fix y assume "y \<in> h ` S"
    then obtain x where "x \<in> S" "y = h x" by blast
    with assms(2) [of x] obtain r where "r \<in> R" "y = g r" by auto
    then show "y \<in> g ` R" by blast
  qed
  then show ?thesis by simp
qed

lemma worst_of_insert_passed:
  assumes "worst_of xs True = Inr s" and "set ys = insert Passed (set xs)"
  shows "worst_of ys True = Inr s"
proof -
  have ne: "xs \<noteq> []" "ys \<noteq> []" using assms by auto
  have "Max (set ys) = Max (set xs)" using ne by (simp add: assms(2) max_def)
  then have "worst ys = worst xs" using ne by (simp add: worst_Max)
  with assms(1) ne show ?thesis by (auto simp: worst_of_collapse)
qed

lemma verdict_consistent:
  assumes "transport_status_of i observations rows = Inr status"
  shows "validate_verdict (transport_document i domains observations rows status) = None"
proof -
  let ?d = "transport_document i domains observations rows status"
  have s: "worst_of (map ob_status observations @ map ch_status rows @ clock_statuses i) True = Inr status"
    using assms by (simp add: transport_status_of_def split: sum.splits)
  have pairs: "relation_pair ` set (tq_clock_relations ?d) = loaded_relation_pair ` set (ti_relations i)"
    "contract_pair ` set (tq_contracts ?d) = channel_pair ` set (ti_channels i)"
    by (simp_all add: transport_document_def image_image relation_pair_def clock_row_of_def
        loaded_relation_pair_def contract_pair_def contract_row_def channel_pair_def)
  let ?missing = "relation_pair ` set (tq_clock_relations ?d) \<noteq> contract_pair ` set (tq_contracts ?d)"
  have "worst_of (Passed # (if ?missing then [Incomplete] else []) @ map ck_status (tq_clock_relations ?d)
      @ map ob_status (tq_observations ?d) @ map ch_status (tq_chains ?d)) True = Inr status"
  proof (rule worst_of_insert_passed [OF s])
    show "set (Passed # (if ?missing then [Incomplete] else []) @ map ck_status (tq_clock_relations ?d)
        @ map ob_status (tq_observations ?d) @ map ch_status (tq_chains ?d)) =
      insert Passed (set (map ob_status observations @ map ch_status rows @ clock_statuses i))"
    proof -
      have "ck_status ` set (tq_clock_relations ?d) = lr_status ` set (ti_relations i)"
        by (simp add: transport_document_def image_image clock_row_of_def)
      then show ?thesis unfolding pairs by (auto simp: transport_document_def clock_statuses_def)
    qed
  qed
  then show ?thesis
    by (simp add: validate_verdict_def Let_def transport_document_def)
qed

lemma built_residual:
  assumes valid: "inputs_valid i" and built: "build_transport_document i = Inr d"
    and e: "validate_transport_qualification d = Some e"
  shows "residual_rejection e"
proof -
  obtain resolved domains observations rows status where
    res: "resolve_chains i = Inr resolved" and dom: "load_domains i = Inr domains"
    and tr: "check_trace_set (ti_channels i) (spans_by_domain domains) = None"
    and rel: "check_relations i (evidence_sha256_by_domain domains) [] (ti_relations i) = None"
    and obs: "observe_channels i (spans_by_domain domains) = Inr observations"
    and rws: "map_res (chain_document (spans_by_domain domains)) (sort_key (lx_chain_id \<circ> fst) resolved) = Inr rows"
    and st: "transport_status_of i observations rows = Inr status"
    and d: "d = transport_document i domains observations rows status"
    using built_parts [OF built] by metis
  note r = resolved_chains [OF res]
  let ?spans = "spans_by_domain domains"
  have spans: "spans_bound ?spans" "validate_trace_set ?spans = None"
    using loaded_spans_bound [OF dom] tr by (auto simp: check_trace_set_def)
  have fields: "tq_trace_domains d = sort (ti_trace_domains i)"
    "tq_contracts d = map contract_row (sort_key contract_id (ti_channels i))"
    "tq_clock_relations d = sort_key relation_pair (map clock_row_of (ti_relations i))"
    "tq_observations d = observations" "tq_chains d = rows"
    "tq_chain_contracts d = map chain_contract_row (sort_key lx_chain_id (ti_chains i))"
    using loaded_domains(1) [OF dom] by (simp_all add: d transport_document_def)
  have row_id: "cn_channel_id \<circ> contract_row = contract_id" "xc_chain_id \<circ> chain_contract_row = lx_chain_id"
    "relation_pair \<circ> clock_row_of = loaded_relation_pair" "contract_pair \<circ> contract_row = channel_pair"
    by (simp_all add: fun_eq_iff contract_row_def chain_contract_row_def relation_pair_def clock_row_of_def
        loaded_relation_pair_def contract_pair_def channel_pair_def)
  have domains: "result_domains d = set (ti_trace_domains i)"
    unfolding r(4) [symmetric] by (auto simp: result_domains_def fields contract_row_def contract_domains_def)
  have ids: "cn_channel_id ` set (tq_contracts d) = contract_id ` set (ti_channels i)"
    by (simp add: fields image_image contract_row_def)
  have unique: "unique_by cn_channel_id (tq_contracts d)" "unique_by xc_chain_id (tq_chain_contracts d)"
    using r(5,6) by (simp_all add: fields unique_by_distinct row_id distinct_sort_key_map)
  have by_id: "dict_by cn_channel_id (tq_contracts d) (contract_id c) = Some (contract_row c)"
    if "c \<in> set (ti_channels i)" for c
    by (rule iffD2 [OF dict_by_unique [OF unique(1)]]) (use that in \<open>simp add: fields contract_row_def\<close>)
  have chain_by_id: "dict_by xc_chain_id (tq_chain_contracts d) (lx_chain_id x) = Some (chain_contract_row x)"
    if "x \<in> set (ti_chains i)" for x
    by (rule iffD2 [OF dict_by_unique [OF unique(2)]]) (use that in \<open>simp add: fields chain_contract_row_def\<close>)
  have in_chains: "x \<in> set (ti_chains i)" if "(x, ordered) \<in> set resolved" for x ordered
    using that unfolding r(1) [symmetric] by force
  have chain_ids: "map ch_chain_id rows = map (lx_chain_id \<circ> fst) (sort_key (lx_chain_id \<circ> fst) resolved)"
    by (rule document_rows(3) [OF rws])
  have distinct_rows: "distinct (map ch_chain_id rows)"
    unfolding chain_ids using r(5) by (simp add: distinct_sort_key_map unique_by_distinct flip: r(1))
  have row_ids: "ch_chain_id ` set rows = lx_chain_id ` set (ti_chains i)"
    using arg_cong [OF chain_ids, of set] by (simp add: image_image flip: r(1))
  have each_chain: "residual_rejection e'"
    if "each (check_chain (result_domains d) (cn_channel_id ` set (tq_contracts d))
      (dict_by cn_channel_id (tq_contracts d)) (dict_by xc_chain_id (tq_chain_contracts d))) rows = Some e'" for e'
  proof -
    from each_from_SomeD [OF that] obtain k where k: "k < length rows"
      and e': "check_chain (result_domains d) (cn_channel_id ` set (tq_contracts d))
        (dict_by cn_channel_id (tq_contracts d)) (dict_by xc_chain_id (tq_chain_contracts d)) (0 + k) (rows ! k) = Some e'"
      by blast
    obtain x ordered where xo: "(x, ordered) \<in> set resolved" "chain_document ?spans (x, ordered) = Inr (rows ! k)"
      using document_rows(1) [OF rws nth_mem [OF k]] by blast
    note o = r(2) [OF xo(1)]
    have x: "lx_references x \<noteq> []" "distinct (map fst (lx_references x))"
      using valid in_chains [OF xo(1)] by (auto simp: inputs_valid_def)
    have ends: "\<forall>c \<in> set ordered. ch_source_domain_id (lt_contract c) \<noteq> ch_destination_domain_id (lt_contract c)"
      using valid o by (auto simp: inputs_valid_def)
    have known: "\<forall>c \<in> set ordered. contract_id c \<in> cn_channel_id ` set (tq_contracts d) \<and>
        dict_by cn_channel_id (tq_contracts d) (contract_id c) = Some (contract_row c) \<and>
        set (contract_domains c) \<subseteq> result_domains d"
    proof
      fix c assume "c \<in> set ordered"
      with o have c: "c \<in> set (ti_channels i)" by blast
      then show "contract_id c \<in> cn_channel_id ` set (tq_contracts d) \<and>
          dict_by cn_channel_id (tq_contracts d) (contract_id c) = Some (contract_row c) \<and>
          set (contract_domains c) \<subseteq> result_domains d"
        unfolding ids domains r(4) [symmetric] using by_id [OF c] by blast
    qed
    show ?thesis
      by (rule check_chain_residual [OF xo(2) spans ends conjunct2 [OF o] x known
            chain_by_id [OF in_chains [OF xo(1)]] e'])
  qed
  have covered: "(\<Union>c \<in> set rows. set (ch_channel_ids c)) = contract_id ` set (ti_channels i)"
  proof -
    have one: "set (ch_channel_ids row) = contract_id ` set ordered"
      if "(x, ordered) \<in> set resolved" "chain_document ?spans (x, ordered) = Inr row" for x ordered row
    proof -
      have "ch_channel_ids row = map fst (lx_references x)"
        using that(2) chain_fields(1) by (fastforce simp: chain_document_def split: sum.splits)
      with r(2) [OF that(1)] show ?thesis by (metis list.set_map)
    qed
    show ?thesis unfolding r(3) [symmetric]
    proof (rule union_matched)
      fix row assume "row \<in> set rows"
      then obtain x ordered where xo: "(x, ordered) \<in> set resolved" "chain_document ?spans (x, ordered) = Inr row"
        using document_rows(1) [OF rws] by blast
      with one [OF xo] show "\<exists>y \<in> set resolved. set (ch_channel_ids row) = (case y of (_, ordered) \<Rightarrow> contract_id ` set ordered)"
        by (intro bexI [of _ "(x, ordered)"]) simp_all
    next
      fix y assume y: "y \<in> set resolved"
      obtain x ordered where xo: "y = (x, ordered)" by (cases y)
      with y document_rows(2) [OF rws, of x ordered] obtain row where
        "row \<in> set rows" "chain_document ?spans (x, ordered) = Inr row" by blast
      with one [of x ordered row] y xo
      show "\<exists>row \<in> set rows. set (ch_channel_ids row) = (case y of (_, ordered) \<Rightarrow> contract_id ` set ordered)"
        by (intro bexI [of _ row]) simp_all
    qed
  qed
  have relations: "unique_by relation_pair (tq_clock_relations d)"
    "relation_pair ` set (tq_clock_relations d) \<subseteq> contract_pair ` set (tq_contracts d)"
    using check_relations_None [OF rel]
    by (simp_all add: fields unique_by_distinct distinct_sort_key_map row_id image_image
        flip: o_apply [of relation_pair clock_row_of] o_apply [of contract_pair contract_row])
  have observed: "unique_by ob_channel_id (tq_observations d)"
    "ob_channel_id ` set (tq_observations d) = contract_id ` set (ti_channels i)"
  proof -
    note m = observed_channels(1) [OF obs]
    show "unique_by ob_channel_id (tq_observations d)"
      unfolding fields unique_by_distinct m using r(6) by (simp add: distinct_sort_key_map unique_by_distinct)
    show "ob_channel_id ` set (tq_observations d) = contract_id ` set (ti_channels i)"
      using arg_cong [OF m, of set] by (simp add: fields)
  qed
  have basics: "unique_by id (tq_trace_domains d)" "set (tq_trace_domains d) = result_domains d"
    "\<forall>c \<in> set (tq_contracts d). cn_source_domain_id c \<noteq> cn_destination_domain_id c"
    "ch_chain_id ` set (tq_chains d) = xc_chain_id ` set (tq_chain_contracts d)"
    "unique_by ch_chain_id (tq_chains d)"
    using valid domains row_ids distinct_rows
    by (simp_all add: inputs_valid_def fields unique_by_distinct contract_row_def image_image chain_contract_row_def)
  note covered = covered [folded fields(5)]
  note verdict = verdict_consistent [OF st, of domains, folded d]
  have ends: "each (\<lambda>i c. require (cn_source_domain_id c \<noteq> cn_destination_domain_id c)
      (Contract_domains_equal i)) (tq_contracts d) = None"
    using basics(3) by simp
  note ok = basics(1,2,4,5) ends unique relations observed verdict covered ids
  show ?thesis
  proof (cases "unique_by ck_relation_id (tq_clock_relations d)")
    case False
    from e have "e = Relation_ids_not_unique"
      by (simp add: validate_transport_qualification_def Let_def ok False)
    then show ?thesis by simp
  next
    case True
    from e have "each (check_chain (result_domains d) (contract_id ` set (ti_channels i))
        (dict_by cn_channel_id (tq_contracts d)) (dict_by xc_chain_id (tq_chain_contracts d))) (tq_chains d) = Some e"
      by (simp add: validate_transport_qualification_def Let_def ok True first_error.simps(2) split: option.splits)
    then show ?thesis by (intro each_chain) (simp only: fields(5) ids)
  qed
qed

section \<open>The verdict\<close>

definition chain_contracts_of :: "'d transport_inputs \<Rightarrow> loaded_chain \<Rightarrow> Trace_Chains.channel_contract list" where
  "chain_contracts_of i x =
     map (\<lambda>r. lt_contract (the (dict_by contract_id (ti_channels i) (fst r)))) (lx_references x)"

definition channel_passed :: "span_set \<Rightarrow> loaded_channel \<Rightarrow> bool" where
  "channel_passed spans c =
     (case evaluate_channel_delivery (lt_contract c) spans of
        Inl _ \<Rightarrow> False | Inr ev \<Rightarrow> de_status ev = Passed)"

definition loaded_spans :: "'d transport_inputs \<Rightarrow> span_set" where
  "loaded_spans i = (case load_domains i of Inl _ \<Rightarrow> [] | Inr domains \<Rightarrow> spans_by_domain domains)"

text \<open>What a passed verdict is about: the evidence itself, not the written document.\<close>

definition transport_established :: "'d transport_inputs \<Rightarrow> span_set \<Rightarrow> bool" where
  "transport_established i spans \<longleftrightarrow>
     (\<forall>c \<in> set (ti_channels i). channel_passed spans c) \<and>
     (\<forall>x \<in> set (ti_chains i). chain_established spans (chain_contracts_of i x)) \<and>
     loaded_relation_pair ` set (ti_relations i) = channel_pair ` set (ti_channels i) \<and>
     (\<forall>r \<in> set (ti_relations i). lr_status r = Passed)"

lemma all_passed_worst:
  assumes "worst_of ss True = Inr status"
  shows "status = Passed \<longleftrightarrow> (\<forall>s \<in> set ss. s = Passed)"
proof
  assume "\<forall>s \<in> set ss. s = Passed"
  moreover have ne: "ss \<noteq> []" using assms by auto
  ultimately have "worst ss = Passed" using worst_in [OF ne] by blast
  with assms ne show "status = Passed" by (simp add: worst_of_collapse)
qed (use assms collapsed_Passed in blast)

lemma resolved_contracts:
  assumes "resolve_chains i = Inr resolved" and "(x, ordered) \<in> set resolved"
  shows "map lt_contract ordered = chain_contracts_of i x"
proof -
  note r = resolved_chains [OF assms(1)]
  note o = r(2) [OF assms(2)]
  have "the (dict_by contract_id (ti_channels i) (contract_id c)) = c" if "c \<in> set ordered" for c
    using o that dict_by_unique [OF r(6), of "contract_id c" c] by auto
  then have "map lt_contract ordered =
      map (\<lambda>k. lt_contract (the (dict_by contract_id (ti_channels i) k))) (map contract_id ordered)"
    by simp
  also have "\<dots> = chain_contracts_of i x" unfolding conjunct2 [OF o] by (simp add: chain_contracts_of_def)
  finally show ?thesis .
qed

lemma verdict_established:
  assumes "inputs_valid i" and "evaluate_transport_qualification i = Inr d"
  shows "(tv_status (tq_verdict d) = Passed \<longleftrightarrow> transport_established i (loaded_spans i)) \<and>
    validate_transport_qualification d = None"
proof -
  have built: "build_transport_document i = Inr d" and ok: "validate_transport_qualification d = None"
    using assms(2) by (auto simp: evaluate_transport_qualification_def checked_Inr)
  obtain resolved domains observations rows status where
    res: "resolve_chains i = Inr resolved" and dom: "load_domains i = Inr domains"
    and tr: "check_trace_set (ti_channels i) (spans_by_domain domains) = None"
    and obs: "observe_channels i (spans_by_domain domains) = Inr observations"
    and rws: "map_res (chain_document (spans_by_domain domains)) (sort_key (lx_chain_id \<circ> fst) resolved) = Inr rows"
    and st: "transport_status_of i observations rows = Inr status"
    and d: "d = transport_document i domains observations rows status"
    using built_parts [OF built] by metis
  define spans where "spans = spans_by_domain domains"
  have spans: "loaded_spans i = spans" "spans_bound spans" "validate_trace_set spans = None"
    using dom loaded_spans_bound [OF dom] tr by (auto simp: loaded_spans_def check_trace_set_def spans_def)
  note r = resolved_chains [OF res]
  have "worst_of (map ob_status observations @ map ch_status rows @ clock_statuses i) True = Inr status"
    using st by (simp add: transport_status_of_def split: sum.splits)
  from all_passed_worst [OF this] have "status = Passed \<longleftrightarrow>
      (\<forall>o' \<in> set observations. ob_status o' = Passed) \<and> (\<forall>row \<in> set rows. ch_status row = Passed) \<and>
      (\<forall>s \<in> set (clock_statuses i). s = Passed)"
    by (auto simp: ball_Un)
  moreover have "(\<forall>o' \<in> set observations. ob_status o' = Passed) \<longleftrightarrow>
      (\<forall>c \<in> set (ti_channels i). channel_passed spans c)"
    unfolding channel_passed_def spans_def
    using observed_channels(2,3) [OF obs] by (fastforce split: sum.splits)
  moreover have "(\<forall>row \<in> set rows. ch_status row = Passed) \<longleftrightarrow>
      (\<forall>x \<in> set (ti_chains i). chain_established spans (chain_contracts_of i x))"
  proof -
    have one: "ch_status row = Passed \<longleftrightarrow> chain_established spans (chain_contracts_of i x)"
      if "(x, ordered) \<in> set resolved" "chain_document spans (x, ordered) = Inr row" for x ordered row
    proof -
      have "\<forall>c \<in> set ordered. ch_source_domain_id (lt_contract c) \<noteq> ch_destination_domain_id (lt_contract c)"
        using assms(1) r(2) [OF that(1)] by (auto simp: inputs_valid_def)
      from chain_document_facts(7) [OF that(2) spans(2,3) this] resolved_contracts [OF res that(1)]
      show ?thesis by simp
    qed
    have chains: "x \<in> set (ti_chains i) \<longleftrightarrow> (\<exists>ordered. (x, ordered) \<in> set resolved)" for x
      by (force simp flip: r(1))
    note rows_of = document_rows(1,2) [OF rws, folded spans_def]
    show ?thesis
    proof (intro iffI ballI)
      fix x assume passed: "\<forall>row \<in> set rows. ch_status row = Passed" and "x \<in> set (ti_chains i)"
      then obtain ordered where xo: "(x, ordered) \<in> set resolved" using chains by blast
      with rows_of(2) obtain row where "row \<in> set rows" "chain_document spans (x, ordered) = Inr row" by blast
      with one [OF xo] passed show "chain_established spans (chain_contracts_of i x)" by blast
    next
      fix row assume est: "\<forall>x \<in> set (ti_chains i). chain_established spans (chain_contracts_of i x)"
        and "row \<in> set rows"
      then obtain x ordered where xo: "(x, ordered) \<in> set resolved" "chain_document spans (x, ordered) = Inr row"
        using rows_of(1) by blast
      with est chains one [OF xo] show "ch_status row = Passed" by blast
    qed
  qed
  moreover have "(\<forall>s \<in> set (clock_statuses i). s = Passed) \<longleftrightarrow>
      loaded_relation_pair ` set (ti_relations i) = channel_pair ` set (ti_channels i) \<and>
      (\<forall>r \<in> set (ti_relations i). lr_status r = Passed)"
    by (auto simp: clock_statuses_def)
  moreover have "tv_status (tq_verdict d) = status" by (simp add: d transport_document_def)
  ultimately show ?thesis using ok by (simp add: transport_established_def spans(1))
qed

text \<open>
  C9: The verdict of a transport evaluation is passed exactly when the evidence establishes it:
  every channel's delivery, measured from the loaded spans, is within its policy; through every
  causal chain one message path crosses all channels in order, whatever the search remembered;
  and the clock relations cover exactly the channel directions and all passed. The document
  that carries the verdict satisfies the contract's own rules.
\<close>

theorem transport_verdict_iff:
  assumes "inputs_valid i" and "evaluate_transport_qualification i = Inr d"
  shows "(tv_status (tq_verdict d) = Passed \<longleftrightarrow> transport_established i (loaded_spans i)) \<and>
    validate_transport_qualification d = None"
  by (rule verdict_established [OF assms])


section \<open>Examples\<close>

text \<open>A message from domain a to domain b, in one OTLP file for each domain.\<close>

definition example_otlp_span :: "string \<Rightarrow> nat \<Rightarrow> int \<Rightarrow> pb_link list \<Rightarrow> pb_span" where
  "example_otlp_span name key start links = \<lparr>pp_trace_id = replicate 16 1, pp_span_id = replicate 8 key,
     pp_parent_span_id = [], pp_name = name, pp_start = start, pp_end = start + 1000,
     pp_attributes = [\<lparr>kv_key = ''messaging.message.id'', kv_value = String_value ''m''\<rparr>], pp_links = links,
     pp_dropped_attributes = 0, pp_dropped_events = 0, pp_dropped_links = 0\<rparr>"

definition example_transport_request :: "string \<Rightarrow> trace_request" where
  "example_transport_request domain =
     [\<lparr>pr_attributes = [\<lparr>kv_key = ''run.id'', kv_value = String_value ''run''\<rparr>,
         \<lparr>kv_key = ''domain.id'', kv_value = String_value domain\<rparr>],
       pr_scopes = [\<lparr>pc_attributes = [], pc_spans =
         [if domain = ''a'' then example_otlp_span ''send'' 1 1700000000000000000 []
          else example_otlp_span ''recv'' 2 1700000000000500000
            [\<lparr>pl_trace_id = replicate 16 1, pl_span_id = replicate 8 1, pl_attributes = []\<rparr>]]\<rparr>]\<rparr>]"

definition example_reader :: "unit trace_reader" where
  "example_reader = \<lparr>rd_digest = \<lambda>_. ''h'', rd_decode = \<lambda>bs. Some [if bs = [1] then ''a'' else ''b''],
     rd_json = \<lambda>line. Some (JObj [(line, JNull)]),
     rd_protobuf = \<lparr>pb_fields = \<lambda>_ _. None, pb_descriptor = (), pb_parse = \<lambda>v. case v of
       JObj [(domain, _)] \<Rightarrow> Some (example_transport_request domain) | _ \<Rightarrow> None\<rparr>\<rparr>"

definition example_index :: domain_evidence where
  "example_index = (let link = \<lparr>el_artifact_id = ''traces'', el_segment_index = None, el_uri = ''file:///t'',
     el_media_type = ''application/x-ndjson'', el_sha256 = ''h'', el_size_bytes = 1\<rparr> in
     \<lparr>dv_index_sha256 = ''i'', dv_links = [link], dv_trace_link = Some link\<rparr>)"

definition example_relation :: "string \<Rightarrow> string \<Rightarrow> loaded_relation" where
  "example_relation s d = \<lparr>lr_relation_id = ''r'', lr_sha256 = ''s'', lr_run_id = ''run'',
     lr_scenario_sha256 = ''sc'', lr_policy = \<lparr>xp_method = Measured_skew, xp_minimum_samples = Some 2,
       xp_maximum_absolute_skew_ms = Some 1\<rparr>,
     lr_reference = \<lparr>relation_evidence_sha256 = ''h'', relation_method = Measured_skew,
       relation_source_domain_id = s, relation_destination_domain_id = d,
       relation_identity = \<lparr>source_observation_sha256 = [], destination_observation_sha256 = []\<rparr>\<rparr>,
     lr_status = Passed\<rparr>"

definition example_transport_inputs :: "(string \<times> string) list \<Rightarrow> unit transport_inputs" where
  "example_transport_inputs pairs = \<lparr>ti_run_id = ''run'', ti_scenario_sha256 = ''sc'', ti_native_scenario = False,
     ti_clock_policy = Some \<lparr>xp_method = Measured_skew, xp_minimum_samples = Some 2,
       xp_maximum_absolute_skew_ms = Some 1\<rparr>,
     ti_chains = [\<lparr>lx_chain_id = ''x'', lx_sha256 = ''x'', lx_references = map (\<lambda>(s, d). (s @ d, ''c'')) pairs,
       lx_required_domain_ids = [''a'', ''b'']\<rparr>],
     ti_channels = map (\<lambda>(s, d). \<lparr>lt_contract = example_contract s d, lt_sha256 = ''c''\<rparr>) pairs,
     ti_relations = map (\<lambda>(s, d). example_relation s d) pairs,
     ti_trace_domains = [''b'', ''a''], ti_index_domains = [''a'', ''b''],
     ti_indexes = \<lambda>_. Some example_index,
     ti_trace_files = \<lambda>domain. (let n = (if domain = ''a'' then 1 else 2) in
       \<lparr>fr_before = (1, 0, 0), fr_content = [n], fr_after = (1, 0, 0)\<rparr>),
     ti_reader = example_reader, ti_budget = None, ti_evaluated_at = 63850240860000123\<rparr>"

text \<open>Evaluation does not look into the continuation of a step that has not returned.\<close>

lemma and_then_case [code_unfold]: "and_then m f = (case m of Inl e \<Rightarrow> Inl e | Inr x \<Rightarrow> f x)"
  by (cases m) simp_all

lemma with_key_case [code_unfold]: "with_key e v f = (case v of None \<Rightarrow> Some e | Some x \<Rightarrow> f x)"
  by (rule with_key_def)

lemma checked_case [code_unfold]: "checked c m = (case c of None \<Rightarrow> m | Some e \<Rightarrow> Inl e)"
  by (rule checked_def)

text \<open>The document each example builds.\<close>

definition example_hop :: Sem_Transport.hop where
  "example_hop = \<lparr>hop.hp_channel_id = ''ab'', hp_status = Passed, hp_relationship = Sem_Transport.Link,
     hp_producer = \<lparr>sp_domain_id = ''a'', sp_trace_id = ''01010101010101010101010101010101'',
       sp_span_id = ''0101010101010101'', sp_message_id = ''m''\<rparr>,
     hp_consumer = \<lparr>sp_domain_id = ''b'', sp_trace_id = ''01010101010101010101010101010101'',
       sp_span_id = ''0202020202020202'', sp_message_id = ''m''\<rparr>\<rparr>"

definition example_chain_row :: "string list \<Rightarrow> outcome \<Rightarrow> chain_result" where
  "example_chain_row ids status = \<lparr>ch_chain_id = ''x'', ch_channel_ids = ids,
     ch_expected_contract_sha256 = ''x'', ch_hops = [example_hop], ch_status = status,
     ch_trace_ids = [''01010101010101010101010101010101''],
     ch_root_trace_id = ''01010101010101010101010101010101''\<rparr>"

definition example_built :: transport_result where
  "example_built = \<lparr>tq_trace_domains = [''a'', ''b''],
     tq_contracts = [\<lparr>cn_channel_id = ''ab'', cn_source_domain_id = ''a'', cn_destination_domain_id = ''b''\<rparr>],
     tq_clock_relations = [\<lparr>ck_relation_id = ''r'', ck_source_domain_id = ''a'',
       ck_destination_domain_id = ''b'', ck_status = Passed\<rparr>],
     tq_observations = [\<lparr>ob_channel_id = ''ab'', ob_status = Passed\<rparr>],
     tq_chains = [example_chain_row [''ab''] Passed],
     tq_chain_contracts = [\<lparr>xc_chain_id = ''x'', xc_sha256 = ''x''\<rparr>],
     tq_verdict = \<lparr>tv_chain_count = 1, tv_passed_chain_count = 1, tv_failed_chain_count = 0,
       tv_incomplete_chain_count = 0, tv_error_chain_count = 0, tv_status = Passed\<rparr>\<rparr>"

definition example_rejected :: transport_result where
  "example_rejected = \<lparr>tq_trace_domains = [''a'', ''b''],
     tq_contracts = [\<lparr>cn_channel_id = ''ab'', cn_source_domain_id = ''a'', cn_destination_domain_id = ''b''\<rparr>,
       \<lparr>cn_channel_id = ''ba'', cn_source_domain_id = ''b'', cn_destination_domain_id = ''a''\<rparr>],
     tq_clock_relations = [\<lparr>ck_relation_id = ''r'', ck_source_domain_id = ''a'',
         ck_destination_domain_id = ''b'', ck_status = Passed\<rparr>,
       \<lparr>ck_relation_id = ''r'', ck_source_domain_id = ''b'',
         ck_destination_domain_id = ''a'', ck_status = Passed\<rparr>],
     tq_observations = [\<lparr>ob_channel_id = ''ab'', ob_status = Passed\<rparr>,
       \<lparr>ob_channel_id = ''ba'', ob_status = Incomplete\<rparr>],
     tq_chains = [example_chain_row [''ab'', ''ba''] Incomplete],
     tq_chain_contracts = [\<lparr>xc_chain_id = ''x'', xc_sha256 = ''x''\<rparr>],
     tq_verdict = \<lparr>tv_chain_count = 1, tv_passed_chain_count = 0, tv_failed_chain_count = 0,
       tv_incomplete_chain_count = 1, tv_error_chain_count = 0, tv_status = Incomplete\<rparr>\<rparr>"

lemma example_built_eq:
  "build_transport_document (example_transport_inputs [(''a'', ''b'')]) = Inr example_built"
  by code_simp

lemma example_rejected_eq:
  "build_transport_document (example_transport_inputs [(''a'', ''b''), (''b'', ''a'')]) = Inr example_rejected"
  by code_simp

lemma example_built_accepted: "validate_transport_qualification example_built = None"
  by (simp add: validate_transport_qualification_def example_built_def example_chain_row_def example_hop_def
      Let_def unique_by_distinct result_domains_def relation_pair_def contract_pair_def check_chain_def
      check_continuity_def check_passed_chain_def check_hop_domains_def check_hop_spans_def
      hop_trace_ids_def span_key_def dict_by_def validate_verdict_def count_chains_def worst_of_def
      insert_commute)

lemma example_rejected_refused:
  "validate_transport_qualification example_rejected = Some Relation_ids_not_unique"
  by (simp add: validate_transport_qualification_def example_rejected_def Let_def unique_by_distinct
      result_domains_def insert_commute)

lemma example_transport_passes:
  "evaluate_transport_qualification (example_transport_inputs [(''a'', ''b'')]) = Inr example_built"
  by (simp add: evaluate_transport_qualification_def example_built_eq example_built_accepted)

lemma example_inputs_valid:
  "inputs_valid (example_transport_inputs [(''a'', ''b'')])"
  "inputs_valid (example_transport_inputs [(''a'', ''b''), (''b'', ''a'')])"
  by code_simp+

theorem transport_verdict_iff_witness:
  "transport_established (example_transport_inputs [(''a'', ''b'')])
     (loaded_spans (example_transport_inputs [(''a'', ''b'')]))"
  using transport_verdict_iff [OF example_inputs_valid(1) example_transport_passes]
  by (simp add: example_built_def)


end
