(* ===== verification/Aggregation.thy ===== *)
theory Aggregation
  imports Domain_Result Transport_Evaluation Sem_Native Json
begin

text \<open>
  The aggregation of the domain results of one run (harness/aggregate.py, \<open>aggregate_results\<close>):
  the registry of results is bound to the run context and the scenario, results of native
  scenarios are compared with the declarations and with each other, and the statuses are combined
  with the transport verdict into the aggregate document. The documents are what
  \<open>load_document\<close> returns; the digests of the files, read once more before the document is
  written, are arguments.
\<close>

section \<open>Documents\<close>

datatype scenario_version = Scenario_v1 | Scenario_v2

datatype result_version = Result_v1 | Result_v2 | Result_v3

record run_authority =
  at_kind :: string
  at_source_id :: string

record run_context =
  rx_sha256 :: string
  rx_run_id :: string
  rx_scenario_id :: string
  rx_scenario_sha256 :: string
  rx_created_at :: string
  rx_domains :: "string list"
  rx_authority :: run_authority

text \<open>The declarations of a native scenario; \<open>execution\<close> and \<open>profile\<close> are compared as JSON.\<close>

record native_declarations =
  nd_execution :: json
  nd_profile :: json
  nd_native_model :: "artifact_reference option"

record loaded_scenario =
  sx_sha256 :: string
  sx_scenario_id :: string
  sx_version :: scenario_version
  sx_native :: "native_declarations option"

record calibration =
  cb_state :: "string option"
  cb_artifacts :: "artifact_reference list option"

record assessment =
  sm_started_at :: string
  sm_finished_at :: string
  sm_calibration :: "calibration option"
  sm_implementation :: string
  sm_version :: string
  sm_configuration :: artifact_reference
  sm_environment :: artifact_reference

record native_body =
  nb_declarations :: native_declarations
  nb_evaluators :: json
  nb_run_sha256 :: string
  nb_started_at :: string
  nb_finished_at :: string
  nb_assessment :: assessment

text \<open>The keys of one result version only are options; a missing one raises a KeyError.\<close>

record loaded_result =
  gr_sha256 :: string
  gr_version :: result_version
  gr_run_id :: string
  gr_scenario_id :: string
  gr_scenario_sha256 :: string
  gr_domain_id :: string
  gr_result_id :: string
  gr_status :: outcome
  gr_time_source_id :: "string option"
  gr_native :: "native_body option"

record loaded_qualification =
  lq_sha256 :: string
  lq_qualification_id :: string
  lq_run_id :: string
  lq_scenario_sha256 :: string
  lq_document :: transport_result

record aggregation_inputs =
  ax_scenario :: loaded_scenario
  ax_context :: run_context
  ax_results :: "loaded_result list"
  ax_qualification :: "loaded_qualification option"
  ax_generated_at :: int
  ax_context_digest :: string
  ax_result_digests :: "string list"
  ax_qualification_digest :: string

datatype aggregation_error =
    Context_of_another_scenario
  | No_domain_results
  | Registry_versions_mixed
  | Qualification_of_native_scenario
  | Domain_results_repeated
  | Domain_registry_mismatch
  | Result_ids_repeated
  | Result_of_another_run
  | Result_of_another_scenario
  | Result_scenario_digest_differs
  | Result_time_authority_differs
  | Execution_differs
  | Profile_differs
  | Native_model_differs
  | Profile_clock_differs
  | Evaluators_mixed
  | Calibrations_mixed
  | Methods_mixed
  | Configurations_mixed
  | Environments_mixed
  | Original_run_differs
  | Times_not_ordered
  | Aggregate_before_assessment
  | Aggregation_bad_time string
  | Aggregation_key_missing string
  | Aggregation_no_status
  | Qualification_of_another_run
  | Qualification_of_another_scenario
  | Qualification_domains_differ
  | Context_changed
  | Result_changed nat
  | Qualification_changed
  | Aggregate_rejected aggregate_error

section \<open>The registry\<close>

text \<open>\<open>_validate_registry_version\<close>: the schema versions present must be one expected version.\<close>

definition validate_registry_version :: "aggregation_inputs \<Rightarrow> aggregation_error + bool" where
  "validate_registry_version a =
     (let native = (sx_version (ax_scenario a) = Scenario_v2);
          expected = (if native then {Result_v2, Result_v3} else {Result_v1});
          actual = gr_version ` set (ax_results a) in
      checked (first_error
        [require (\<not> (card actual \<noteq> 1 \<or> \<not> actual \<subseteq> expected)) Registry_versions_mixed,
         require (\<not> (native \<and> ax_qualification a \<noteq> None)) Qualification_of_native_scenario])
      (Inr native))"

section \<open>Results of native scenarios\<close>

definition reference_identity :: "artifact_reference option \<Rightarrow> (string \<times> int) option" where
  "reference_identity = map_option (\<lambda>r. (af_sha256 r, af_size_bytes r))"

text \<open>\<open>profile.get("clock")\<close>; comparing its fields needs an object that has them.\<close>

definition profile_clock :: "json \<Rightarrow> json option" where
  "profile_clock profile = (case profile of JObj ms \<Rightarrow> map_of ms ''clock'' | _ \<Rightarrow> None)"

definition clock_field :: "json \<Rightarrow> string \<Rightarrow> json option" where
  "clock_field clock field = (case clock of JObj ms \<Rightarrow> map_of ms field | _ \<Rightarrow> None)"

definition check_profile_clock :: "run_authority \<Rightarrow> json \<Rightarrow> aggregation_error option" where
  "check_profile_clock authority profile =
     (case profile_clock profile of None \<Rightarrow> None
      | Some clock \<Rightarrow>
          with_key (Aggregation_key_missing ''kind'') (clock_field clock ''kind'') (\<lambda>kind.
          if \<not> py_eq kind (JStr (at_kind authority)) then Some Profile_clock_differs
          else with_key (Aggregation_key_missing ''source_id'') (clock_field clock ''source_id'') (\<lambda>source_id.
            require (py_eq source_id (JStr (at_source_id authority))) Profile_clock_differs)))"

definition validate_native_declarations ::
  "native_declarations \<Rightarrow> run_context \<Rightarrow> native_body \<Rightarrow> aggregation_error option" where
  "validate_native_declarations declared context body =
     (let d = nb_declarations body in first_error
       [require (py_eq (nd_execution d) (nd_execution declared)) Execution_differs,
        require (py_eq (nd_profile d) (nd_profile declared)) Profile_differs,
        require (reference_identity (nd_native_model d) = reference_identity (nd_native_model declared))
          Native_model_differs,
        check_profile_clock (rx_authority context) (nd_profile declared)])"

definition calibration_identity :: "assessment \<Rightarrow> string \<times> (string \<times> int) list" where
  "calibration_identity s =
     (case Option.bind (sm_calibration s) cb_state of None \<Rightarrow> ''unobserved'' | Some state \<Rightarrow> state,
      sort (map (\<lambda>r. (af_sha256 r, af_size_bytes r))
        (case Option.bind (sm_calibration s) cb_artifacts of None \<Rightarrow> [] | Some rs \<Rightarrow> rs)))"

definition validate_native_assessment :: "native_body \<Rightarrow> native_body \<Rightarrow> aggregation_error option" where
  "validate_native_assessment body first =
     (let s = nb_assessment body; baseline = nb_assessment first in first_error
       [require (py_eq (nb_evaluators body) (nb_evaluators first)) Evaluators_mixed,
        require (calibration_identity s = calibration_identity baseline) Calibrations_mixed,
        require (sm_implementation s = sm_implementation baseline) Methods_mixed,
        require (sm_version s = sm_version baseline) Methods_mixed,
        require (reference_identity (Some (sm_configuration s))
          = reference_identity (Some (sm_configuration baseline))) Configurations_mixed,
        require (reference_identity (Some (sm_environment s))
          = reference_identity (Some (sm_environment baseline))) Environments_mixed])"

definition read_time :: "string \<Rightarrow> aggregation_error + int" where
  "read_time text = (case parse_timestamp_ns text of
     None \<Rightarrow> Inl (Aggregation_bad_time text) | Some t \<Rightarrow> Inr t)"

definition native_times :: "run_context \<Rightarrow> native_body \<Rightarrow> string list" where
  "native_times context body =
     [rx_created_at context, nb_started_at body, nb_finished_at body,
      sm_started_at (nb_assessment body), sm_finished_at (nb_assessment body)]"

definition check_native_times :: "run_context \<Rightarrow> native_body \<Rightarrow> aggregation_error option" where
  "check_native_times context body =
     (case map_res read_time (native_times context body) of
        Inl e \<Rightarrow> Some e
      | Inr instants \<Rightarrow> require (instants = sort instants) Times_not_ordered)"

definition validate_native_body ::
  "native_declarations \<Rightarrow> run_context \<Rightarrow> native_body \<Rightarrow> native_body \<Rightarrow> aggregation_error option" where
  "validate_native_body declared context first body = first_error
     [validate_native_declarations declared context body,
      validate_native_assessment body first,
      require (nb_run_sha256 body = rx_sha256 context) Original_run_differs,
      check_native_times context body]"

definition check_native_result :: "aggregation_inputs \<Rightarrow> loaded_result \<Rightarrow> aggregation_error option" where
  "check_native_result a r =
     with_key (Aggregation_key_missing ''execution'') (gr_native r) (\<lambda>body.
     with_key (Aggregation_key_missing ''execution'') (sx_native (ax_scenario a)) (\<lambda>declared.
     with_key (Aggregation_key_missing ''evaluation'') (gr_native (hd (ax_results a))) (\<lambda>first.
       validate_native_body declared (ax_context a) first body)))"

section \<open>Every result against the run\<close>

definition validate_result_binding ::
  "aggregation_inputs \<Rightarrow> bool \<Rightarrow> loaded_result \<Rightarrow> aggregation_error option" where
  "validate_result_binding a native r =
     (let context = ax_context a in first_error
       [require (gr_run_id r = rx_run_id context) Result_of_another_run,
        require (gr_scenario_id r = rx_scenario_id context) Result_of_another_scenario,
        require (gr_scenario_sha256 r = rx_scenario_sha256 context) Result_scenario_digest_differs,
        if native then check_native_result a r
        else with_key (Aggregation_key_missing ''time_authority_observation'') (gr_time_source_id r)
          (\<lambda>source_id. require (source_id = at_source_id (rx_authority context))
             Result_time_authority_differs)])"

text \<open>\<open>aggregate_time.isoformat()\<close> of an instant in UTC.\<close>

definition isoformat_utc :: "int \<Rightarrow> string" where
  "isoformat_utc t = butlast (format_utc_datetime t) @ ''+00:00''"

definition check_generated_at :: "int \<Rightarrow> loaded_result \<Rightarrow> aggregation_error option" where
  "check_generated_at generated_at r =
     with_key (Aggregation_key_missing ''evaluation'') (gr_native r) (\<lambda>body.
       case (read_time (sm_finished_at (nb_assessment body)), read_time (isoformat_utc generated_at)) of
         (Inl e, _) \<Rightarrow> Some e
       | (_, Inl e) \<Rightarrow> Some e
       | (Inr finished, Inr aggregated) \<Rightarrow> require (\<not> aggregated < finished) Aggregate_before_assessment)"

definition validate_aggregation_results ::
  "aggregation_inputs \<Rightarrow> bool \<Rightarrow> aggregation_error option" where
  "validate_aggregation_results a native = first_error
     [each (\<lambda>_. validate_result_binding a native) (ax_results a),
      when_check native (each (\<lambda>_. check_generated_at (ax_generated_at a)) (ax_results a))]"

section \<open>The aggregate\<close>

definition qualification_domains :: "loaded_qualification \<Rightarrow> string set" where
  "qualification_domains q = set (tq_trace_domains (lq_document q))"

definition cross_domain_of ::
  "aggregation_inputs \<Rightarrow> outcome \<Rightarrow> aggregation_error + cross_domain" where
  "cross_domain_of a status =
     (case ax_qualification a of
        None \<Rightarrow> Inr Unevaluated_transport
      | Some q \<Rightarrow> checked (first_error
          [require (lq_run_id q = rx_run_id (ax_context a)) Qualification_of_another_run,
           require (lq_scenario_sha256 q = sx_sha256 (ax_scenario a)) Qualification_of_another_scenario,
           require (qualification_domains q = set (rx_domains (ax_context a))) Qualification_domains_differ])
          (let qualified = tv_status (tq_verdict (lq_document q)) in
           case worst_of [status, qualified] True of
             Inl _ \<Rightarrow> Inl Aggregation_no_status
           | Inr s \<Rightarrow> Inr (Evaluated_transport s qualified)))"

record aggregate_document = acceptance_aggregate +
  gd_run_id :: string
  gd_acceptance_run_sha256 :: string
  gd_generated_at :: string
  gd_result_sha256 :: "string list"
  gd_qualification :: "(string \<times> string) option"

definition aggregate_row :: "loaded_result \<Rightarrow> domain_row" where
  "aggregate_row r = \<lparr>dr_domain_id = gr_domain_id r, dr_result_id = gr_result_id r, dr_status = gr_status r\<rparr>"

definition aggregate_document_of ::
  "aggregation_inputs \<Rightarrow> outcome \<Rightarrow> cross_domain \<Rightarrow> aggregate_document" where
  "aggregate_document_of a status cross =
     (let results = sort_key gr_domain_id (ax_results a) in
      \<lparr>ag_per_domain_results = map aggregate_row results, ag_per_domain_aggregate = status,
       ag_cross_domain = cross, gd_run_id = rx_run_id (ax_context a),
       gd_acceptance_run_sha256 = rx_sha256 (ax_context a),
       gd_generated_at = format_utc_datetime (ax_generated_at a),
       gd_result_sha256 = map gr_sha256 results,
       gd_qualification = map_option (\<lambda>q. (lq_qualification_id q, lq_sha256 q)) (ax_qualification a)\<rparr>)"

text \<open>Files that changed since they were loaded.\<close>

definition check_unchanged :: "aggregation_inputs \<Rightarrow> aggregation_error option" where
  "check_unchanged a = first_error
     [require (ax_context_digest a = rx_sha256 (ax_context a)) Context_changed,
      each (\<lambda>i (digest, r). require (digest = gr_sha256 r) (Result_changed i))
        (zip (ax_result_digests a) (ax_results a)),
      (case ax_qualification a of None \<Rightarrow> None
       | Some q \<Rightarrow> require (ax_qualification_digest a = lq_sha256 q) Qualification_changed)]"

definition aggregate_status_of :: "aggregation_inputs \<Rightarrow> aggregation_error + outcome" where
  "aggregate_status_of a = (case worst_of (map gr_status (ax_results a)) False of
     Inl _ \<Rightarrow> Inl Aggregation_no_status | Inr s \<Rightarrow> Inr s)"

definition build_aggregate :: "aggregation_inputs \<Rightarrow> aggregation_error + aggregate_document" where
  "build_aggregate a =
     checked (first_error
       [require (\<not> (rx_scenario_id (ax_context a) \<noteq> sx_scenario_id (ax_scenario a)
                  \<or> rx_scenario_sha256 (ax_context a) \<noteq> sx_sha256 (ax_scenario a)))
          Context_of_another_scenario,
        require (ax_results a \<noteq> []) No_domain_results])
     (and_then (validate_registry_version a) (\<lambda>native.
      checked (first_error
        [require (unique_by gr_domain_id (ax_results a)) Domain_results_repeated,
         require (gr_domain_id ` set (ax_results a) = set (rx_domains (ax_context a)))
           Domain_registry_mismatch,
         require (unique_by gr_result_id (ax_results a)) Result_ids_repeated,
         validate_aggregation_results a native])
      (and_then (aggregate_status_of a) (\<lambda>status.
       and_then (cross_domain_of a status) (\<lambda>cross.
         checked (check_unchanged a) (Inr (aggregate_document_of a status cross)))))))"

text \<open>\<open>write_contract_json\<close> validates the document before it is written.\<close>

definition aggregate_results :: "aggregation_inputs \<Rightarrow> aggregation_error + aggregate_document" where
  "aggregate_results a =
     and_then (build_aggregate a) (\<lambda>d.
       checked (map_option Aggregate_rejected
         (validate_acceptance_aggregate (acceptance_aggregate.truncate d))) (Inr d))"


section \<open>What is built is accepted\<close>

lemma worst_of_set:
  assumes "set ss = set ts"
  shows "worst_of ss False = worst_of ts False"
proof (cases "ss = []")
  case True
  with assms show ?thesis by simp
next
  case False
  with assms have "ts \<noteq> []" by auto
  with False assms show ?thesis by (simp add: worst_of_worst worst_Max)
qed

lemma built_aggregate_parts:
  assumes "build_aggregate a = Inr d"
  obtains native status cross where
    "rx_scenario_sha256 (ax_context a) = sx_sha256 (ax_scenario a)" "ax_results a \<noteq> []"
    "validate_registry_version a = Inr native" "unique_by gr_domain_id (ax_results a)"
    "gr_domain_id ` set (ax_results a) = set (rx_domains (ax_context a))"
    "unique_by gr_result_id (ax_results a)" "validate_aggregation_results a native = None"
    "worst_of (map gr_status (ax_results a)) False = Inr status" "cross_domain_of a status = Inr cross"
    "check_unchanged a = None" "d = aggregate_document_of a status cross"
proof -
  obtain native status cross where
    "rx_scenario_sha256 (ax_context a) = sx_sha256 (ax_scenario a)" "ax_results a \<noteq> []"
    "validate_registry_version a = Inr native" "unique_by gr_domain_id (ax_results a)"
    "gr_domain_id ` set (ax_results a) = set (rx_domains (ax_context a))"
    "unique_by gr_result_id (ax_results a)" "validate_aggregation_results a native = None"
    "aggregate_status_of a = Inr status" "cross_domain_of a status = Inr cross"
    "check_unchanged a = None" "d = aggregate_document_of a status cross"
    using assms unfolding build_aggregate_def
    by (auto simp only: checked_Inr and_then_Inr first_error_Cons_None require_None de_Morgan_disj
        not_not sum.inject)
  then show ?thesis
    by (intro that [of native status cross]) (simp_all add: aggregate_status_of_def split: sum.splits)
qed

lemma cross_domain_cases:
  assumes "cross_domain_of a status = Inr cross"
  shows "case ax_qualification a of
      None \<Rightarrow> cross = Unevaluated_transport
    | Some q \<Rightarrow> lq_run_id q = rx_run_id (ax_context a) \<and>
        lq_scenario_sha256 q = sx_sha256 (ax_scenario a) \<and>
        qualification_domains q = set (rx_domains (ax_context a)) \<and>
        (\<exists>s. worst_of [status, tv_status (tq_verdict (lq_document q))] True = Inr s \<and>
           cross = Evaluated_transport s (tv_status (tq_verdict (lq_document q))))"
  using assms
  by (auto simp: cross_domain_of_def checked_Inr Let_def split: option.splits sum.splits)

lemma built_aggregate_accepted:
  assumes "build_aggregate a = Inr d"
  shows "validate_acceptance_aggregate (acceptance_aggregate.truncate d) = None"
proof -
  obtain native status cross where p: "ax_results a \<noteq> []" "unique_by gr_domain_id (ax_results a)"
    "unique_by gr_result_id (ax_results a)" "worst_of (map gr_status (ax_results a)) False = Inr status"
    "cross_domain_of a status = Inr cross" and d: "d = aggregate_document_of a status cross"
    using built_aggregate_parts [OF assms] by metis
  define rows where "rows = map aggregate_row (sort_key gr_domain_id (ax_results a))"
  have doc: "acceptance_aggregate.truncate d =
      \<lparr>ag_per_domain_results = rows, ag_per_domain_aggregate = status, ag_cross_domain = cross\<rparr>"
    by (simp add: d aggregate_document_of_def acceptance_aggregate.truncate_def rows_def Let_def)
  have rows: "dr_domain_id \<circ> aggregate_row = gr_domain_id" "dr_result_id \<circ> aggregate_row = gr_result_id"
    "dr_status \<circ> aggregate_row = gr_status"
    by (auto simp: aggregate_row_def)
  have "unique_by dr_domain_id rows" "unique_by dr_result_id rows"
    using p(2,3) by (simp_all add: unique_by_distinct rows_def rows distinct_map)
  moreover have "worst_of (map dr_status rows) False = Inr status"
    using worst_of_set [of "map dr_status rows" "map gr_status (ax_results a)"] p(4)
    by (simp add: rows_def rows image_image flip: image_comp)
  moreover have "case cross of Unevaluated_transport \<Rightarrow> True
      | Evaluated_transport s q \<Rightarrow> Inr s = worst_of [status, q] True"
    using cross_domain_cases [OF p(5)] by (auto split: option.splits cross_domain.splits)
  ultimately show ?thesis
    by (simp add: doc validate_acceptance_aggregate_def split: cross_domain.splits)
qed

text \<open>
  C13: The aggregator never writes, and never has to refuse, an inconsistent aggregate: whatever
  results and transport verdict it is given, the document it builds satisfies the contract's own
  rules, so the validation on writing changes no outcome.
\<close>

theorem aggregate_never_rejected: "aggregate_results a = build_aggregate a"
proof (cases "build_aggregate a")
  case (Inr d)
  with built_aggregate_accepted [OF this] show ?thesis by (simp add: aggregate_results_def)
qed (simp add: aggregate_results_def)


section \<open>One native assessment for all domains\<close>

text \<open>The instants of a native result, in the order of the run, up to the aggregation.\<close>

definition one_timeline :: "run_context \<Rightarrow> native_body \<Rightarrow> int \<Rightarrow> bool" where
  "one_timeline context body aggregated \<longleftrightarrow>
     (\<exists>instants. list_all2 (\<lambda>text t. parse_timestamp_ns text = Some t) (native_times context body) instants \<and>
        sorted (instants @ [aggregated]))"

definition same_assessment :: "native_body \<Rightarrow> native_body \<Rightarrow> bool" where
  "same_assessment body first \<longleftrightarrow>
     (let s = nb_assessment body; t = nb_assessment first in
      py_eq (nb_evaluators body) (nb_evaluators first) \<and>
      calibration_identity s = calibration_identity t \<and>
      (sm_implementation s, sm_version s) = (sm_implementation t, sm_version t) \<and>
      reference_identity (Some (sm_configuration s)) = reference_identity (Some (sm_configuration t)) \<and>
      reference_identity (Some (sm_environment s)) = reference_identity (Some (sm_environment t)))"

definition as_declared :: "native_declarations \<Rightarrow> native_body \<Rightarrow> bool" where
  "as_declared declared body \<longleftrightarrow>
     py_eq (nd_execution (nb_declarations body)) (nd_execution declared) \<and>
     py_eq (nd_profile (nb_declarations body)) (nd_profile declared) \<and>
     reference_identity (nd_native_model (nb_declarations body)) = reference_identity (nd_native_model declared)"

definition native_registry_uniform :: "aggregation_inputs \<Rightarrow> bool" where
  "native_registry_uniform a \<longleftrightarrow>
     (\<exists>declared first aggregated. sx_native (ax_scenario a) = Some declared \<and>
        gr_native (hd (ax_results a)) = Some first \<and>
        parse_timestamp_ns (isoformat_utc (ax_generated_at a)) = Some aggregated \<and>
        (\<forall>r \<in> set (ax_results a). \<exists>body. gr_native r = Some body \<and>
           gr_version r = gr_version (hd (ax_results a)) \<and> nb_run_sha256 body = rx_sha256 (ax_context a) \<and>
           as_declared declared body \<and> same_assessment body first \<and>
           one_timeline (ax_context a) body aggregated))"

lemma read_time_Inr [simp]: "read_time text = Inr t \<longleftrightarrow> parse_timestamp_ns text = Some t"
  by (simp add: read_time_def split: option.splits)

lemma native_body_accepts:
  assumes "validate_native_body declared context first body = None"
  shows "as_declared declared body" "same_assessment body first" "nb_run_sha256 body = rx_sha256 context"
    and "\<exists>instants. list_all2 (\<lambda>text t. parse_timestamp_ns text = Some t) (native_times context body) instants \<and>
      sorted instants"
proof -
  have d: "validate_native_declarations declared context body = None"
    and s: "validate_native_assessment body first = None"
    and run: "nb_run_sha256 body = rx_sha256 context"
    and t: "check_native_times context body = None"
    using assms by (simp_all add: validate_native_body_def)
  show "as_declared declared body" using d by (simp add: validate_native_declarations_def as_declared_def Let_def)
  show "same_assessment body first" using s by (simp add: validate_native_assessment_def same_assessment_def Let_def)
  show "nb_run_sha256 body = rx_sha256 context" by (rule run)
  obtain instants where "map_res read_time (native_times context body) = Inr instants" "instants = sort instants"
    using t by (auto simp: check_native_times_def split: sum.splits)
  then have "list_all2 (\<lambda>text t. parse_timestamp_ns text = Some t) (native_times context body) instants"
    "sorted instants"
    by (simp_all only: map_res_Inr read_time_Inr) (metis sorted_sort)
  then show "\<exists>instants. list_all2 (\<lambda>text t. parse_timestamp_ns text = Some t) (native_times context body) instants \<and>
      sorted instants" by blast
qed

lemma timeline_extended:
  assumes "list_all2 (\<lambda>text t. parse_timestamp_ns text = Some t) (native_times context body) instants"
    and "sorted instants" and "check_generated_at generated_at r = None" "gr_native r = Some body"
  obtains aggregated where "parse_timestamp_ns (isoformat_utc generated_at) = Some aggregated"
    "one_timeline context body aggregated"
proof -
  obtain finished aggregated where f: "parse_timestamp_ns (sm_finished_at (nb_assessment body)) = Some finished"
    "parse_timestamp_ns (isoformat_utc generated_at) = Some aggregated" "finished \<le> aggregated"
    using assms(3,4) by (auto simp: check_generated_at_def not_less simp flip: read_time_Inr split: sum.splits)
  obtain t0 t1 t2 t3 where "instants = [t0, t1, t2, t3, finished]"
    using assms(1) f(1) by (auto simp: native_times_def list_all2_Cons1)
  with assms(2) f(3) have "sorted (instants @ [aggregated])" by auto
  with assms(1) f(2) that show ?thesis by (auto simp: one_timeline_def)
qed

lemma registry_version:
  assumes "validate_registry_version a = Inr native" "r \<in> set (ax_results a)" "r' \<in> set (ax_results a)"
  shows "gr_version r = gr_version r'" "native \<longleftrightarrow> sx_version (ax_scenario a) = Scenario_v2"
proof -
  have c: "card (gr_version ` set (ax_results a)) = 1"
    and n: "native \<longleftrightarrow> sx_version (ax_scenario a) = Scenario_v2"
    using assms(1) by (auto simp: validate_registry_version_def Let_def checked_Inr)
  from c obtain v where "gr_version ` set (ax_results a) = {v}" by (auto simp: card_1_singleton_iff)
  then have "gr_version r \<in> {v}" "gr_version r' \<in> {v}" using assms(2,3) by (metis imageI)+
  then show "gr_version r = gr_version r'" by simp
  show "native \<longleftrightarrow> sx_version (ax_scenario a) = Scenario_v2" by (rule n)
qed

text \<open>
  C12: When the results of a native scenario are aggregated, they were all assessed by the same
  evaluators with the same calibration, method, configuration and environment, declare what
  the scenario declares, belong to the run whose digest the context has, and each result's
  instants run in order from the creation of the run to the aggregation.
\<close>

theorem native_aggregate_uniform:
  assumes "aggregate_results a = Inr d" and "sx_version (ax_scenario a) = Scenario_v2"
  shows "native_registry_uniform a"
proof -
  have "build_aggregate a = Inr d" using assms(1) by (auto simp: aggregate_results_def checked_Inr)
  then obtain native where ne: "ax_results a \<noteq> []" and v: "validate_registry_version a = Inr native"
    and results: "validate_aggregation_results a native = None"
    by (rule built_aggregate_parts)
  have first_in: "hd (ax_results a) \<in> set (ax_results a)" using ne by simp
  have native: "native" using registry_version(2) [OF v first_in first_in] assms(2) by simp
  have checks: "check_native_result a r = None" "check_generated_at (ax_generated_at a) r = None"
    if "r \<in> set (ax_results a)" for r
    using results native that
    by (simp_all add: validate_aggregation_results_def validate_result_binding_def Let_def each_from_None_all)
  obtain declared first where decl: "sx_native (ax_scenario a) = Some declared"
    "gr_native (hd (ax_results a)) = Some first"
    using checks(1) [OF first_in] by (auto simp: check_native_result_def)
  have one: "\<exists>body. gr_native r = Some body \<and> validate_native_body declared (ax_context a) first body = None"
    if "r \<in> set (ax_results a)" for r
    using checks(1) [OF that] decl by (auto simp: check_native_result_def)
  have time: "\<exists>aggregated. parse_timestamp_ns (isoformat_utc (ax_generated_at a)) = Some aggregated \<and>
      one_timeline (ax_context a) body aggregated"
    if "r \<in> set (ax_results a)" "gr_native r = Some body"
      "validate_native_body declared (ax_context a) first body = None" for r body
    using native_body_accepts(4) [OF that(3)] timeline_extended [OF _ _ checks(2) [OF that(1)] that(2)] by metis
  obtain aggregated where agg: "parse_timestamp_ns (isoformat_utc (ax_generated_at a)) = Some aggregated"
    using one [OF first_in] time [OF first_in] by blast
  have "\<exists>body. gr_native r = Some body \<and> gr_version r = gr_version (hd (ax_results a)) \<and>
      nb_run_sha256 body = rx_sha256 (ax_context a) \<and> as_declared declared body \<and>
      same_assessment body first \<and> one_timeline (ax_context a) body aggregated"
    if r: "r \<in> set (ax_results a)" for r
  proof -
    obtain body where b: "gr_native r = Some body" "validate_native_body declared (ax_context a) first body = None"
      using one [OF r] by blast
    with time [OF r] agg have "one_timeline (ax_context a) body aggregated" by fastforce
    with b native_body_accepts(1-3) [OF b(2)] registry_version(1) [OF v r first_in] show ?thesis by blast
  qed
  with decl agg show ?thesis unfolding native_registry_uniform_def by blast
qed


section \<open>From recorded evidence to the aggregate\<close>

text \<open>The evidence behind a domain result, and behind the transport qualification.\<close>

record domain_run =
  dn_record :: run_record
  dn_events :: "rat list list"
  dn_inputs :: result_inputs

definition result_of_run :: "loaded_result \<Rightarrow> domain_run \<Rightarrow> bool" where
  "result_of_run r n \<longleftrightarrow>
     (\<exists>d. build_acceptance_result (dn_inputs n) = Inr d \<and> rs_status d = gr_status r) \<and>
     inputs_of_run (dn_record n) (dn_inputs n) \<and>
     latency_events (rr_points (dn_record n)) (rr_context (dn_record n)) (dn_events n)"

definition qualification_of :: "'d transport_inputs \<Rightarrow> loaded_qualification \<Rightarrow> bool" where
  "qualification_of t q \<longleftrightarrow> inputs_valid t \<and> evaluate_transport_qualification t = Inr (lq_document q) \<and>
     lq_run_id q = ti_run_id t \<and> lq_scenario_sha256 q = ti_scenario_sha256 t"

definition run_established ::
  "aggregation_inputs \<Rightarrow> (string \<Rightarrow> domain_run) \<Rightarrow> 'd transport_inputs \<Rightarrow> bool" where
  "run_established a runs t \<longleftrightarrow>
     transport_established t (loaded_spans t) \<and> ti_run_id t = rx_run_id (ax_context a) \<and>
     set (ti_trace_domains t) = set (rx_domains (ax_context a)) \<and>
     (\<forall>domain \<in> set (rx_domains (ax_context a)). \<exists>r \<in> set (ax_results a).
        gr_domain_id r = domain \<and> gr_status r = Passed \<and>
        run_is_sound (dn_record (runs domain)) (dn_events (runs domain))
          (is_physical (ri_scenario_environment (dn_inputs (runs domain)))))"

lemma passed_cross_domain:
  assumes "aggregate_results a = Inr d" and "ag_cross_domain d = Evaluated_transport Passed q"
  obtains lq where "ax_qualification a = Some lq" "lq_run_id lq = rx_run_id (ax_context a)"
    "qualification_domains lq = set (rx_domains (ax_context a))"
    "tv_status (tq_verdict (lq_document lq)) = Passed" "\<forall>r \<in> set (ax_results a). gr_status r = Passed"
    "gr_domain_id ` set (ax_results a) = set (rx_domains (ax_context a))"
proof -
  have "build_aggregate a = Inr d" using assms(1) by (auto simp: aggregate_results_def checked_Inr)
  then obtain native status cross where p: "ax_results a \<noteq> []"
    "gr_domain_id ` set (ax_results a) = set (rx_domains (ax_context a))"
    "worst_of (map gr_status (ax_results a)) False = Inr status" "cross_domain_of a status = Inr cross"
    and d: "d = aggregate_document_of a status cross"
    by (rule built_aggregate_parts)
  have cross: "cross = Evaluated_transport Passed q"
    using assms(2) by (simp add: d aggregate_document_of_def Let_def)
  then obtain lq where lq: "ax_qualification a = Some lq" "lq_run_id lq = rx_run_id (ax_context a)"
    "qualification_domains lq = set (rx_domains (ax_context a))"
    "worst_of [status, tv_status (tq_verdict (lq_document lq))] True = Inr Passed"
    using cross_domain_cases [OF p(4)] by (auto split: option.splits)
  from all_passed_worst [OF lq(4)] have passed: "status = Passed" "tv_status (tq_verdict (lq_document lq)) = Passed"
    by auto
  have "worst (map gr_status (ax_results a)) = Passed"
    using p(1,3) passed(1) by (simp add: worst_of_worst)
  then have "gr_status r \<le> Passed" if "r \<in> set (ax_results a)" for r
    using worst_ge [of "gr_status r" "map gr_status (ax_results a)"] that by auto
  then have "\<forall>r \<in> set (ax_results a). gr_status r = Passed" by simp
  from that [OF lq(1-3) passed(2) this p(2)] show ?thesis .
qed

lemma qualification_trace_domains:
  assumes "qualification_of t q"
  shows "qualification_domains q = set (ti_trace_domains t)"
proof -
  have "build_transport_document t = Inr (lq_document q)"
    using assms by (auto simp: qualification_of_def evaluate_transport_qualification_def checked_Inr)
  then obtain domains observations rows status where "load_domains t = Inr domains"
    "lq_document q = transport_document t domains observations rows status"
    using built_parts [of t "lq_document q"] by metis
  with loaded_domains(1) show ?thesis
    by (fastforce simp: qualification_domains_def transport_document_def)
qed

text \<open>
  C1: End to end: when the aggregate of a run reports a passed cross-domain verdict, the loaded
  traces establish every channel, every causal chain and every clock relation of exactly the
  domains of the run, and for every domain the recorded evidence is within policy: its
  latencies, its graph and, on physical targets, its hardware clock.
\<close>

theorem passed_aggregate_end_to_end:
  assumes "aggregate_results a = Inr d" and "ag_cross_domain d = Evaluated_transport Passed q"
    and "ax_qualification a = Some lq" and "qualification_of t lq"
    and "\<forall>r \<in> set (ax_results a). result_of_run r (runs (gr_domain_id r))"
  shows "run_established a runs t"
proof -
  have c: "lq_run_id lq = rx_run_id (ax_context a)" "qualification_domains lq = set (rx_domains (ax_context a))"
    "tv_status (tq_verdict (lq_document lq)) = Passed" "\<forall>r \<in> set (ax_results a). gr_status r = Passed"
    "gr_domain_id ` set (ax_results a) = set (rx_domains (ax_context a))"
    using passed_cross_domain [OF assms(1,2)] assms(3) by (metis option.inject)+
  have t: "inputs_valid t" "evaluate_transport_qualification t = Inr (lq_document lq)"
    "lq_run_id lq = ti_run_id t"
    using assms(4) by (simp_all add: qualification_of_def)
  have "transport_established t (loaded_spans t)"
    using verdict_established [OF t(1,2)] c(3) by simp
  moreover have "set (ti_trace_domains t) = set (rx_domains (ax_context a))"
    using qualification_trace_domains [OF assms(4)] c(2) by simp
  moreover have "run_is_sound (dn_record (runs (gr_domain_id r))) (dn_events (runs (gr_domain_id r)))
      (is_physical (ri_scenario_environment (dn_inputs (runs (gr_domain_id r)))))"
    if r: "r \<in> set (ax_results a)" for r
  proof -
    from r assms(5) obtain d' where "build_acceptance_result (dn_inputs (runs (gr_domain_id r))) = Inr d'"
      "rs_status d' = gr_status r" "inputs_of_run (dn_record (runs (gr_domain_id r))) (dn_inputs (runs (gr_domain_id r)))"
      "latency_events (rr_points (dn_record (runs (gr_domain_id r)))) (rr_context (dn_record (runs (gr_domain_id r))))
        (dn_events (runs (gr_domain_id r)))"
      by (auto simp: result_of_run_def)
    with run_sound [OF this(1) _ this(3,4)] c(4) r show ?thesis by simp
  qed
  moreover have "\<exists>r \<in> set (ax_results a). gr_domain_id r = domain" if "domain \<in> set (rx_domains (ax_context a))"
    for domain
    using that c(5) by (metis imageE)
  ultimately show ?thesis using c(1,4) t(3) unfolding run_established_def by metis
qed


section \<open>Examples\<close>

text \<open>Two domains with the transport example between them, each with the example run.\<close>

definition example_result :: "string \<Rightarrow> loaded_result" where
  "example_result domain = \<lparr>gr_sha256 = domain, gr_version = Result_v1, gr_run_id = ''run'',
     gr_scenario_id = ''s'', gr_scenario_sha256 = ''sc'', gr_domain_id = domain, gr_result_id = domain,
     gr_status = Passed, gr_time_source_id = Some ''clock'', gr_native = None\<rparr>"

definition example_qualification :: loaded_qualification where
  "example_qualification = \<lparr>lq_sha256 = ''q'', lq_qualification_id = ''q'', lq_run_id = ''run'',
     lq_scenario_sha256 = ''sc'', lq_document = example_built\<rparr>"

definition example_context :: run_context where
  "example_context = \<lparr>rx_sha256 = ''x'', rx_run_id = ''run'', rx_scenario_id = ''s'', rx_scenario_sha256 = ''sc'',
     rx_created_at = ''2024-01-01T00:00:00Z'', rx_domains = [''a'', ''b''],
     rx_authority = \<lparr>at_kind = ''k'', at_source_id = ''clock''\<rparr>\<rparr>"

definition example_aggregation :: aggregation_inputs where
  "example_aggregation =
     \<lparr>ax_scenario = \<lparr>sx_sha256 = ''sc'', sx_scenario_id = ''s'', sx_version = Scenario_v1, sx_native = None\<rparr>,
      ax_context = example_context, ax_results = [example_result ''b'', example_result ''a''],
      ax_qualification = Some example_qualification, ax_generated_at = 63850240860000123,
      ax_context_digest = ''x'', ax_result_digests = [''b'', ''a''], ax_qualification_digest = ''q''\<rparr>"

definition cross_verdict :: "aggregation_error + aggregate_document \<Rightarrow> cross_domain option" where
  "cross_verdict m = (case m of Inl _ \<Rightarrow> None | Inr d \<Rightarrow> Some (ag_cross_domain d))"

lemma example_aggregate_passes:
  "cross_verdict (build_aggregate example_aggregation) = Some (Evaluated_transport Passed Passed)"
  by code_simp

lemma example_qualified:
  "qualification_of (example_transport_inputs [(''a'', ''b'')]) example_qualification"
  using example_inputs_valid(1) example_transport_passes
  by (simp add: qualification_of_def example_qualification_def example_transport_inputs_def)

theorem passed_aggregate_end_to_end_witness:
  "\<exists>runs. run_established example_aggregation runs (example_transport_inputs [(''a'', ''b'')])"
proof -
  obtain i d where i: "build_acceptance_result i = Inr d" "rs_status d = Passed" "inputs_of_run example_run i"
    by (rule example_run_built)
  define runs :: "string \<Rightarrow> domain_run"
    where "runs = (\<lambda>_. \<lparr>dn_record = example_run, dn_events = [[7, 2, 10, 14]], dn_inputs = i\<rparr>)"
  obtain d' where "aggregate_results example_aggregation = Inr d'"
    "ag_cross_domain d' = Evaluated_transport Passed Passed"
    using example_aggregate_passes built_aggregate_accepted [of example_aggregation]
    by (auto simp: cross_verdict_def aggregate_results_def split: sum.splits)
  moreover have "ax_qualification example_aggregation = Some example_qualification"
    by (simp add: example_aggregation_def)
  moreover have "\<forall>r \<in> set (ax_results example_aggregation). result_of_run r (runs (gr_domain_id r))"
    using i example_run_events
    by (auto simp: example_aggregation_def example_result_def result_of_run_def runs_def)
  ultimately have "run_established example_aggregation runs (example_transport_inputs [(''a'', ''b'')])"
    using passed_aggregate_end_to_end [OF _ _ _ example_qualified] by blast
  then show ?thesis by blast
qed

text \<open>A native registry of one domain.\<close>

definition example_declarations :: native_declarations where
  "example_declarations = \<lparr>nd_execution = JStr ''replay'',
     nd_profile = JObj [(''clock'', JObj [(''kind'', JStr ''k''), (''source_id'', JStr ''clock'')])],
     nd_native_model = None\<rparr>"

definition example_native_body :: native_body where
  "example_native_body = \<lparr>nb_declarations = example_declarations, nb_evaluators = JArr [], nb_run_sha256 = ''x'',
     nb_started_at = ''2024-01-01T00:00:01Z'', nb_finished_at = ''2024-01-01T00:00:02Z'',
     nb_assessment = \<lparr>sm_started_at = ''2024-01-01T00:00:03Z'', sm_finished_at = ''2024-01-01T00:00:04Z'',
       sm_calibration = None, sm_implementation = ''i'', sm_version = ''1'',
       sm_configuration = \<lparr>af_uri = ''u'', af_sha256 = ''h'', af_size_bytes = 1\<rparr>,
       sm_environment = \<lparr>af_uri = ''v'', af_sha256 = ''h'', af_size_bytes = 2\<rparr>\<rparr>\<rparr>"

definition example_native_aggregation :: aggregation_inputs where
  "example_native_aggregation = example_aggregation
     \<lparr>ax_scenario := \<lparr>sx_sha256 = ''sc'', sx_scenario_id = ''s'', sx_version = Scenario_v2,
        sx_native = Some example_declarations\<rparr>,
      ax_context := example_context\<lparr>rx_domains := [''a'']\<rparr>,
      ax_results := [(example_result ''a'')\<lparr>gr_version := Result_v2, gr_native := Some example_native_body\<rparr>],
      ax_qualification := None, ax_generated_at := 63871200000000000, ax_result_digests := [''a'']\<rparr>"

lemma example_native_aggregates:
  "cross_verdict (build_aggregate example_native_aggregation) = Some Unevaluated_transport"
  by code_simp

theorem native_aggregate_uniform_witness: "native_registry_uniform example_native_aggregation"
proof -
  obtain d where "aggregate_results example_native_aggregation = Inr d"
    using example_native_aggregates built_aggregate_accepted [of example_native_aggregation]
    by (auto simp: cross_verdict_def aggregate_results_def split: sum.splits)
  then show ?thesis
    by (rule native_aggregate_uniform) (simp add: example_native_aggregation_def)
qed

end
