(* ===== verification/Otlp_Metrics.thy ===== *)
theory Otlp_Metrics
  imports Otlp_Messages Metric_Points "HOL-Library.Word"
begin

unbundle bit_operations_syntax

text \<open>
  The metric loader (harness/otel.py, \<open>load_otlp_json_metrics\<close>): one OTLP request per line, its
  gauge, sum and histogram points turned into samples whose constructors check them, and the
  selection of the points of one run and domain. A protobuf double may be NaN or infinite; the
  constructors refuse that.
\<close>

section \<open>The parsed request\<close>

datatype pb_double = Finite rat | Not_finite

datatype pb_number = As_double pb_double | As_int int

record pb_point =
  pq_attributes :: "key_value list"
  pq_time :: int
  pq_start :: int
  pq_flags :: "32 word"

record pb_number_point = pb_point +
  pn_value :: "pb_number option"

record pb_histogram_point = pb_point +
  ph_count :: int
  ph_bucket_counts :: "int list"
  ph_explicit_bounds :: "pb_double list"
  ph_sum :: "pb_double option"
  ph_min :: "pb_double option"
  ph_max :: "pb_double option"

text \<open>The \<open>data\<close> one-of of a metric; sums and histograms carry a temporality code.\<close>

datatype pb_data =
    Gauge_data "pb_number_point list"
  | Sum_data int bool "pb_number_point list"
  | Histogram_data int "pb_histogram_point list"
  | Other_data

record pb_metric =
  pm_name :: string
  pm_unit :: string
  pm_data :: pb_data

record pb_scope_metrics =
  pz_attributes :: "key_value list"
  pz_metrics :: "pb_metric list"

record pb_resource_metrics =
  py_attributes :: "key_value list"
  py_scopes :: "pb_scope_metrics list"

type_synonym metric_request = "pb_resource_metrics list"

datatype metric_input_error =
    Metrics_unreadable read_error
  | Invalid_metric_json nat
  | Invalid_histogram nat
  | Invalid_metric nat

section \<open>One point\<close>

definition number_value :: "pb_number_point \<Rightarrow> pb_double option" where
  "number_value p =
     (case pn_value p of
        Some (As_double d) \<Rightarrow> Some d
      | Some (As_int i) \<Rightarrow> Some (Finite (fl (of_int i)))
      | None \<Rightarrow> None)"

text \<open>\<open>AGGREGATION_TEMPORALITY_DELTA\<close> is 1 and \<open>..._CUMULATIVE\<close> 2.\<close>

definition temporality_of :: "int \<Rightarrow> temporality" where
  "temporality_of code = (if code = 1 then Delta else if code = 2 then Cumulative else Unspecified)"

text \<open>The flag \<open>DATA_POINT_FLAGS_NO_RECORDED_VALUE_MASK\<close> is the lowest bit.\<close>

definition has_recorded_value :: "('a pb_point_scheme) \<Rightarrow> bool" where
  "has_recorded_value p \<longleftrightarrow> pq_flags p AND 1 = 0"

fun finite_value :: "pb_double \<Rightarrow> rat option" where
  "finite_value (Finite r) = Some r"
| "finite_value Not_finite = None"

text \<open>An optional summary value: absent, or present and finite.\<close>

fun finite_summary :: "pb_double option \<Rightarrow> rat option option" where
  "finite_summary None = Some None"
| "finite_summary (Some d) = map_option Some (finite_value d)"

fun finite_values :: "pb_double list \<Rightarrow> rat list option" where
  "finite_values [] = Some []"
| "finite_values (d # ds) =
     (case (finite_value d, finite_values ds) of (Some r, Some rs) \<Rightarrow> Some (r # rs) | _ \<Rightarrow> None)"

definition histogram_point ::
  "pb_metric \<Rightarrow> int \<Rightarrow> attributes \<Rightarrow> pb_histogram_point \<Rightarrow> histogram_sample option" where
  "histogram_point m code attributes p =
     (case (finite_values (ph_explicit_bounds p), finite_summary (ph_sum p), finite_summary (ph_min p),
          finite_summary (ph_max p)) of
        (Some bounds, Some summed, Some lo, Some hi) \<Rightarrow>
          (let h = \<lparr>hs_name = pm_name m, hs_unit = pm_unit m, hs_observed_at_ns = pq_time p,
                 hs_count = ph_count p, hs_bucket_counts = ph_bucket_counts p,
                 hs_explicit_bounds = bounds, hs_attributes = attributes,
                 hs_temporality = temporality_of code, hs_start_time_ns = pq_start p, hs_sum = summed,
                 hs_min = lo, hs_max = hi\<rparr> in
           if validate_histogram_sample h = None then Some h else None)
      | _ \<Rightarrow> None)"

definition scalar_point ::
  "pb_metric \<Rightarrow> instrument_kind \<Rightarrow> temporality option \<Rightarrow> bool \<Rightarrow> attributes \<Rightarrow> pb_number_point
    \<Rightarrow> pb_double \<Rightarrow> metric_sample option" where
  "scalar_point m kind temporality monotonic attributes p v =
     (case finite_value v of
        None \<Rightarrow> None
      | Some r \<Rightarrow>
          (let s = \<lparr>sa_name = pm_name m, sa_value = r, sa_unit = pm_unit m,
                 sa_observed_at_ns = pq_time p, sa_attributes = attributes,
                 sa_instrument_kind = kind, sa_temporality = temporality,
                 sa_start_time_ns = pq_start p, sa_monotonic = monotonic\<rparr> in
           if validate_metric_sample s = None then Some s else None))"

text \<open>The points of one metric: what \<open>samples.append\<close> adds, or the error of its constructor.\<close>

definition load_histograms ::
  "nat \<Rightarrow> (key_value list \<Rightarrow> attributes) \<Rightarrow> pb_metric \<Rightarrow> int \<Rightarrow> pb_histogram_point list
    \<Rightarrow> metric_input_error + metric_point list" where
  "load_histograms n attributes m code points =
     map_res (\<lambda>p. case histogram_point m code (attributes (pq_attributes p)) p of
         None \<Rightarrow> Inl (Invalid_histogram n)
       | Some h \<Rightarrow> Inr (Hist h)) (filter has_recorded_value points)"

definition load_scalars ::
  "nat \<Rightarrow> (key_value list \<Rightarrow> attributes) \<Rightarrow> pb_metric \<Rightarrow> instrument_kind \<Rightarrow> temporality option \<Rightarrow> bool
    \<Rightarrow> pb_number_point list \<Rightarrow> metric_input_error + metric_point list" where
  "load_scalars n attributes m kind temporality monotonic points =
     map_res (\<lambda>(p, v). case scalar_point m kind temporality monotonic (attributes (pq_attributes p)) p v of
         None \<Rightarrow> Inl (Invalid_metric n)
       | Some s \<Rightarrow> Inr (Scalar s))
       (List.map_filter (\<lambda>p. map_option (Pair p) (number_value p)) (filter has_recorded_value points))"

definition load_metric ::
  "nat \<Rightarrow> attributes \<Rightarrow> pb_metric \<Rightarrow> metric_input_error + metric_point list" where
  "load_metric n scope_attributes m =
     (let attributes = (\<lambda>items. dict_update scope_attributes (otlp_attributes items)) in
      case pm_data m of
        Gauge_data points \<Rightarrow> load_scalars n attributes m Gauge None False points
      | Sum_data code monotonic points \<Rightarrow>
          load_scalars n attributes m Sum (Some (temporality_of code)) monotonic points
      | Histogram_data code points \<Rightarrow> load_histograms n attributes m code points
      | Other_data \<Rightarrow> Inr [])"

section \<open>The file\<close>

definition request_metrics :: "metric_request \<Rightarrow> (attributes \<times> pb_metric) list" where
  "request_metrics request = concat (map (\<lambda>r. concat (map (\<lambda>c.
     map (Pair (dict_update (otlp_attributes (py_attributes r)) (otlp_attributes (pz_attributes c))))
       (pz_metrics c)) (py_scopes r))) request)"

definition load_metric_request ::
  "nat \<Rightarrow> metric_request \<Rightarrow> metric_input_error + metric_point list" where
  "load_metric_request n request =
     and_then (map_res (\<lambda>(attributes, m). load_metric n attributes m) (request_metrics request))
       (\<lambda>points. Inr (concat points))"

definition parse_metric_line ::
  "(string \<Rightarrow> json option) \<Rightarrow> ('d, metric_request) protobuf \<Rightarrow> nat \<Rightarrow> string
    \<Rightarrow> metric_input_error + metric_request" where
  "parse_metric_line parse_json protobuf n line =
     (case parse_json line of
        None \<Rightarrow> Inl (Invalid_metric_json n)
      | Some payload \<Rightarrow> (case parse_otlp_request protobuf payload of
          None \<Rightarrow> Inl (Invalid_metric_json n)
        | Some request \<Rightarrow> Inr request))"

fun load_metric_lines ::
  "(string \<Rightarrow> json option) \<Rightarrow> ('d, metric_request) protobuf \<Rightarrow> nat \<Rightarrow> string list
    \<Rightarrow> metric_input_error + metric_point list" where
  "load_metric_lines parse_json protobuf n [] = Inr []"
| "load_metric_lines parse_json protobuf n (line # rest) =
     (if blank line then load_metric_lines parse_json protobuf (Suc n) rest
      else and_then (parse_metric_line parse_json protobuf n line) (\<lambda>request.
        and_then (load_metric_request n request) (\<lambda>points.
        and_then (load_metric_lines parse_json protobuf (Suc n) rest) (\<lambda>more. Inr (points @ more)))))"

definition load_otlp_json_metrics ::
  "(nat list \<Rightarrow> string) \<Rightarrow> (nat list \<Rightarrow> string list option) \<Rightarrow> (string \<Rightarrow> json option)
    \<Rightarrow> ('d, metric_request) protobuf \<Rightarrow> string option \<Rightarrow> int option \<Rightarrow> file_read
    \<Rightarrow> metric_input_error + metric_point list" where
  "load_otlp_json_metrics digest decode parse_json protobuf expected budget f =
     (case read_otlp_json_lines digest decode budget expected f of
        Inl e \<Rightarrow> Inl (Metrics_unreadable e)
      | Inr lines \<Rightarrow> load_metric_lines parse_json protobuf 1 lines)"

definition select_metric_points :: "string \<Rightarrow> string \<Rightarrow> metric_point list \<Rightarrow> metric_point list" where
  "select_metric_points run domain points = filter (\<lambda>p.
     map_of (pt_attributes p) ''run.id'' = Some (AStr run) \<and>
     map_of (pt_attributes p) ''domain.id'' = Some (AStr domain)) points"

section \<open>The type of a loaded point\<close>

fun point_ok :: "metric_point \<Rightarrow> bool" where
  "point_ok (Scalar s) \<longleftrightarrow> validate_metric_sample s = None \<and> distinct (map fst (sa_attributes s))"
| "point_ok (Hist h) \<longleftrightarrow> validate_histogram_sample h = None \<and> distinct (map fst (hs_attributes h))"

lemma load_histograms_ok:
  assumes "load_histograms n attributes m code hs = Inr points" and "p \<in> set points"
    and d: "\<And>items. distinct (map fst (attributes items))"
  shows "point_ok p \<and> pt_name p = pm_name m \<and> pt_unit p = pm_unit m"
proof -
  from map_res_member [OF assms(1) [unfolded load_histograms_def] assms(2)] obtain q h where
    "histogram_point m code (attributes (pq_attributes q)) q = Some h" and p: "p = Hist h"
    by (auto split: option.splits)
  with d show ?thesis by (auto simp: histogram_point_def Let_def split: option.splits if_splits)
qed

lemma load_scalars_ok:
  assumes "load_scalars n attributes m kind temporality rising ps = Inr points" and "p \<in> set points"
    and d: "\<And>items. distinct (map fst (attributes items))"
  shows "point_ok p \<and> pt_name p = pm_name m \<and> pt_unit p = pm_unit m"
proof -
  from map_res_member [OF assms(1) [unfolded load_scalars_def] assms(2)] obtain q v s where
    "scalar_point m kind temporality rising (attributes (pq_attributes q)) q v = Some s" and p: "p = Scalar s"
    by (auto split: option.splits)
  with d show ?thesis by (auto simp: scalar_point_def Let_def split: option.splits if_splits)
qed

lemma load_metric_ok:
  assumes "load_metric n attributes m = Inr points" and "distinct (map fst attributes)"
    and "p \<in> set points"
  shows "point_ok p \<and> pt_name p = pm_name m \<and> pt_unit p = pm_unit m"
  using assms load_histograms_ok load_scalars_ok
  by (cases "pm_data m") (auto simp: load_metric_def)

lemma scope_attributes_distinct:
  "(attributes, m) \<in> set (request_metrics request) \<Longrightarrow> distinct (map fst attributes)"
  by (auto simp: request_metrics_def)

lemma load_request_ok:
  assumes "load_metric_request n request = Inr points" and "p \<in> set points"
  shows "point_ok p"
proof -
  from assms obtain ls where ls: "map_res (\<lambda>(attributes, m). load_metric n attributes m) (request_metrics request) = Inr ls"
    and "p \<in> set (concat ls)" by (auto simp: load_metric_request_def)
  then obtain l where "l \<in> set ls" "p \<in> set l" by auto
  with map_res_member [OF ls this(1)] obtain attributes m where
    "(attributes, m) \<in> set (request_metrics request)" "load_metric n attributes m = Inr l" by auto
  from load_metric_ok [OF this(2) scope_attributes_distinct [OF this(1)] \<open>p \<in> set l\<close>]
  show ?thesis by blast
qed

lemma load_metric_lines_ok:
  "load_metric_lines pj pb n lines = Inr points \<Longrightarrow> p \<in> set points \<Longrightarrow> point_ok p"
proof (induction pj pb n lines arbitrary: points rule: load_metric_lines.induct)
  case (2 pj pb n line rest)
  then show ?case using load_request_ok by (auto split: if_splits)
qed simp

section \<open>Every recorded value is loaded\<close>

text \<open>The points of a metric that carry a recorded value.\<close>

fun recorded_points :: "pb_data \<Rightarrow> nat" where
  "recorded_points (Gauge_data ps) = length (filter (\<lambda>p. has_recorded_value p \<and> pn_value p \<noteq> None) ps)"
| "recorded_points (Sum_data code rising ps) =
     length (filter (\<lambda>p. has_recorded_value p \<and> pn_value p \<noteq> None) ps)"
| "recorded_points (Histogram_data code hs) = length (filter has_recorded_value hs)"
| "recorded_points Other_data = 0"

lemma map_res_length: "map_res f xs = Inr ys \<Longrightarrow> length ys = length xs"
  by (simp add: map_res_Inr list_all2_lengthD)

lemma numbered_length: "length (List.map_filter (\<lambda>p. map_option (Pair p) (number_value p)) (filter has_recorded_value ps)) =
    length (filter (\<lambda>p. has_recorded_value p \<and> pn_value p \<noteq> None) ps)"
  by (induction ps) (auto simp: List.map_filter_simps number_value_def split: option.splits pb_number.splits)

lemma load_metric_length:
  assumes "load_metric n attributes m = Inr points"
  shows "length points = recorded_points (pm_data m)"
  using assms numbered_length
  by (cases "pm_data m") (auto simp: load_metric_def load_scalars_def load_histograms_def dest!: map_res_length)

lemma load_request_length:
  assumes "load_metric_request n request = Inr points"
  shows "length points = (\<Sum>(_, m) \<leftarrow> request_metrics request. recorded_points (pm_data m))"
proof -
  from assms obtain ls where ls: "map_res (\<lambda>(attributes, m). load_metric n attributes m) (request_metrics request) = Inr ls"
    and points: "points = concat ls" by (auto simp: load_metric_request_def)
  from ls [unfolded map_res_Inr] have "map length ls = map (\<lambda>(_, m). recorded_points (pm_data m)) (request_metrics request)"
    by (induction rule: list_all2_induct) (auto dest: load_metric_length)
  then show ?thesis by (simp add: points length_concat)
qed

definition parsed_metric_requests ::
  "(string \<Rightarrow> json option) \<Rightarrow> ('d, metric_request) protobuf \<Rightarrow> string list \<Rightarrow> metric_request list \<Rightarrow> bool"
where
  "parsed_metric_requests pj pb lines requests \<longleftrightarrow>
     list_all2 (\<lambda>line request. \<exists>n. parse_metric_line pj pb n line = Inr request)
       (filter (\<lambda>line. \<not> blank line) lines) requests"

definition recorded_values :: "metric_request list \<Rightarrow> nat" where
  "recorded_values requests =
     (\<Sum>(_, m) \<leftarrow> concat (map request_metrics requests). recorded_points (pm_data m))"

lemma load_metric_lines_length:
  "load_metric_lines pj pb n lines = Inr points \<Longrightarrow>
     \<exists>requests. parsed_metric_requests pj pb lines requests \<and> length points = recorded_values requests"
proof (induction pj pb n lines arbitrary: points rule: load_metric_lines.induct)
  case (1 pj pb n)
  then show ?case by (simp add: parsed_metric_requests_def recorded_values_def)
next
  case (2 pj pb n line rest)
  show ?case
  proof (cases "blank line")
    case True
    with 2 show ?thesis by (auto simp: parsed_metric_requests_def)
  next
    case False
    with 2(3) obtain request ps more where r: "parse_metric_line pj pb n line = Inr request"
      "load_metric_request n request = Inr ps" "load_metric_lines pj pb (Suc n) rest = Inr more"
      and points: "points = ps @ more" by auto
    from 2(2) [OF False r(3)] obtain requests where "parsed_metric_requests pj pb rest requests"
      "length more = recorded_values requests" by blast
    with False r(1) load_request_length [OF r(2)] show ?thesis
      by (intro exI [of _ "request # requests"])
        (auto simp: parsed_metric_requests_def recorded_values_def points)
  qed
qed


definition example_metric_request :: metric_request where
  "example_metric_request = [\<lparr>py_attributes = [\<lparr>kv_key = ''run.id'', kv_value = String_value ''r''\<rparr>],
     py_scopes = [\<lparr>pz_attributes = [\<lparr>kv_key = ''domain.id'', kv_value = String_value ''d''\<rparr>],
       pz_metrics = [\<lparr>pm_name = ''load'', pm_unit = ''1'', pm_data = Gauge_data
         [\<lparr>pq_attributes = [], pq_time = 5, pq_start = 0, pq_flags = 0,
           pn_value = Some (As_double (Finite (1 / 2)))\<rparr>,
          \<lparr>pq_attributes = [], pq_time = 6, pq_start = 0, pq_flags = 1, pn_value = None\<rparr>]\<rparr>]\<rparr>]\<rparr>]"

definition example_metric_protobuf :: "(unit, metric_request) protobuf" where
  "example_metric_protobuf = \<lparr>pb_fields = \<lambda>_ _. None, pb_descriptor = (),
     pb_parse = \<lambda>_. Some example_metric_request\<rparr>"

definition example_metric_file :: file_read where
  "example_metric_file = \<lparr>fr_before = (2, 0, 0), fr_content = [123, 125], fr_after = (2, 0, 0)\<rparr>"

definition example_loaded_points :: "metric_point list" where
  "example_loaded_points = [Scalar \<lparr>sa_name = ''load'', sa_value = 1 / 2, sa_unit = ''1'', sa_observed_at_ns = 5,
     sa_attributes = [(''run.id'', AStr ''r''), (''domain.id'', AStr ''d'')], sa_instrument_kind = Gauge,
     sa_temporality = None, sa_start_time_ns = 0, sa_monotonic = False\<rparr>]"

lemma example_metrics_loaded:
  "load_otlp_json_metrics (\<lambda>_. ''h'') (\<lambda>_. Some [''{}'', '' '']) (\<lambda>_. Some (JObj []))
     example_metric_protobuf (Some ''h'') None example_metric_file = Inr example_loaded_points"
  by code_simp


end
