(* ===== verification/Spec2Isabelle.thy ===== *)
theory Spec2Isabelle
  imports Status Json Timestamps Qualification_Policy Sem_Scenario Sem_Runtime Campaign
    Sem_Transport Sem_Native Datasets Bindings Metric_Assertions
    Bundle Acceptance Aggregation Otlp_Metrics
begin

text \<open>Header to be written.\<close>

end
